theory Spec2Isabelle
  imports Complex_Main "HOL-Library.Stream" "HOL-Library.Monad_Syntax"
begin

section \<open>The random module\<close>

text \<open>
  Both source files draw from Python's module-level generator (\<^verbatim>\<open>import random\<close>); neither
  seeds it, and no function takes a generator as an argument. The embedding makes that hidden
  state an explicit value: a generator is the stream of its future raw outputs, every call
  reads the head and returns the tail. Floats are modelled as reals.

  \<^item> \<^verbatim>\<open>random.random()\<close> returns a multiple of \<open>2^-53\<close> in \<open>[0, 1)\<close>;
  \<^item> \<^verbatim>\<open>random.choice(seq)\<close> is \<^verbatim>\<open>seq[randbelow(len(seq))]\<close>;
  \<^item> \<^verbatim>\<open>random.uniform(a, b)\<close> is \<^verbatim>\<open>a + (b - a) * random()\<close>.
\<close>

type_synonym rng = "nat stream"

definition random_random :: "rng \<Rightarrow> real \<times> rng" where
  "random_random g = (real (shd g mod 2 ^ 53) / 2 ^ 53, stl g)"

definition randbelow :: "nat \<Rightarrow> rng \<Rightarrow> nat \<times> rng" where
  "randbelow n g = (shd g mod n, stl g)"

definition random_uniform :: "real \<Rightarrow> real \<Rightarrow> rng \<Rightarrow> real \<times> rng" where
  "random_uniform a b g = (case random_random g of (u, g') \<Rightarrow> (a + (b - a) * u, g'))"

text \<open>\<^verbatim>\<open>random.choice(["cooperate", "defect"])\<close>, the only choice the agents make.\<close>

definition random_action :: "rng \<Rightarrow> string \<times> rng" where
  "random_action g = (case randbelow 2 g of (k, g') \<Rightarrow> ([''cooperate'', ''defect''] ! k, g'))"

section \<open>Scars and agents\<close>

record Scar =
  other_strategy :: string
  my_response :: string
  outcome :: string
  weight :: real
  age :: int
  source :: string

text \<open>
  The fields the two versions of \<^verbatim>\<open>Whole\<close> share. \<open>recent_defections\<close> is the attribute
  \<^verbatim>\<open>_recent_defections\<close>, which \<^verbatim>\<open>interact\<close> attaches on first use: \<open>None\<close> is an agent that
  does not have it yet.
\<close>

record Whole =
  whole_id :: int
  s_star :: real
  is_ai :: bool
  ai_type :: string
  generation :: int
  crucible_tested :: bool
  corrupted :: bool
  isolated :: bool
  trust_in_institutions :: real
  scars :: "Scar list"
  interactions :: int
  cooperations :: int
  defections :: int
  recent_defections :: "int option"

text \<open>\<^verbatim>\<open>tig_civilization_v5.py\<close>: the agent has the flag \<^verbatim>\<open>taught_by_ai\<close>.\<close>

record Whole_v5 = Whole +
  taught_by_ai :: bool

text \<open>\<^verbatim>\<open>tig_civilization_v7.py\<close>: the agent has \<^verbatim>\<open>awakened\<close> and \<^verbatim>\<open>taught_by\<close>.\<close>

record Whole_v7 = Whole +
  awakened :: bool
  taught_by :: "int option"

text \<open>Python's \<^verbatim>\<open>xs[-n:]\<close> for a positive \<open>n\<close>: the last \<open>n\<close> elements, all of a shorter list.\<close>

definition last_n :: "nat \<Rightarrow> 'a list \<Rightarrow> 'a list" where
  "last_n n xs = drop (length xs - n) xs"

subsection \<open>cooperation\_tendency\<close>

text \<open>The part both versions share: the weighted ratio over the active scars.\<close>

definition scar_tendency :: "Scar list \<Rightarrow> real" where
  "scar_tendency ss =
     (if ss = [] then 0.5
      else
        let active_scars = filter (\<lambda>s. weight s > 0.1) ss in
        if active_scars = [] then 0.5
        else
          let coop_weight = sum_list (map weight (filter (\<lambda>s. my_response s = ''cooperate''
                 \<and> (outcome s = ''survived'' \<or> outcome s = ''thrived'')) active_scars));
              defect_weight = sum_list (map weight (filter (\<lambda>s. my_response s = ''defect''
                 \<and> (outcome s = ''survived'' \<or> outcome s = ''thrived'')) active_scars));
              total = coop_weight + defect_weight
          in if total > 0 then coop_weight / total else 0.5)"

definition cooperation_tendency_v5 :: "Whole_v5 \<Rightarrow> real" where
  "cooperation_tendency_v5 self =
     (if corrupted self then 0.1
      else if is_ai self \<and> ai_type self = ''aggressive'' then 0.05
      else if is_ai self \<and> ai_type self = ''coherent'' then 0.95
      else if is_ai self \<and> ai_type self = ''bridge'' then 0.98
      else scar_tendency (scars self))"

definition cooperation_tendency_v7 :: "Whole_v7 \<Rightarrow> real" where
  "cooperation_tendency_v7 self =
     (if corrupted self then 0.1
      else if is_ai self \<and> ai_type self = ''aggressive'' then 0.05
      else if is_ai self \<and> (ai_type self = ''coherent'' \<or> ai_type self = ''bridge'') then 0.95
      else if awakened self then 0.9
      else scar_tendency (scars self))"

subsection \<open>can\_teach (v7 only; in v5 the test is inside receive\_teaching)\<close>

definition can_teach :: "Whole_v7 \<Rightarrow> bool" where
  "can_teach self =
     (if is_ai self \<and> ai_type self = ''bridge'' then True
      else if awakened self then True
      else if taught_by self \<noteq> None \<and> cooperation_tendency_v7 self > 0.8 \<and> s_star self > 0.7
        then True
      else False)"

subsection \<open>decide\<close>

text \<open>
  The loop over \<^verbatim>\<open>reversed(self.scars[-20:])\<close>: the first scar that fires gives the action;
  a draw is made for every scar that qualifies.
\<close>

fun scan_scars :: "Scar list \<Rightarrow> rng \<Rightarrow> string option \<times> rng" where
  "scan_scars [] g = (None, g)"
| "scan_scars (scar # rest) g =
     (if weight scar > 0.3 \<and> outcome scar = ''thrived'' then
        (case random_random g of (u, g') \<Rightarrow>
           if u < weight scar then (Some (my_response scar), g') else scan_scars rest g')
      else scan_scars rest g)"

text \<open>\<^verbatim>\<open>hasattr(other, '_recent_defections') and other._recent_defections > 3\<close>\<close>

definition persistent_defector :: "'a Whole_scheme \<Rightarrow> bool" where
  "persistent_defector other =
     (case recent_defections other of None \<Rightarrow> False | Some r \<Rightarrow> r > 3)"

text \<open>
  The human part of \<^verbatim>\<open>decide\<close>, from the noise draw on; \<open>tendency\<close> is the agent's
  \<^verbatim>\<open>cooperation_tendency\<close>, which the two versions compute differently.
\<close>

definition decide_human :: "real \<Rightarrow> 'a Whole_scheme \<Rightarrow> real \<Rightarrow> rng \<Rightarrow> string \<times> rng" where
  "decide_human tendency self noise g =
     (case random_random g of (u1, g1) \<Rightarrow>
      if u1 < noise then random_action g1
      else
        (case random_random g1 of (u2, g2) \<Rightarrow>
         case (if u2 > trust_in_institutions self
               then (case random_random g2 of (u3, g3) \<Rightarrow> (u3 < 0.3, g3))
               else (False, g2)) of
           (distrust, g3) \<Rightarrow>
             if distrust then (''defect'', g3)
             else
               (case scan_scars (rev (last_n 20 (scars self))) g3 of
                  (Some response, g4) \<Rightarrow> (response, g4)
                | (None, g4) \<Rightarrow>
                    (case random_random g4 of (u5, g5) \<Rightarrow>
                       let p_coop = (tendency + s_star self) / 2
                       in (if u5 < p_coop then ''cooperate'' else ''defect'', g5)))))"

definition decide_v5 :: "Whole_v5 \<Rightarrow> 'a Whole_scheme \<Rightarrow> real \<Rightarrow> rng \<Rightarrow> string \<times> rng" where
  "decide_v5 self other noise g =
     (if corrupted self then (''defect'', g)
      else if is_ai self then
        (if ai_type self = ''aggressive'' then (''defect'', g)
         else if ai_type self = ''coherent'' \<or> ai_type self = ''bridge'' then
           (if persistent_defector other then (''defect'', g) else (''cooperate'', g))
         else random_action g)
      else decide_human (cooperation_tendency_v5 self) self noise g)"

definition decide_v7 :: "Whole_v7 \<Rightarrow> 'a Whole_scheme \<Rightarrow> real \<Rightarrow> rng \<Rightarrow> string \<times> rng" where
  "decide_v7 self other noise g =
     (if corrupted self then (''defect'', g)
      else if is_ai self then
        (if ai_type self = ''aggressive'' then (''defect'', g)
         else if ai_type self = ''coherent'' \<or> ai_type self = ''bridge'' then
           (if persistent_defector other then (''defect'', g) else (''cooperate'', g))
         else random_action g)
      else if awakened self then (''cooperate'', g)
      else decide_human (cooperation_tendency_v7 self) self noise g)"

subsection \<open>learn, receive\_teaching, update\_coherence, is\_viable\<close>

text \<open>The dictionary of \<^verbatim>\<open>learn\<close>; a key that is not there raises \<^verbatim>\<open>KeyError\<close>.\<close>

definition outcome_weight :: "string \<Rightarrow> real option" where
  "outcome_weight outc =
     map_of [(''thrived'', 0.8), (''survived'', 0.5), (''suffered'', 0.2)] outc"

definition new_scar :: "string \<Rightarrow> string \<Rightarrow> string \<Rightarrow> real \<Rightarrow> string \<Rightarrow> Scar" where
  "new_scar their_action my_action outc wt src =
     \<lparr>other_strategy = their_action, my_response = my_action, outcome = outc,
      weight = wt, age = 0, source = src\<rparr>"

text \<open>\<open>None\<close> is the \<^verbatim>\<open>KeyError\<close> of an outcome outside the dictionary.\<close>

definition learn ::
  "'a Whole_scheme \<Rightarrow> string \<Rightarrow> string \<Rightarrow> string \<Rightarrow> string \<Rightarrow> 'a Whole_scheme option" where
  "learn self my_action their_action outc src =
     (case outcome_weight outc of
        None \<Rightarrow> None
      | Some wt \<Rightarrow>
          let appended = scars self @ [new_scar their_action my_action outc wt src]
          in Some (self\<lparr>scars := (if length appended > 100 then last_n 100 appended
                                  else appended)\<rparr>))"

definition taught_scar :: Scar where
  "taught_scar = new_scar ''cooperate'' ''cooperate'' ''thrived'' 0.7 ''taught''"

definition receive_teaching_v5 :: "Whole_v5 \<Rightarrow> 'a Whole_scheme \<Rightarrow> Whole_v5" where
  "receive_teaching_v5 self teacher =
     (if \<not> is_ai teacher \<or> ai_type teacher \<noteq> ''bridge'' then self
      else self\<lparr>scars := scars self @ [taught_scar],
                taught_by_ai := True,
                trust_in_institutions := min 1.0 (trust_in_institutions self + 0.1)\<rparr>)"

definition receive_teaching_v7 :: "Whole_v7 \<Rightarrow> Whole_v7 \<Rightarrow> rng \<Rightarrow> Whole_v7 \<times> rng" where
  "receive_teaching_v7 self teacher g =
     (if \<not> can_teach teacher then (self, g)
      else
        let taught = self\<lparr>scars := scars self @ [taught_scar],
                          taught_by := Some (whole_id teacher),
                          trust_in_institutions := min 1.0 (trust_in_institutions self + 0.1)\<rparr>
        in case random_random g of (u, g') \<Rightarrow>
             (if u < 0.05 then taught\<lparr>awakened := True\<rparr> else taught, g'))"

definition update_coherence :: "'a Whole_scheme \<Rightarrow> real \<Rightarrow> 'a Whole_scheme" where
  "update_coherence self delta = self\<lparr>s_star := max 0.01 (min 1.0 (s_star self + delta))\<rparr>"

definition is_viable :: "'a Whole_scheme \<Rightarrow> bool" where
  "is_viable self = (s_star self > 0.1)"

section \<open>interact\<close>

text \<open>The \<^verbatim>\<open>hasattr\<close> test that opens \<^verbatim>\<open>interact\<close>.\<close>

definition init_recent :: "'a Whole_scheme \<Rightarrow> 'a Whole_scheme" where
  "init_recent w = (case recent_defections w of None \<Rightarrow> w\<lparr>recent_defections := Some 0\<rparr>
                    | Some r \<Rightarrow> w)"

text \<open>The counter \<^verbatim>\<open>_recent_defections\<close> of an agent that has it.\<close>

definition recent :: "'a Whole_scheme \<Rightarrow> int" where
  "recent w = (case recent_defections w of None \<Rightarrow> 0 | Some r \<Rightarrow> r)"

definition recent_up :: "'a Whole_scheme \<Rightarrow> 'a Whole_scheme" where
  "recent_up w = w\<lparr>recent_defections := Some (recent w + 1)\<rparr>"

definition recent_down :: "'a Whole_scheme \<Rightarrow> 'a Whole_scheme" where
  "recent_down w = w\<lparr>recent_defections := Some (max 0 (recent w - 1))\<rparr>"

definition cooperated :: "'a Whole_scheme \<Rightarrow> 'a Whole_scheme" where
  "cooperated w = w\<lparr>cooperations := cooperations w + 1\<rparr>"

definition defected :: "'a Whole_scheme \<Rightarrow> 'a Whole_scheme" where
  "defected w = w\<lparr>defections := defections w + 1\<rparr>"

text \<open>
  The polarization penalty: the draw is made only when both agents are isolated
  (\<^verbatim>\<open>and\<close> short-circuits).
\<close>

definition polarization_draw ::
  "'a Whole_scheme \<Rightarrow> 'b Whole_scheme \<Rightarrow> real \<Rightarrow> rng \<Rightarrow> real \<times> rng" where
  "polarization_draw w1 w2 polarization g =
     (if isolated w1 \<and> isolated w2 then
        (case random_random g of (u, g') \<Rightarrow> (if u < polarization then 0.05 else 0, g'))
      else (0, g))"

text \<open>
  The payoff table: the deltas \<open>d1\<close>, \<open>d2\<close>, the outcomes \<open>o1\<close>, \<open>o2\<close>, and the agents with
  their counters updated. In v5 (lines 176-207) the cooperator of a one-sided defection has
  its \<^verbatim>\<open>_recent_defections\<close> decremented; in v7 (lines 179-208) it is left alone.
\<close>

definition payoff_v5 ::
  "string \<Rightarrow> string \<Rightarrow> real \<Rightarrow> real \<Rightarrow> 'a Whole_scheme \<Rightarrow> 'b Whole_scheme \<Rightarrow>
   real \<times> real \<times> string \<times> string \<times> 'a Whole_scheme \<times> 'b Whole_scheme" where
  "payoff_v5 a1 a2 scarcity polarization_penalty w1 w2 =
     (let scarcity_mult = 1 + scarcity * 2 in
      if a1 = ''cooperate'' \<and> a2 = ''cooperate'' then
        (0.15 * (1 - scarcity) - polarization_penalty,
         0.15 * (1 - scarcity) - polarization_penalty,
         ''thrived'', ''thrived'',
         recent_down (cooperated w1), recent_down (cooperated w2))
      else if a1 = ''defect'' \<and> a2 = ''defect'' then
        (- 0.1 * scarcity_mult, - 0.1 * scarcity_mult,
         ''suffered'', ''suffered'',
         recent_up (defected w1), recent_up (defected w2))
      else if a1 = ''defect'' then
        (0.1 * scarcity_mult, - 0.2 * scarcity_mult,
         ''survived'', ''suffered'',
         recent_up (defected w1), recent_down (cooperated w2))
      else
        (- 0.2 * scarcity_mult, 0.1 * scarcity_mult,
         ''suffered'', ''survived'',
         recent_down (cooperated w1), recent_up (defected w2)))"

definition payoff_v7 ::
  "string \<Rightarrow> string \<Rightarrow> real \<Rightarrow> real \<Rightarrow> 'a Whole_scheme \<Rightarrow> 'b Whole_scheme \<Rightarrow>
   real \<times> real \<times> string \<times> string \<times> 'a Whole_scheme \<times> 'b Whole_scheme" where
  "payoff_v7 a1 a2 scarcity polarization_penalty w1 w2 =
     (let scarcity_mult = 1 + scarcity * 2 in
      if a1 = ''cooperate'' \<and> a2 = ''cooperate'' then
        (0.15 * (1 - scarcity) - polarization_penalty,
         0.15 * (1 - scarcity) - polarization_penalty,
         ''thrived'', ''thrived'',
         recent_down (cooperated w1), recent_down (cooperated w2))
      else if a1 = ''defect'' \<and> a2 = ''defect'' then
        (- 0.1 * scarcity_mult, - 0.1 * scarcity_mult,
         ''suffered'', ''suffered'',
         recent_up (defected w1), recent_up (defected w2))
      else if a1 = ''defect'' then
        (0.1 * scarcity_mult, - 0.2 * scarcity_mult,
         ''survived'', ''suffered'',
         recent_up (defected w1), cooperated w2)
      else
        (- 0.2 * scarcity_mult, 0.1 * scarcity_mult,
         ''suffered'', ''survived'',
         cooperated w1, recent_up (defected w2)))"

text \<open>
  Lines 209-214 of v5 (210-215 of v7): the deltas are applied, each agent learns its scar,
  the interaction counters go up. \<open>None\<close> is the \<^verbatim>\<open>KeyError\<close> of \<^verbatim>\<open>learn\<close>.
\<close>

definition settle ::
  "string \<Rightarrow> string \<Rightarrow> real \<times> real \<times> string \<times> string \<times> 'a Whole_scheme \<times> 'b Whole_scheme \<Rightarrow>
   ('a Whole_scheme \<times> 'b Whole_scheme) option" where
  "settle a1 a2 p =
     (case p of (d1, d2, o1, o2, w1, w2) \<Rightarrow>
        do {
          l1 \<leftarrow> learn (update_coherence w1 d1) a1 a2 o1 ''experience'';
          l2 \<leftarrow> learn (update_coherence w2 d2) a2 a1 o2 ''experience'';
          Some (l1\<lparr>interactions := interactions l1 + 1\<rparr>,
                l2\<lparr>interactions := interactions l2 + 1\<rparr>)
        })"

text \<open>The teaching block that ends \<^verbatim>\<open>interact\<close>: lines 216-221 of v5, 217-222 of v7.\<close>

definition teach_v5 :: "string \<Rightarrow> string \<Rightarrow> Whole_v5 \<Rightarrow> Whole_v5 \<Rightarrow> Whole_v5 \<times> Whole_v5" where
  "teach_v5 a1 a2 w1 w2 =
     (if a1 = ''cooperate'' \<and> a2 = ''cooperate'' then
        let w2' = (if is_ai w1 \<and> ai_type w1 = ''bridge'' \<and> \<not> is_ai w2
                   then receive_teaching_v5 w2 w1 else w2);
            w1' = (if is_ai w2' \<and> ai_type w2' = ''bridge'' \<and> \<not> is_ai w1
                   then receive_teaching_v5 w1 w2' else w1)
        in (w1', w2')
      else (w1, w2))"

definition teach_v7 ::
  "string \<Rightarrow> string \<Rightarrow> Whole_v7 \<Rightarrow> Whole_v7 \<Rightarrow> rng \<Rightarrow> Whole_v7 \<times> Whole_v7 \<times> rng" where
  "teach_v7 a1 a2 w1 w2 g =
     (if a1 = ''cooperate'' \<and> a2 = ''cooperate'' then
        (case (if can_teach w1 \<and> \<not> is_ai w2 \<and> taught_by w2 = None
               then receive_teaching_v7 w2 w1 g else (w2, g)) of
           (w2', g') \<Rightarrow>
             (case (if can_teach w2' \<and> \<not> is_ai w1 \<and> taught_by w1 = None
                    then receive_teaching_v7 w1 w2' g' else (w1, g')) of
                (w1', g'') \<Rightarrow> (w1', w2', g'')))
      else (w1, w2, g))"

text \<open>
  \<^verbatim>\<open>interact(w1, w2, noise, scarcity, polarization)\<close> on two distinct agents (every caller
  passes agents of different ids): the agents as they are afterwards, and the generator.
\<close>

definition interact_v5 ::
  "Whole_v5 \<Rightarrow> Whole_v5 \<Rightarrow> real \<Rightarrow> real \<Rightarrow> real \<Rightarrow> rng \<Rightarrow> (Whole_v5 \<times> Whole_v5 \<times> rng) option" where
  "interact_v5 w1 w2 noise scarcity polarization g =
     (let i1 = init_recent w1; i2 = init_recent w2 in
      case decide_v5 i1 i2 noise g of (a1, g1) \<Rightarrow>
      case decide_v5 i2 i1 noise g1 of (a2, g2) \<Rightarrow>
      case polarization_draw i1 i2 polarization g2 of (polarization_penalty, g3) \<Rightarrow>
        do {
          (s1, s2) \<leftarrow> settle a1 a2 (payoff_v5 a1 a2 scarcity polarization_penalty i1 i2);
          case teach_v5 a1 a2 s1 s2 of (t1, t2) \<Rightarrow> Some (t1, t2, g3)
        })"

definition interact_v7 ::
  "Whole_v7 \<Rightarrow> Whole_v7 \<Rightarrow> real \<Rightarrow> real \<Rightarrow> real \<Rightarrow> rng \<Rightarrow> (Whole_v7 \<times> Whole_v7 \<times> rng) option" where
  "interact_v7 w1 w2 noise scarcity polarization g =
     (let i1 = init_recent w1; i2 = init_recent w2 in
      case decide_v7 i1 i2 noise g of (a1, g1) \<Rightarrow>
      case decide_v7 i2 i1 noise g1 of (a2, g2) \<Rightarrow>
      case polarization_draw i1 i2 polarization g2 of (polarization_penalty, g3) \<Rightarrow>
        do {
          (s1, s2) \<leftarrow> settle a1 a2 (payoff_v7 a1 a2 scarcity polarization_penalty i1 i2);
          Some (teach_v7 a1 a2 s1 s2 g3)
        })"

section \<open>Creating agents\<close>

text \<open>\<^verbatim>\<open>Whole(id=i)\<close>: the dataclass with its defaults.\<close>

definition new_whole_v5 :: "int \<Rightarrow> Whole_v5" where
  "new_whole_v5 i =
     \<lparr>whole_id = i, s_star = 0.5, is_ai = False, ai_type = '''', generation = 0,
      crucible_tested = False, corrupted = False, isolated = False,
      trust_in_institutions = 0.5, scars = [], interactions = 0, cooperations = 0,
      defections = 0, recent_defections = None, taught_by_ai = False\<rparr>"

definition new_whole_v7 :: "int \<Rightarrow> Whole_v7" where
  "new_whole_v7 i =
     \<lparr>whole_id = i, s_star = 0.5, is_ai = False, ai_type = '''', generation = 0,
      crucible_tested = False, corrupted = False, isolated = False,
      trust_in_institutions = 0.5, scars = [], interactions = 0, cooperations = 0,
      defections = 0, recent_defections = None, awakened = False, taught_by = None\<rparr>"

definition create_human_v5 :: "int \<Rightarrow> int \<Rightarrow> real \<Rightarrow> rng \<Rightarrow> Whole_v5 \<times> rng" where
  "create_human_v5 next_id gen trust g =
     (case random_uniform 0.3 0.7 g of (s, g') \<Rightarrow>
        ((new_whole_v5 next_id)\<lparr>generation := gen, trust_in_institutions := trust,
                                 s_star := s\<rparr>, g'))"

definition create_human_v7 :: "int \<Rightarrow> real \<Rightarrow> bool \<Rightarrow> rng \<Rightarrow> Whole_v7 \<times> rng" where
  "create_human_v7 next_id trust isol g =
     (case random_uniform 0.3 0.7 g of (s, g') \<Rightarrow>
        ((new_whole_v7 next_id)\<lparr>trust_in_institutions := trust, s_star := s,
                                 isolated := isol\<rparr>, g'))"

definition training_scars :: "Scar list" where
  "training_scars =
     replicate 20 (new_scar ''cooperate'' ''cooperate'' ''thrived'' 0.8 ''training'')"

text \<open>\<^verbatim>\<open>create_ai\<close>, the same in both files, on the blank agent \<^verbatim>\<open>Whole(id=next_id)\<close>.\<close>

definition create_ai :: "'a Whole_scheme \<Rightarrow> string \<Rightarrow> 'a Whole_scheme" where
  "create_ai blank t =
     (let w = blank\<lparr>is_ai := True, ai_type := t\<rparr>;
          w = w\<lparr>s_star := (if t = ''coherent'' \<or> t = ''bridge'' then 0.9 else 0.5)\<rparr>
      in if t = ''coherent'' \<or> t = ''bridge''
         then w\<lparr>scars := scars w @ training_scars, crucible_tested := True\<rparr>
         else w)"

definition create_ai_v5 :: "int \<Rightarrow> string \<Rightarrow> Whole_v5" where
  "create_ai_v5 next_id t = create_ai (new_whole_v5 next_id) t"

definition create_ai_v7 :: "int \<Rightarrow> string \<Rightarrow> Whole_v7" where
  "create_ai_v7 next_id t = create_ai (new_whole_v7 next_id) t"

definition create_awakened_human :: "int \<Rightarrow> Whole_v7" where
  "create_awakened_human next_id =
     (new_whole_v7 next_id)\<lparr>awakened := True, s_star := 0.8, trust_in_institutions := 0.8,
        scars := replicate 15
          (new_scar ''cooperate'' ''cooperate'' ''thrived'' 0.75 ''experience''),
        crucible_tested := True\<rparr>"

text \<open>The two agents, and the two deltas, of the tuple the payoff table returns.\<close>

definition payoff_agents ::
  "real \<times> real \<times> string \<times> string \<times> 'a \<times> 'b \<Rightarrow> 'a \<times> 'b" where
  "payoff_agents p = (case p of (d1, d2, o1, o2, w1, w2) \<Rightarrow> (w1, w2))"

definition payoff_deltas ::
  "real \<times> real \<times> string \<times> string \<times> 'a \<times> 'b \<Rightarrow> real \<times> real" where
  "payoff_deltas p = (case p of (d1, d2, o1, o2, w1, w2) \<Rightarrow> (d1, d2))"

text \<open>The payoff tuple seen from the other agent.\<close>

definition mirrored ::
  "real \<times> real \<times> string \<times> string \<times> 'a \<times> 'b \<Rightarrow> real \<times> real \<times> string \<times> string \<times> 'b \<times> 'a" where
  "mirrored p = (case p of (d1, d2, o1, o2, w1, w2) \<Rightarrow> (d2, d1, o2, o1, w2, w1))"

section \<open>The generation loop\<close>

subsection \<open>What both drivers share\<close>

text \<open>
  \<^verbatim>\<open>random.sample(population, k)\<close> for \<open>0 \<le> k \<le> len(population)\<close>: \<open>k\<close> elements at
  distinct positions, each picked from the pool of those not picked yet, the last of the
  pool moving into the vacancy. Both drivers call it with \<open>k = min(c, len(population))\<close>,
  so its \<^verbatim>\<open>ValueError\<close> cannot arise there.
\<close>

fun sample_pool :: "'a list \<Rightarrow> nat \<Rightarrow> rng \<Rightarrow> 'a list \<times> rng" where
  "sample_pool pool 0 g = ([], g)"
| "sample_pool pool (Suc k) g =
     (if pool = [] then ([], g)
      else
        (case randbelow (length pool) g of (j, g') \<Rightarrow>
           (case sample_pool (butlast (pool[j := last pool])) k g' of
              (rest, g'') \<Rightarrow> (pool ! j # rest, g''))))"

text \<open>
  A population is the list of its agents; an agent met through a second reference
  (\<^verbatim>\<open>others\<close>, \<^verbatim>\<open>partners\<close>) is its position in that list, so that what \<^verbatim>\<open>interact\<close> does to
  a partner is seen by everyone who holds it.
\<close>

text \<open>\<^verbatim>\<open>random.sample(pool, min(c, len(pool))) if pool else []\<close>\<close>

definition sample_upto :: "nat \<Rightarrow> 'a list \<Rightarrow> rng \<Rightarrow> 'a list \<times> rng" where
  "sample_upto c pool g =
     (if pool \<noteq> [] then sample_pool pool (min c (length pool)) g else ([], g))"

text \<open>
  \<^verbatim>\<open>if outside and random.random() < chance: partners.append(random.choice(outside))\<close>:
  no draw is made when there is nobody outside.
\<close>

definition maybe_outside ::
  "real \<Rightarrow> 'a list \<Rightarrow> 'a list \<times> rng \<Rightarrow> 'a list \<times> rng" where
  "maybe_outside chance outside st =
     (case st of (partners, g1) \<Rightarrow>
        if outside \<noteq> [] then
          (case random_random g1 of (u, g2) \<Rightarrow>
             if u < chance then
               (case randbelow (length outside) g2 of (k, g3) \<Rightarrow>
                  (partners @ [outside ! k], g3))
             else (partners, g2))
        else (partners, g1))"

text \<open>\<^verbatim>\<open>for _ in range(n): population.append(mk(next_id)); next_id += 1\<close>\<close>

fun add_agents :: "(int \<Rightarrow> 'w) \<Rightarrow> nat \<Rightarrow> 'w list \<times> int \<Rightarrow> 'w list \<times> int" where
  "add_agents mk 0 (population, next_id) = (population, next_id)"
| "add_agents mk (Suc n) (population, next_id) =
     add_agents mk n (population @ [mk next_id], next_id + 1)"

text \<open>
  The equality of the dataclass, which \<^verbatim>\<open>w not in weakest\<close> uses: all declared fields, and
  not the attribute \<^verbatim>\<open>_recent_defections\<close>.
\<close>

definition same_agent :: "'a Whole_scheme \<Rightarrow> 'a Whole_scheme \<Rightarrow> bool" where
  "same_agent a b = (a\<lparr>recent_defections := None\<rparr> = b\<lparr>recent_defections := None\<rparr>)"

text \<open>
  The scars a child inherits: one draw per scar of the parent, a scar that is kept is
  copied with its weight scaled and the source \<^verbatim>\<open>inherited\<close>.
\<close>

fun inherit_scars :: "real \<Rightarrow> real \<Rightarrow> Scar list \<Rightarrow> rng \<Rightarrow> Scar list \<times> rng" where
  "inherit_scars rate factor [] g = ([], g)"
| "inherit_scars rate factor (scar # rest) g =
     (case random_random g of (u, g1) \<Rightarrow>
        (case inherit_scars rate factor rest g1 of (kept, g2) \<Rightarrow>
           (if u < rate
            then new_scar (other_strategy scar) (my_response scar) (outcome scar)
                   (weight scar * factor) ''inherited'' # kept
            else kept, g2)))"

text \<open>
  What one generation leaves: the run has collapsed (with the cause, when the driver names
  one), or it goes on; either way with the population and the generator as they are then.
\<close>

datatype ('w, 'm) outcome =
  Collapsed "string option" "'w list" rng
| Survived "'w list" int rng 'm

subsection \<open>run\_simulation (v7)\<close>

text \<open>The arguments of \<^verbatim>\<open>run_simulation\<close>, but for \<^verbatim>\<open>name\<close>, which is only printed.\<close>

record params_v7 =
  p7_generations :: int
  p7_noise :: real
  p7_scarcity :: real
  p7_polarization :: real
  p7_add_bridge_ai :: int
  p7_add_bridge_gen :: int
  p7_add_awakened_humans :: int
  p7_add_awakened_gen :: int
  p7_gradual_ai_growth :: bool
  p7_ai_growth_rate :: int

record metrics_v7 =
  m7_gen :: int
  m7_humans :: nat
  m7_ais :: nat
  m7_awakened :: nat
  m7_taught :: nat
  m7_teachers :: nat
  m7_s_star :: real
  m7_coop :: real
  m7_trust :: real

text \<open>
  The dictionary \<^verbatim>\<open>run_simulation\<close> returns: with \<^verbatim>\<open>collapsed_at\<close> and the history so far,
  or with \<^verbatim>\<open>final\<close> (the last record, if there is one) and the whole history.
\<close>

datatype result_v7 =
  Collapsed_v7 int "metrics_v7 list"
| Completed_v7 "metrics_v7 option" "metrics_v7 list"

definition interventions_v7 ::
  "params_v7 \<Rightarrow> int \<Rightarrow> Whole_v7 list \<times> int \<Rightarrow> Whole_v7 list \<times> int" where
  "interventions_v7 p gen st =
     (let st1 = (if gen = p7_add_bridge_gen p \<and> p7_add_bridge_ai p > 0 \<and> \<not> p7_gradual_ai_growth p
                 then add_agents (\<lambda>i. create_ai_v7 i ''bridge'') (nat (p7_add_bridge_ai p)) st
                 else st);
          st2 = (if p7_gradual_ai_growth p \<and> gen \<ge> p7_add_bridge_gen p
                 then add_agents (\<lambda>i. create_ai_v7 i ''bridge'') (nat (p7_ai_growth_rate p)) st1
                 else st1)
      in if gen = p7_add_awakened_gen p \<and> p7_add_awakened_humans p > 0
         then add_agents create_awakened_human (nat (p7_add_awakened_humans p)) st2
         else st2)"

text \<open>The partners of the agent at position \<open>i\<close>, as positions.\<close>

definition choose_partners_v7 :: "Whole_v7 list \<Rightarrow> nat \<Rightarrow> rng \<Rightarrow> nat list \<times> rng" where
  "choose_partners_v7 population i g =
     (let w = population ! i;
          others = filter (\<lambda>j. whole_id (population ! j) \<noteq> whole_id w) [0..<length population]
      in if others = [] then ([], g)
         else if isolated w \<and> \<not> is_ai w \<and> \<not> awakened w then
           (let same = filter (\<lambda>j. isolated (population ! j) \<and> \<not> is_ai (population ! j)) others;
                diff = filter (\<lambda>j. \<not> isolated (population ! j) \<or> is_ai (population ! j)
                                    \<or> awakened (population ! j)) others
            in maybe_outside 0.3 diff (sample_upto 3 same g))
         else sample_pool others (min 5 (length others)) g)"

text \<open>\<^verbatim>\<open>for partner in partners: interact(w, partner, ...)\<close>, \<open>w\<close> at position \<open>i\<close>.\<close>

fun meet_partners_v7 ::
  "params_v7 \<Rightarrow> nat \<Rightarrow> nat list \<Rightarrow> Whole_v7 list \<times> rng \<Rightarrow> (Whole_v7 list \<times> rng) option" where
  "meet_partners_v7 p i [] st = Some st"
| "meet_partners_v7 p i (j # js) (population, g) =
     (case interact_v7 (population ! i) (population ! j)
             (p7_noise p) (p7_scarcity p) (p7_polarization p) g of
        None \<Rightarrow> None
      | Some (w1, w2, g') \<Rightarrow> meet_partners_v7 p i js (population[i := w1, j := w2], g'))"

text \<open>\<^verbatim>\<open>for w in population: ...\<close>, over the positions.\<close>

fun interactions_v7 ::
  "params_v7 \<Rightarrow> nat list \<Rightarrow> Whole_v7 list \<times> rng \<Rightarrow> (Whole_v7 list \<times> rng) option" where
  "interactions_v7 p [] st = Some st"
| "interactions_v7 p (i # rest) (population, g) =
     (case choose_partners_v7 population i g of
        (partners, g1) \<Rightarrow>
          (case meet_partners_v7 p i partners (population, g1) of
             None \<Rightarrow> None
           | Some st \<Rightarrow> interactions_v7 p rest st))"

definition deaths_v7 :: "Whole_v7 list \<Rightarrow> Whole_v7 list" where
  "deaths_v7 population =
     (let humans = filter (\<lambda>w. \<not> is_ai w) population
      in if length humans > 100 then
           (let weakest = take 3 (sort_key s_star (filter (\<lambda>h. \<not> awakened h) humans))
            in filter (\<lambda>w. \<not> list_ex (same_agent w) weakest) population)
         else population)"

definition metrics_of_v7 :: "int \<Rightarrow> Whole_v7 list \<Rightarrow> metrics_v7" where
  "metrics_of_v7 gen population =
     (let humans = filter (\<lambda>w. \<not> is_ai w) population;
          h_coop = sum_list (map cooperations humans);
          h_def = sum_list (map defections humans)
      in \<lparr>m7_gen = gen,
          m7_humans = length humans,
          m7_ais = length (filter is_ai population),
          m7_awakened = length (filter awakened humans),
          m7_taught = length (filter (\<lambda>w. taught_by w \<noteq> None) humans),
          m7_teachers = length (filter can_teach humans),
          m7_s_star = sum_list (map s_star humans) / real (length humans),
          m7_coop = (if h_coop + h_def > 0 then real_of_int h_coop / real_of_int (h_coop + h_def)
                     else 0),
          m7_trust = sum_list (map trust_in_institutions humans) / real (length humans)\<rparr>)"

text \<open>\<^verbatim>\<open>parent.taught_by or parent.awakened\<close>: a teacher id of 0 is as false as \<^verbatim>\<open>None\<close>.\<close>

definition better_inheritance :: "Whole_v7 \<Rightarrow> bool" where
  "better_inheritance parent =
     ((case taught_by parent of None \<Rightarrow> False | Some t \<Rightarrow> t \<noteq> 0) \<or> awakened parent)"

fun births_v7 ::
  "nat \<Rightarrow> Whole_v7 list \<Rightarrow> Whole_v7 list \<times> int \<times> rng \<Rightarrow> Whole_v7 list \<times> int \<times> rng" where
  "births_v7 n_humans [] st = st"
| "births_v7 n_humans (parent # rest) (population, next_id, g) =
     (case random_random g of (u, g1) \<Rightarrow>
        if u < s_star parent * 0.25 \<and> n_humans < 200 then
          (case random_random g1 of (ui, g2) \<Rightarrow>
           case create_human_v7 next_id (max 0.1 (trust_in_institutions parent * 0.9))
                  (ui < 0.3) g2 of (child, g3) \<Rightarrow>
           case inherit_scars (if better_inheritance parent then 0.5 else 0.3) 0.6
                  (last_n 8 (scars parent)) g3 of (inherited, g4) \<Rightarrow>
             births_v7 n_humans rest
               (population @ [child\<lparr>scars := scars child @ inherited\<rparr>], next_id + 1, g4))
        else births_v7 n_humans rest (population, next_id, g1))"

text \<open>
  The body of \<^verbatim>\<open>for gen in range(generations)\<close>. \<open>None\<close> is the \<^verbatim>\<open>KeyError\<close> that \<^verbatim>\<open>learn\<close>
  could raise.
\<close>

definition generation_v7 ::
  "params_v7 \<Rightarrow> int \<Rightarrow> Whole_v7 list \<times> int \<times> rng \<Rightarrow> (Whole_v7, metrics_v7) outcome option" where
  "generation_v7 p gen st =
     (case st of (population0, next_id0, g0) \<Rightarrow>
      case interventions_v7 p gen (population0, next_id0) of (entered, next_id1) \<Rightarrow>
      case interactions_v7 p [0..<length entered] (entered, g0) of
        None \<Rightarrow> None
      | Some (met, g1) \<Rightarrow>
          (let population = filter is_viable (deaths_v7 met);
               humans = filter (\<lambda>w. \<not> is_ai w) population
           in if length humans < 3 then Some (Collapsed None population g1)
              else
                (let viable = filter (\<lambda>w. s_star w > 0.5 \<and> \<not> corrupted w) humans
                 in case births_v7 (length humans) (take 8 viable) (population, next_id1, g1) of
                      (population', next_id2, g2) \<Rightarrow>
                        Some (Survived population' next_id2 g2 (metrics_of_v7 gen population)))))"

text \<open>
  The loop over the generations, with the history so far. Beside the dictionary the model
  returns the population and the generator as the loop leaves them.
\<close>

fun generations_v7 ::
  "params_v7 \<Rightarrow> int list \<Rightarrow> Whole_v7 list \<times> int \<times> rng \<Rightarrow> metrics_v7 list \<Rightarrow>
   (result_v7 \<times> Whole_v7 list \<times> rng) option" where
  "generations_v7 p [] (population, next_id, g) history =
     Some (Completed_v7 (if history = [] then None else Some (last history)) history,
           population, g)"
| "generations_v7 p (gen # gens) (population, next_id, g) history =
     (case generation_v7 p gen (population, next_id, g) of
        None \<Rightarrow> None
      | Some (Collapsed cause population' g') \<Rightarrow>
          Some (Collapsed_v7 gen history, population', g')
      | Some (Survived population' next_id' g' m) \<Rightarrow>
          generations_v7 p gens (population', next_id', g') (history @ [m]))"

definition run_simulation ::
  "params_v7 \<Rightarrow> Whole_v7 list \<Rightarrow> int \<Rightarrow> rng \<Rightarrow> (result_v7 \<times> Whole_v7 list \<times> rng) option" where
  "run_simulation p population next_id g =
     generations_v7 p [0..p7_generations p - 1] (population, next_id, g) []"

subsection \<open>run\_scenario (v5)\<close>

text \<open>
  The arguments of \<^verbatim>\<open>run_scenario\<close>, but for \<^verbatim>\<open>name\<close>. \<^verbatim>\<open>ai_type\<close> is an optional string,
  and the driver tests its truth: neither \<^verbatim>\<open>None\<close> nor empty.
\<close>

record params_v5 =
  p5_ai_type :: "string option"
  p5_n_ai :: int
  p5_ai_entry_gen :: int
  p5_generations :: int
  p5_base_noise :: real
  p5_base_scarcity :: real
  p5_base_polarization :: real
  p5_scarcity_growth :: real
  p5_polarization_growth :: real

record metrics_v5 =
  m5_gen :: int
  m5_humans :: nat
  m5_ais :: nat
  m5_human_s_star :: real
  m5_human_coop_ratio :: real
  m5_crucible_pct :: real
  m5_taught_by_ai_pct :: real
  m5_isolated_pct :: real
  m5_avg_trust :: real
  m5_corrupted_pct :: real
  m5_scarcity :: real
  m5_polarization :: real

datatype result_v5 =
  Collapsed_v5 int string "metrics_v5 list"
| Completed_v5 "metrics_v5 option" "metrics_v5 list"

definition scarcity_at :: "params_v5 \<Rightarrow> int \<Rightarrow> real" where
  "scarcity_at p gen = min 0.8 (p5_base_scarcity p + p5_scarcity_growth p * real_of_int gen)"

definition polarization_at :: "params_v5 \<Rightarrow> int \<Rightarrow> real" where
  "polarization_at p gen =
     min 0.8 (p5_base_polarization p + p5_polarization_growth p * real_of_int gen)"

definition ai_entry_v5 ::
  "params_v5 \<Rightarrow> int \<Rightarrow> Whole_v5 list \<times> int \<Rightarrow> Whole_v5 list \<times> int" where
  "ai_entry_v5 p gen st =
     (case p5_ai_type p of
        None \<Rightarrow> st
      | Some t \<Rightarrow>
          if gen = p5_ai_entry_gen p \<and> t \<noteq> [] \<and> p5_n_ai p > 0
          then add_agents (\<lambda>i. create_ai_v5 i t) (nat (p5_n_ai p)) st
          else st)"

definition choose_partners_v5 :: "Whole_v5 list \<Rightarrow> nat \<Rightarrow> rng \<Rightarrow> nat list \<times> rng" where
  "choose_partners_v5 population i g =
     (let w = population ! i;
          others = filter (\<lambda>j. whole_id (population ! j) \<noteq> whole_id w) [0..<length population]
      in if isolated w \<and> \<not> is_ai w then
           (let same_bubble = filter (\<lambda>j. isolated (population ! j)) others;
                cross_bubble = filter (\<lambda>j. \<not> isolated (population ! j)) others
            in maybe_outside 0.2 cross_bubble (sample_upto 4 same_bubble g))
         else sample_upto 5 others g)"

fun meet_partners_v5 ::
  "real \<Rightarrow> real \<Rightarrow> real \<Rightarrow> nat \<Rightarrow> nat list \<Rightarrow> Whole_v5 list \<times> rng \<Rightarrow>
   (Whole_v5 list \<times> rng) option" where
  "meet_partners_v5 noise scarcity polarization i [] st = Some st"
| "meet_partners_v5 noise scarcity polarization i (j # js) (population, g) =
     (case interact_v5 (population ! i) (population ! j) noise scarcity polarization g of
        None \<Rightarrow> None
      | Some (w1, w2, g') \<Rightarrow>
          meet_partners_v5 noise scarcity polarization i js (population[i := w1, j := w2], g'))"

fun interactions_v5 ::
  "real \<Rightarrow> real \<Rightarrow> real \<Rightarrow> nat list \<Rightarrow> Whole_v5 list \<times> rng \<Rightarrow>
   (Whole_v5 list \<times> rng) option" where
  "interactions_v5 noise scarcity polarization [] st = Some st"
| "interactions_v5 noise scarcity polarization (i # rest) (population, g) =
     (case choose_partners_v5 population i g of
        (partners, g1) \<Rightarrow>
          (case meet_partners_v5 noise scarcity polarization i partners (population, g1) of
             None \<Rightarrow> None
           | Some st \<Rightarrow> interactions_v5 noise scarcity polarization rest st))"

definition deaths_v5 :: "Whole_v5 list \<Rightarrow> Whole_v5 list" where
  "deaths_v5 population =
     (let humans = filter (\<lambda>w. \<not> is_ai w) population
      in if length humans > 100 then
           (let weakest = take 5 (sort_key s_star humans)
            in filter (\<lambda>w. \<not> list_ex (same_agent w) weakest) population)
         else population)"

text \<open>\<^verbatim>\<open>sum(1 for w in humans if flag(w)) / len(humans) if humans else 0\<close>\<close>

definition share :: "('w \<Rightarrow> bool) \<Rightarrow> 'w list \<Rightarrow> real" where
  "share flag humans =
     (if humans \<noteq> [] then real (length (filter flag humans)) / real (length humans) else 0)"

definition mean :: "('w \<Rightarrow> real) \<Rightarrow> 'w list \<Rightarrow> real" where
  "mean f humans =
     (if humans \<noteq> [] then sum_list (map f humans) / real (length humans) else 0)"

definition metrics_of_v5 :: "params_v5 \<Rightarrow> int \<Rightarrow> Whole_v5 list \<Rightarrow> metrics_v5" where
  "metrics_of_v5 p gen population =
     (let humans = filter (\<lambda>w. \<not> is_ai w) population;
          human_coop = sum_list (map cooperations humans);
          human_def = sum_list (map defections humans)
      in \<lparr>m5_gen = gen,
          m5_humans = length humans,
          m5_ais = length (filter is_ai population),
          m5_human_s_star = mean s_star humans,
          m5_human_coop_ratio =
            (if human_coop + human_def > 0
             then real_of_int human_coop / real_of_int (human_coop + human_def) else 0),
          m5_crucible_pct = share crucible_tested humans,
          m5_taught_by_ai_pct = share taught_by_ai humans,
          m5_isolated_pct = share isolated humans,
          m5_avg_trust = mean trust_in_institutions humans,
          m5_corrupted_pct = share corrupted humans,
          m5_scarcity = scarcity_at p gen,
          m5_polarization = polarization_at p gen\<rparr>)"

fun births_v5 ::
  "int \<Rightarrow> real \<Rightarrow> nat \<Rightarrow> Whole_v5 list \<Rightarrow> Whole_v5 list \<times> int \<times> rng \<Rightarrow>
   Whole_v5 list \<times> int \<times> rng" where
  "births_v5 gen isolated_pct n_humans [] st = st"
| "births_v5 gen isolated_pct n_humans (parent # rest) (population, next_id, g) =
     (case random_random g of (u, g1) \<Rightarrow>
        if u < s_star parent * 0.3 \<and> n_humans < 200 then
          (case create_human_v5 next_id gen (max 0.1 (trust_in_institutions parent - 0.05)) g1 of
             (child, g2) \<Rightarrow>
           case inherit_scars 0.4 0.5 (last_n 10 (scars parent)) g2 of (inherited, g3) \<Rightarrow>
           case random_random g3 of (ui, g4) \<Rightarrow>
             births_v5 gen isolated_pct n_humans rest
               (population @
                  [child\<lparr>scars := scars child @ inherited,
                         isolated := (if ui < isolated_pct + 0.1 then True else isolated child)\<rparr>],
                next_id + 1, g4))
        else births_v5 gen isolated_pct n_humans rest (population, next_id, g1))"

definition generation_v5 ::
  "params_v5 \<Rightarrow> int \<Rightarrow> Whole_v5 list \<times> int \<times> rng \<Rightarrow> (Whole_v5, metrics_v5) outcome option" where
  "generation_v5 p gen st =
     (case st of (population0, next_id0, g0) \<Rightarrow>
      case ai_entry_v5 p gen (population0, next_id0) of (entered, next_id1) \<Rightarrow>
      case interactions_v5 (p5_base_noise p) (scarcity_at p gen) (polarization_at p gen)
             [0..<length entered] (entered, g0) of
        None \<Rightarrow> None
      | Some (met, g1) \<Rightarrow>
          (let population = filter is_viable (deaths_v5 met);
               humans = filter (\<lambda>w. \<not> is_ai w) population
           in if length humans < 5 then Some (Collapsed (Some ''human_extinction'') population g1)
              else if length population < 2 then Some (Collapsed (Some ''total'') population g1)
              else
                (let m = metrics_of_v5 p gen population;
                     viable_humans = filter (\<lambda>w. s_star w > 0.5 \<and> \<not> corrupted w) humans
                 in case births_v5 gen (m5_isolated_pct m) (length humans) (take 10 viable_humans)
                           (population, next_id1, g1) of
                      (population', next_id2, g2) \<Rightarrow>
                        Some (Survived population' next_id2 g2 m))))"

text \<open>
  The loop of \<^verbatim>\<open>run_scenario\<close> (lines 410-523), from the population the builder made.
\<close>

fun generations_v5 ::
  "params_v5 \<Rightarrow> int list \<Rightarrow> Whole_v5 list \<times> int \<times> rng \<Rightarrow> metrics_v5 list \<Rightarrow>
   (result_v5 \<times> Whole_v5 list \<times> rng) option" where
  "generations_v5 p [] (population, next_id, g) history =
     Some (Completed_v5 (if history = [] then None else Some (last history)) history,
           population, g)"
| "generations_v5 p (gen # gens) (population, next_id, g) history =
     (case generation_v5 p gen (population, next_id, g) of
        None \<Rightarrow> None
      | Some (Collapsed cause population' g') \<Rightarrow>
          Some (Collapsed_v5 gen (case cause of None \<Rightarrow> [] | Some c \<Rightarrow> c) history,
                population', g')
      | Some (Survived population' next_id' g' m) \<Rightarrow>
          generations_v5 p gens (population', next_id', g') (history @ [m]))"

definition scenario_loop ::
  "params_v5 \<Rightarrow> Whole_v5 list \<Rightarrow> int \<Rightarrow> rng \<Rightarrow> (result_v5 \<times> Whole_v5 list \<times> rng) option" where
  "scenario_loop p population next_id g =
     generations_v5 p [0..p5_generations p - 1] (population, next_id, g) []"

section \<open>The builders\<close>

subsection \<open>v7: a collapsed and a declining civilization\<close>

fun build_collapsed_loop ::
  "nat \<Rightarrow> Whole_v7 list \<times> int \<times> rng \<Rightarrow> Whole_v7 list \<times> int \<times> rng" where
  "build_collapsed_loop 0 st = st"
| "build_collapsed_loop (Suc n) (population, next_id, g) =
     (case random_random g of (ui, g1) \<Rightarrow>
      case create_human_v7 next_id 0.2 (ui < 0.6) g1 of (w, g2) \<Rightarrow>
      case random_uniform 0.15 0.4 g2 of (s, g3) \<Rightarrow>
      case random_random g3 of (ut, g4) \<Rightarrow>
        build_collapsed_loop n
          (population @
             [w\<lparr>s_star := s,
                scars := (if ut < 0.1
                          then scars w @ [new_scar ''defect'' ''defect'' ''survived'' 0.5 ''trauma'']
                          else scars w)\<rparr>],
           next_id + 1, g4))"

definition build_collapsed_civilization ::
  "int \<Rightarrow> int \<Rightarrow> rng \<Rightarrow> Whole_v7 list \<times> int \<times> rng" where
  "build_collapsed_civilization n_survivors next_id_start g =
     build_collapsed_loop (nat n_survivors) ([], next_id_start, g)"

text \<open>The \<^verbatim>\<open>n_scars\<close> random scars of a declining agent; each takes four draws.\<close>

fun random_scars :: "nat \<Rightarrow> rng \<Rightarrow> Scar list \<times> rng" where
  "random_scars 0 g = ([], g)"
| "random_scars (Suc n) g =
     (case randbelow 2 g of (k1, g1) \<Rightarrow>
      case randbelow 2 g1 of (k2, g2) \<Rightarrow>
      case randbelow 3 g2 of (k3, g3) \<Rightarrow>
      case random_uniform 0.1 0.4 g3 of (wt, g4) \<Rightarrow>
      case random_scars n g4 of (rest, g5) \<Rightarrow>
        (new_scar ([''cooperate'', ''defect''] ! k1) ([''cooperate'', ''defect''] ! k2)
           ([''thrived'', ''survived'', ''suffered''] ! k3) wt ''inherited'' # rest, g5))"

text \<open>
  \<^verbatim>\<open>random.gauss\<close> is the library's; the builder takes it as the parameter \<open>gauss\<close>, so that
  what is proved of the builder holds whatever value a call returns.
  \<^verbatim>\<open>random.randint(0, 5)\<close> is \<^verbatim>\<open>randbelow(6)\<close>.
\<close>

fun build_declining_loop ::
  "(real \<Rightarrow> real \<Rightarrow> rng \<Rightarrow> real \<times> rng) \<Rightarrow> nat \<Rightarrow> Whole_v7 list \<times> int \<times> rng \<Rightarrow>
   Whole_v7 list \<times> int \<times> rng" where
  "build_declining_loop gauss 0 st = st"
| "build_declining_loop gauss (Suc n) (population, next_id, g) =
     (case gauss 0.35 0.15 g of (t, g1) \<Rightarrow>
      case random_random g1 of (ui, g2) \<Rightarrow>
      case create_human_v7 next_id (max 0.1 (min 0.8 t)) (ui < 0.4) g2 of (w, g3) \<Rightarrow>
      case randbelow 6 g3 of (n_scars, g4) \<Rightarrow>
      case random_scars n_scars g4 of (ss, g5) \<Rightarrow>
      case random_random g5 of (uc, g6) \<Rightarrow>
        build_declining_loop gauss n
          (population @
             [w\<lparr>scars := scars w @ ss,
                corrupted := (if uc < 0.05 then True else corrupted w)\<rparr>],
           next_id + 1, g6))"

definition build_declining_civilization ::
  "(real \<Rightarrow> real \<Rightarrow> rng \<Rightarrow> real \<times> rng) \<Rightarrow> int \<Rightarrow> int \<Rightarrow> rng \<Rightarrow>
   Whole_v7 list \<times> int \<times> rng" where
  "build_declining_civilization gauss n_humans next_id_start g =
     build_declining_loop gauss (nat n_humans) ([], next_id_start, g)"

subsection \<open>v5: the crucible and the current civilization\<close>

text \<open>
  \<^verbatim>\<open>run_1v1_crucible(w1, w2)\<close> with \<open>rounds\<close> rounds left: the survivors. \<open>None\<close> is the
  \<^verbatim>\<open>KeyError\<close> that \<^verbatim>\<open>learn\<close> could raise.
\<close>

fun run_1v1_crucible ::
  "nat \<Rightarrow> Whole_v5 \<Rightarrow> Whole_v5 \<Rightarrow> rng \<Rightarrow> (Whole_v5 list \<times> rng) option" where
  "run_1v1_crucible 0 w1 w2 g =
     Some ([w1\<lparr>crucible_tested := True\<rparr>, w2\<lparr>crucible_tested := True\<rparr>], g)"
| "run_1v1_crucible (Suc rounds) w1 w2 g =
     (case interact_v5 w1 w2 0 0 0 g of
        None \<Rightarrow> None
      | Some (x1, x2, g') \<Rightarrow>
          if \<not> is_viable x1 \<and> \<not> is_viable x2 then Some ([], g')
          else if \<not> is_viable x1 then Some ([x2\<lparr>crucible_tested := True\<rparr>], g')
          else if \<not> is_viable x2 then Some ([x1\<lparr>crucible_tested := True\<rparr>], g')
          else run_1v1_crucible rounds x1 x2 g')"

fun found ::
  "nat \<Rightarrow> Whole_v5 list \<times> int \<times> rng \<Rightarrow> (Whole_v5 list \<times> int \<times> rng) option" where
  "found 0 st = Some st"
| "found (Suc n_pairs) (founders, next_id, g) =
     (case run_1v1_crucible 50
             ((new_whole_v5 next_id)\<lparr>trust_in_institutions := 0.7\<rparr>)
             ((new_whole_v5 (next_id + 1))\<lparr>trust_in_institutions := 0.7\<rparr>) g of
        None \<Rightarrow> None
      | Some (survivors, g') \<Rightarrow> found n_pairs (founders @ survivors, next_id + 2, g'))"

text \<open>Generation 1: thirty children of tested parents, when there is anyone at all.\<close>

fun first_generation ::
  "nat \<Rightarrow> Whole_v5 list \<times> int \<times> rng \<Rightarrow> Whole_v5 list \<times> int \<times> rng" where
  "first_generation 0 st = st"
| "first_generation (Suc n) (population, next_id, g) =
     (if population \<noteq> [] then
        (let tested = filter crucible_tested population;
             candidates = (if tested \<noteq> [] then tested else population)
         in case randbelow (length candidates) g of (k, g1) \<Rightarrow>
            case create_human_v5 next_id 1 0.6 g1 of (child, g2) \<Rightarrow>
            case inherit_scars 0.8 0.8 (last_n 20 (scars (candidates ! k))) g2 of
              (inherited, g3) \<Rightarrow>
                first_generation n
                  (population @ [child\<lparr>scars := scars child @ inherited\<rparr>], next_id + 1, g3))
      else first_generation n (population, next_id, g))"

text \<open>
  Generations 2 and 3: \<open>isolation\<close> is the chance of a filter bubble, which generation 2
  does not draw for. \<open>None\<close> is the \<^verbatim>\<open>IndexError\<close> of \<^verbatim>\<open>random.choice\<close> on an empty
  population.
\<close>

fun later_generation ::
  "int \<Rightarrow> real \<Rightarrow> nat \<Rightarrow> real \<Rightarrow> real option \<Rightarrow> nat \<Rightarrow> Whole_v5 list \<times> int \<times> rng \<Rightarrow>
   (Whole_v5 list \<times> int \<times> rng) option" where
  "later_generation gen trust recent_scars rate isolation 0 st = Some st"
| "later_generation gen trust recent_scars rate isolation (Suc n) (population, next_id, g) =
     (if population = [] then None
      else
        (case randbelow (length population) g of (k, g1) \<Rightarrow>
         case create_human_v5 next_id gen trust g1 of (child, g2) \<Rightarrow>
         case inherit_scars rate rate (last_n recent_scars (scars (population ! k))) g2 of
           (inherited, g3) \<Rightarrow>
         case (case isolation of
                 None \<Rightarrow> (False, g3)
               | Some chance \<Rightarrow> (case random_random g3 of (ui, g4) \<Rightarrow> (ui < chance, g4))) of
           (bubble, g4) \<Rightarrow>
             later_generation gen trust recent_scars rate isolation n
               (population @
                  [child\<lparr>scars := scars child @ inherited,
                         isolated := (if bubble then True else isolated child)\<rparr>],
                next_id + 1, g4)))"

text \<open>Generation 4: one draw decides whether the last three scars are all inherited.\<close>

fun fourth_generation ::
  "nat \<Rightarrow> Whole_v5 list \<times> int \<times> rng \<Rightarrow> (Whole_v5 list \<times> int \<times> rng) option" where
  "fourth_generation 0 st = Some st"
| "fourth_generation (Suc n) (population, next_id, g) =
     (if population = [] then None
      else
        (case randbelow (length population) g of (k, g1) \<Rightarrow>
         case create_human_v5 next_id 4 0.25 g1 of (child, g2) \<Rightarrow>
         case random_random g2 of (us, g3) \<Rightarrow>
         case random_random g3 of (ui, g4) \<Rightarrow>
           fourth_generation n
             (population @
                [child\<lparr>scars :=
                          (if us < 0.1
                           then scars child @
                             map (\<lambda>scar. new_scar (other_strategy scar) (my_response scar)
                                    (outcome scar) (weight scar * 0.2) ''inherited'')
                               (last_n 3 (scars (population ! k)))
                           else scars child),
                       isolated := (if ui < 0.5 then True else isolated child)\<rparr>],
              next_id + 1, g4)))"

text \<open>
  The founders that age out, and the elites that are corrupted. \<open>None\<close> is the
  \<^verbatim>\<open>ValueError\<close> of \<^verbatim>\<open>random.sample\<close>: fewer than five tested founders are left, or fewer
  than five elites.
\<close>

definition age_out :: "Whole_v5 list \<Rightarrow> rng \<Rightarrow> (Whole_v5 list \<times> rng) option" where
  "age_out population g =
     (let founders_remaining = filter crucible_tested population;
          k = min (int (length founders_remaining) - 5) (int (length founders_remaining) div 2)
      in if k < 0 then None
         else
           (case sample_pool founders_remaining (nat k) g of (to_remove, g') \<Rightarrow>
              Some (filter (\<lambda>w. \<not> list_ex (same_agent w) to_remove) population, g')))"

definition corrupt_elites :: "Whole_v5 list \<Rightarrow> rng \<Rightarrow> (Whole_v5 list \<times> rng) option" where
  "corrupt_elites population g =
     (let elites = take 20 (sort_key (\<lambda>i. - s_star (population ! i)) [0..<length population])
      in if length elites < 5 then None
         else
           (case sample_pool elites 5 g of (chosen, g') \<Rightarrow>
              Some (fold (\<lambda>i pop. pop[i := (pop ! i)\<lparr>corrupted := True\<rparr>]) chosen population,
                    g')))"

definition build_current_civilization ::
  "int \<Rightarrow> rng \<Rightarrow> (Whole_v5 list \<times> int \<times> rng) option" where
  "build_current_civilization n_pairs g =
     do {
       founded \<leftarrow> found (nat n_pairs) ([], 0, g);
       second \<leftarrow> later_generation 2 0.5 10 0.5 None 40 (first_generation 30 founded);
       third \<leftarrow> later_generation 3 0.35 5 0.3 (Some 0.3) 50 second;
       (population, next_id, g4) \<leftarrow> fourth_generation 60 third;
       (remaining, g5) \<leftarrow> age_out population g4;
       (corrupted_some, g6) \<leftarrow> corrupt_elites remaining g5;
       Some (corrupted_some, next_id, g6)
     }"

definition run_scenario ::
  "params_v5 \<Rightarrow> rng \<Rightarrow> (result_v5 \<times> Whole_v5 list \<times> rng) option" where
  "run_scenario p g =
     (case build_current_civilization 25 g of
        None \<Rightarrow> None
      | Some (population, next_id, g') \<Rightarrow> scenario_loop p population next_id g')"

section \<open>Invariants of an agent\<close>

text \<open>Coherence within \<open>[0.01, 1]\<close> and trust within \<open>[0, 1]\<close>.\<close>

definition in_range :: "'a Whole_scheme \<Rightarrow> bool" where
  "in_range w \<longleftrightarrow>
     0.01 \<le> s_star w \<and> s_star w \<le> 1 \<and>
     0 \<le> trust_in_institutions w \<and> trust_in_institutions w \<le> 1"

text \<open>The population a generation leaves.\<close>

definition outcome_population :: "('w, 'm) outcome \<Rightarrow> 'w list" where
  "outcome_population out =
     (case out of Collapsed cause population g \<Rightarrow> population
      | Survived population next_id g m \<Rightarrow> population)"

text \<open>The population a driver leaves, when it returns.\<close>

definition final_population :: "('r \<times> 'w list \<times> rng) option \<Rightarrow> 'w list" where
  "final_population r = (case r of None \<Rightarrow> [] | Some (res, final, g) \<Rightarrow> final)"

text \<open>The three counters agree: every interaction was a cooperation or a defection.\<close>

definition counters_consistent :: "'a Whole_scheme \<Rightarrow> bool" where
  "counters_consistent w \<longleftrightarrow> interactions w = cooperations w + defections w"

text \<open>
  From \<open>w\<close> to \<open>w'\<close> one interaction was counted: the interaction counter and exactly one
  of the other two went up by one.
\<close>

definition counted_once :: "'a Whole_scheme \<Rightarrow> 'a Whole_scheme \<Rightarrow> bool" where
  "counted_once w w' \<longleftrightarrow>
     interactions w' = interactions w + 1 \<and>
     (cooperations w' = cooperations w + 1 \<and> defections w' = defections w \<or>
      cooperations w' = cooperations w \<and> defections w' = defections w + 1)"

text \<open>The three counters are those of the other agent.\<close>

definition same_counters :: "'a Whole_scheme \<Rightarrow> 'b Whole_scheme \<Rightarrow> bool" where
  "same_counters w w' \<longleftrightarrow>
     interactions w' = interactions w \<and> cooperations w' = cooperations w \<and>
     defections w' = defections w"

text \<open>
  An agent as the builders and the births make it: it has never interacted, and it has at
  most the twenty scars the first generation can inherit.
\<close>

definition newborn :: "'a Whole_scheme \<Rightarrow> bool" where
  "newborn w \<longleftrightarrow>
     interactions w = 0 \<and> cooperations w = 0 \<and> defections w = 0 \<and> length (scars w) \<le> 20"





section \<open>Agents for the examples\<close>

text \<open>
  A human after a hundred rounds of mutual cooperation without scarcity: a hundred scars,
  a hundred cooperations, full coherence, and never taught.
\<close>

definition veteran_v5 :: Whole_v5 where
  "veteran_v5 = (new_whole_v5 1)\<lparr>
     s_star := 1, interactions := 100, cooperations := 100, recent_defections := Some 0,
     scars := replicate 100
       (new_scar ''cooperate'' ''cooperate'' ''thrived'' 0.8 ''experience'')\<rparr>"

definition veteran_v7 :: Whole_v7 where
  "veteran_v7 = (new_whole_v7 1)\<lparr>
     s_star := 1, interactions := 100, cooperations := 100, recent_defections := Some 0,
     scars := replicate 100
       (new_scar ''cooperate'' ''cooperate'' ''thrived'' 0.8 ''experience'')\<rparr>"


section \<open>Evaluation and frame lemmas\<close>

lemmas creators = new_whole_v5_def new_whole_v7_def create_ai_def create_ai_v5_def create_ai_v7_def
  create_awakened_human_def

lemma outcome_weight_simps [simp]:
  "outcome_weight ''thrived'' = Some 0.8"
  "outcome_weight ''survived'' = Some 0.5"
  "outcome_weight ''suffered'' = Some 0.2"
  by (simp_all add: outcome_weight_def)

lemma learn_known:
  "outcome_weight outc = Some wt \<Longrightarrow>
   learn w a b outc src =
     Some (w\<lparr>scars := (if length (scars w) + 1 > 100
                         then last_n 100 (scars w @ [new_scar b a outc wt src])
                         else scars w @ [new_scar b a outc wt src])\<rparr>)"
  by (simp add: learn_def Let_def)

lemma payoff_v5_outcomes:
  "payoff_v5 a1 a2 sc pen w1 w2 = (d1, d2, o1, o2, x1, x2) \<Longrightarrow>
   o1 \<in> {''thrived'', ''survived'', ''suffered''} \<and> o2 \<in> {''thrived'', ''survived'', ''suffered''}"
  by (auto simp: payoff_v5_def Let_def split: if_splits)

lemma payoff_v7_outcomes:
  "payoff_v7 a1 a2 sc pen w1 w2 = (d1, d2, o1, o2, x1, x2) \<Longrightarrow>
   o1 \<in> {''thrived'', ''survived'', ''suffered''} \<and> o2 \<in> {''thrived'', ''survived'', ''suffered''}"
  by (auto simp: payoff_v7_def Let_def split: if_splits)

lemma random_random_zeros [simp]: "random_random (sconst 0) = (0, sconst 0)"
  by (simp add: random_random_def)

lemma human_cooperates_on_zeros_v5:
  "decide_v5 (init_recent (new_whole_v5 i)) other 0 (sconst 0) = (''cooperate'', sconst 0)"
  by (simp add: decide_v5_def decide_human_def init_recent_def new_whole_v5_def last_n_def
      cooperation_tendency_v5_def scar_tendency_def)

lemma human_cooperates_on_zeros_v7:
  "decide_v7 (init_recent (new_whole_v7 i)) other 0 (sconst 0) = (''cooperate'', sconst 0)"
  by (simp add: decide_v7_def decide_human_def init_recent_def new_whole_v7_def last_n_def
      cooperation_tendency_v7_def scar_tendency_def)

lemma no_penalty_unless_isolated:
  "\<not> isolated w1 \<Longrightarrow> polarization_draw w1 w2 p g = (0, g)"
  by (simp add: polarization_draw_def)

section \<open>The payoff of mutual cooperation\<close>

lemma receive_teaching_v7_s_star:
  "receive_teaching_v7 s t g = (s', g') \<Longrightarrow> s_star s' = s_star s"
  by (auto simp: receive_teaching_v7_def Let_def split: if_splits prod.splits)

lemma teach_v7_s_star:
  "teach_v7 a1 a2 s1 s2 g = (t1, t2, g') \<Longrightarrow> s_star t1 = s_star s1 \<and> s_star t2 = s_star s2"
  by (auto simp: teach_v7_def split: if_splits prod.splits dest: receive_teaching_v7_s_star)

lemma teach_v5_s_star:
  "teach_v5 a1 a2 s1 s2 = (t1, t2) \<Longrightarrow> s_star t1 = s_star s1 \<and> s_star t2 = s_star s2"
  by (auto simp: teach_v5_def receive_teaching_v5_def Let_def split: if_splits)

lemma init_recent_s_star [simp]: "s_star (init_recent w) = s_star w"
  by (simp add: init_recent_def split: option.splits)

lemma settle_cc:
  "settle ''cooperate'' ''cooperate'' (d1, d2, ''thrived'', ''thrived'', x1, x2) = Some (s1, s2) \<Longrightarrow>
   s_star s1 = max 0.01 (min 1 (s_star x1 + d1)) \<and> s_star s2 = max 0.01 (min 1 (s_star x2 + d2))"
  by (auto simp: settle_def learn_def update_coherence_def Let_def split: if_splits)

text \<open>
  Claim C5. When both agents choose to cooperate, scarcity is 0 and no polarization penalty
  is applied, the payoff table gives each participant the coherence delta 0.15, and
  \<^verbatim>\<open>interact\<close> leaves each of them at its old coherence plus 0.15, clamped into
  \<open>[0.01, 1]\<close>. Both versions.
\<close>

theorem mutual_cooperation_delta:
  "payoff_deltas (payoff_v5 ''cooperate'' ''cooperate'' 0 0 x5 y5) = (0.15, 0.15) \<and>
   payoff_deltas (payoff_v7 ''cooperate'' ''cooperate'' 0 0 x7 y7) = (0.15, 0.15) \<and>
   (decide_v5 (init_recent w1) (init_recent w2) noise g = (''cooperate'', g1) \<and>
    decide_v5 (init_recent w2) (init_recent w1) noise g1 = (''cooperate'', g2) \<and>
    polarization_draw (init_recent w1) (init_recent w2) polarization g2 = (0, g3) \<longrightarrow>
    (\<exists>w1' w2'. interact_v5 w1 w2 noise 0 polarization g = Some (w1', w2', g3) \<and>
       s_star w1' = max 0.01 (min 1 (s_star w1 + 0.15)) \<and>
       s_star w2' = max 0.01 (min 1 (s_star w2 + 0.15)))) \<and>
   (decide_v7 (init_recent v1) (init_recent v2) noise h = (''cooperate'', h1) \<and>
    decide_v7 (init_recent v2) (init_recent v1) noise h1 = (''cooperate'', h2) \<and>
    polarization_draw (init_recent v1) (init_recent v2) polarization h2 = (0, h3) \<longrightarrow>
    (\<exists>v1' v2' h'. interact_v7 v1 v2 noise 0 polarization h = Some (v1', v2', h') \<and>
       s_star v1' = max 0.01 (min 1 (s_star v1 + 0.15)) \<and>
       s_star v2' = max 0.01 (min 1 (s_star v2 + 0.15))))"
proof (intro conjI impI)
  show "payoff_deltas (payoff_v5 ''cooperate'' ''cooperate'' 0 0 x5 y5) = (0.15, 0.15)"
    by (simp add: payoff_deltas_def payoff_v5_def)
  show "payoff_deltas (payoff_v7 ''cooperate'' ''cooperate'' 0 0 x7 y7) = (0.15, 0.15)"
    by (simp add: payoff_deltas_def payoff_v7_def)
next
  assume h: "decide_v5 (init_recent w1) (init_recent w2) noise g = (''cooperate'', g1) \<and>
    decide_v5 (init_recent w2) (init_recent w1) noise g1 = (''cooperate'', g2) \<and>
    polarization_draw (init_recent w1) (init_recent w2) polarization g2 = (0, g3)"
  let ?p = "payoff_v5 ''cooperate'' ''cooperate'' 0 0 (init_recent w1) (init_recent w2)"
  obtain s1 s2 where s: "settle ''cooperate'' ''cooperate'' ?p = Some (s1, s2)"
    by (simp add: settle_def payoff_v5_def learn_def Let_def)
  obtain t1 t2 where t: "teach_v5 ''cooperate'' ''cooperate'' s1 s2 = (t1, t2)"
    by (cases "teach_v5 ''cooperate'' ''cooperate'' s1 s2")
  have i: "interact_v5 w1 w2 noise 0 polarization g = Some (t1, t2, g3)"
    using h s t by (simp add: interact_v5_def Let_def)
  have "s_star s1 = max 0.01 (min 1 (s_star w1 + 0.15)) \<and>
        s_star s2 = max 0.01 (min 1 (s_star w2 + 0.15))"
    using s by (auto simp: settle_def payoff_v5_def learn_def update_coherence_def Let_def
        recent_down_def cooperated_def split: if_splits)
  with teach_v5_s_star [OF t] i
  show "\<exists>w1' w2'. interact_v5 w1 w2 noise 0 polarization g = Some (w1', w2', g3) \<and>
       s_star w1' = max 0.01 (min 1 (s_star w1 + 0.15)) \<and>
       s_star w2' = max 0.01 (min 1 (s_star w2 + 0.15))"
    by simp
next
  assume h: "decide_v7 (init_recent v1) (init_recent v2) noise h = (''cooperate'', h1) \<and>
    decide_v7 (init_recent v2) (init_recent v1) noise h1 = (''cooperate'', h2) \<and>
    polarization_draw (init_recent v1) (init_recent v2) polarization h2 = (0, h3)"
  let ?p = "payoff_v7 ''cooperate'' ''cooperate'' 0 0 (init_recent v1) (init_recent v2)"
  obtain s1 s2 where s: "settle ''cooperate'' ''cooperate'' ?p = Some (s1, s2)"
    by (simp add: settle_def payoff_v7_def learn_def Let_def)
  obtain t1 t2 h' where t: "teach_v7 ''cooperate'' ''cooperate'' s1 s2 h3 = (t1, t2, h')"
    by (cases "teach_v7 ''cooperate'' ''cooperate'' s1 s2 h3") auto
  have i: "interact_v7 v1 v2 noise 0 polarization h = Some (t1, t2, h')"
    using h s t by (simp add: interact_v7_def Let_def)
  have "s_star s1 = max 0.01 (min 1 (s_star v1 + 0.15)) \<and>
        s_star s2 = max 0.01 (min 1 (s_star v2 + 0.15))"
    using s by (auto simp: settle_def payoff_v7_def learn_def update_coherence_def Let_def
        recent_down_def cooperated_def split: if_splits)
  with teach_v7_s_star [OF t] i
  show "\<exists>v1' v2' h'. interact_v7 v1 v2 noise 0 polarization h = Some (v1', v2', h') \<and>
       s_star v1' = max 0.01 (min 1 (s_star v1 + 0.15)) \<and>
       s_star v2' = max 0.01 (min 1 (s_star v2 + 0.15))"
    by auto
qed


theorem mutual_cooperation_delta_witness:
  "(\<exists>w1' w2'. interact_v5 (new_whole_v5 0) (new_whole_v5 1) 0 0 0 (sconst 0)
        = Some (w1', w2', sconst 0) \<and> s_star w1' = 0.65 \<and> s_star w2' = 0.65) \<and>
   (\<exists>v1' v2' h'. interact_v7 (new_whole_v7 0) (new_whole_v7 1) 0 0 0 (sconst 0)
        = Some (v1', v2', h') \<and> s_star v1' = 0.65 \<and> s_star v2' = 0.65)"
proof -
  have p5: "polarization_draw (init_recent (new_whole_v5 0)) (init_recent (new_whole_v5 1)) 0
      (sconst 0) = (0, sconst 0)"
    by (rule no_penalty_unless_isolated) (simp add: init_recent_def new_whole_v5_def)
  have p7: "polarization_draw (init_recent (new_whole_v7 0)) (init_recent (new_whole_v7 1)) 0
      (sconst 0) = (0, sconst 0)"
    by (rule no_penalty_unless_isolated) (simp add: init_recent_def new_whole_v7_def)
  have s5: "s_star (new_whole_v5 i) = 0.5" and s7: "s_star (new_whole_v7 i) = 0.5" for i
    by (simp_all add: new_whole_v5_def new_whole_v7_def)
  show ?thesis
    using mutual_cooperation_delta [of undefined undefined undefined undefined
        "new_whole_v5 0" "new_whole_v5 1" 0 "sconst 0" "sconst 0" "sconst 0" 0 "sconst 0"
        "new_whole_v7 0" "new_whole_v7 1" "sconst 0" "sconst 0" "sconst 0" "sconst 0"]
      p5 p7
    by (simp add: s5 s7 human_cooperates_on_zeros_v5 human_cooperates_on_zeros_v7) blast
qed

section \<open>The derived cooperation tendency\<close>

text \<open>
  Claim C8, as the code has it. The cases are tried in the order corrupted, AI type,
  awakened, and the first that applies gives the value: 0.1 for a corrupted agent; for an
  agent that is not corrupted, 0.05 for an aggressive AI and 0.95 for a coherent AI; 0.98
  for a bridge AI in v5 but 0.95 in v7, where coherent and bridge share one test; and 0.9
  for an awakened human, a flag only v7 has.
\<close>

theorem tendency_table:
  "(corrupted w5 \<longrightarrow> cooperation_tendency_v5 w5 = 0.1) \<and>
   (\<not> corrupted w5 \<and> is_ai w5 \<and> ai_type w5 = ''aggressive'' \<longrightarrow>
      cooperation_tendency_v5 w5 = 0.05) \<and>
   (\<not> corrupted w5 \<and> is_ai w5 \<and> ai_type w5 = ''coherent'' \<longrightarrow>
      cooperation_tendency_v5 w5 = 0.95) \<and>
   (\<not> corrupted w5 \<and> is_ai w5 \<and> ai_type w5 = ''bridge'' \<longrightarrow>
      cooperation_tendency_v5 w5 = 0.98) \<and>
   (corrupted w7 \<longrightarrow> cooperation_tendency_v7 w7 = 0.1) \<and>
   (\<not> corrupted w7 \<and> is_ai w7 \<and> ai_type w7 = ''aggressive'' \<longrightarrow>
      cooperation_tendency_v7 w7 = 0.05) \<and>
   (\<not> corrupted w7 \<and> is_ai w7 \<and> ai_type w7 = ''coherent'' \<longrightarrow>
      cooperation_tendency_v7 w7 = 0.95) \<and>
   (\<not> corrupted w7 \<and> is_ai w7 \<and> ai_type w7 = ''bridge'' \<longrightarrow>
      cooperation_tendency_v7 w7 = 0.95) \<and>
   (\<not> corrupted w7 \<and> \<not> is_ai w7 \<and> awakened w7 \<longrightarrow> cooperation_tendency_v7 w7 = 0.9)"
  by (simp add: cooperation_tendency_v5_def cooperation_tendency_v7_def)

theorem tendency_table_witness:
  "cooperation_tendency_v5 ((new_whole_v5 0)\<lparr>corrupted := True\<rparr>) = 0.1 \<and>
   cooperation_tendency_v5 (create_ai_v5 1 ''aggressive'') = 0.05 \<and>
   cooperation_tendency_v5 (create_ai_v5 2 ''coherent'') = 0.95 \<and>
   cooperation_tendency_v5 (create_ai_v5 3 ''bridge'') = 0.98 \<and>
   cooperation_tendency_v7 ((new_whole_v7 0)\<lparr>corrupted := True\<rparr>) = 0.1 \<and>
   cooperation_tendency_v7 (create_ai_v7 1 ''aggressive'') = 0.05 \<and>
   cooperation_tendency_v7 (create_ai_v7 2 ''coherent'') = 0.95 \<and>
   cooperation_tendency_v7 (create_ai_v7 3 ''bridge'') = 0.95 \<and>
   cooperation_tendency_v7 (create_awakened_human 4) = 0.9"
  using tendency_table [of "(new_whole_v5 0)\<lparr>corrupted := True\<rparr>"
      "(new_whole_v7 0)\<lparr>corrupted := True\<rparr>"]
    tendency_table [of "create_ai_v5 1 ''aggressive''" "create_ai_v7 1 ''aggressive''"]
    tendency_table [of "create_ai_v5 2 ''coherent''" "create_ai_v7 2 ''coherent''"]
    tendency_table [of "create_ai_v5 3 ''bridge''" "create_ai_v7 3 ''bridge''"]
    tendency_table [of "create_ai_v5 3 ''bridge''" "create_awakened_human 4"]
  by (simp add: creators)

text \<open>
  The claim gives 0.98 for every bridge AI; the bridge AI that v7's \<^verbatim>\<open>create_ai\<close> makes has
  0.95.
\<close>

theorem bridge_tendency_v7_counterexample:
  "is_ai (create_ai_v7 0 ''bridge'') \<and> ai_type (create_ai_v7 0 ''bridge'') = ''bridge'' \<and>
   cooperation_tendency_v7 (create_ai_v7 0 ''bridge'') = 0.95 \<and>
   cooperation_tendency_v7 (create_ai_v7 0 ''bridge'') \<noteq> 0.98"
  by (simp add: cooperation_tendency_v7_def creators)

section \<open>The decision of a cooperative AI\<close>




section \<open>Who can teach\<close>





section \<open>The two one-sided defections\<close>

lemma recent_simps [simp]:
  "recent (recent_up w) = recent w + 1"
  "recent (recent_down w) = max 0 (recent w - 1)"
  "recent (cooperated w) = recent w"
  "recent (defected w) = recent w"
  by (simp_all add: recent_def recent_up_def recent_down_def cooperated_def defected_def)

text \<open>
  Claim C9, as the code has it. Within each version the two one-sided-defection branches are
  exact mirrors of each other: exchanging the two agents and their actions exchanges the
  results. In v5 both branches decrement the cooperator's \<^verbatim>\<open>_recent_defections\<close> (not below
  0); in v7 neither branch touches it. The defector's counter goes up by one in all four.
  The difference is between the two files, not between the branches of one.
\<close>

theorem one_sided_defection_mirrored:
  "(a1 \<in> {''cooperate'', ''defect''} \<and> a2 \<in> {''cooperate'', ''defect''} \<longrightarrow>
      payoff_v5 a2 a1 sc pen w2 w1 = mirrored (payoff_v5 a1 a2 sc pen w1 w2) \<and>
      payoff_v7 a2 a1 sc pen w2 w1 = mirrored (payoff_v7 a1 a2 sc pen w1 w2)) \<and>
   (case payoff_agents (payoff_v5 ''defect'' ''cooperate'' sc pen w1 w2) of (d, c) \<Rightarrow>
      recent d = recent w1 + 1 \<and> recent c = max 0 (recent w2 - 1)) \<and>
   (case payoff_agents (payoff_v5 ''cooperate'' ''defect'' sc pen w1 w2) of (c, d) \<Rightarrow>
      recent d = recent w2 + 1 \<and> recent c = max 0 (recent w1 - 1)) \<and>
   (case payoff_agents (payoff_v7 ''defect'' ''cooperate'' sc pen w1 w2) of (d, c) \<Rightarrow>
      recent d = recent w1 + 1 \<and> recent c = recent w2) \<and>
   (case payoff_agents (payoff_v7 ''cooperate'' ''defect'' sc pen w1 w2) of (c, d) \<Rightarrow>
      recent d = recent w2 + 1 \<and> recent c = recent w1)"
  by (auto simp: payoff_v5_def payoff_v7_def mirrored_def payoff_agents_def Let_def)

theorem one_sided_defection_mirrored_witness:
  "payoff_v5 ''cooperate'' ''defect'' 0.2 0 (new_whole_v5 1) (new_whole_v5 0)
     = mirrored (payoff_v5 ''defect'' ''cooperate'' 0.2 0 (new_whole_v5 0) (new_whole_v5 1)) \<and>
   payoff_v7 ''cooperate'' ''defect'' 0.2 0 (new_whole_v5 1) (new_whole_v5 0)
     = mirrored (payoff_v7 ''defect'' ''cooperate'' 0.2 0 (new_whole_v5 0) (new_whole_v5 1))"
  using one_sided_defection_mirrored [of "''defect''" "''cooperate''" "0.2" 0
      "new_whole_v5 1" "new_whole_v5 0"]
  by simp

text \<open>
  With both counters at 2: in v5 the cooperator's counter falls to 1 in the one branch and
  in its mirror; in v7 it stays at 2 in both. In neither file does one branch decrement it
  and the other not.
\<close>

theorem asymmetric_branches_counterexample:
  "recent_defections (snd (payoff_agents (payoff_v5 ''defect'' ''cooperate'' 0 0
      ((new_whole_v5 0)\<lparr>recent_defections := Some 2\<rparr>)
      ((new_whole_v5 1)\<lparr>recent_defections := Some 2\<rparr>)))) = Some 1 \<and>
   recent_defections (fst (payoff_agents (payoff_v5 ''cooperate'' ''defect'' 0 0
      ((new_whole_v5 0)\<lparr>recent_defections := Some 2\<rparr>)
      ((new_whole_v5 1)\<lparr>recent_defections := Some 2\<rparr>)))) = Some 1 \<and>
   recent_defections (snd (payoff_agents (payoff_v7 ''defect'' ''cooperate'' 0 0
      ((new_whole_v7 0)\<lparr>recent_defections := Some 2\<rparr>)
      ((new_whole_v7 1)\<lparr>recent_defections := Some 2\<rparr>)))) = Some 2 \<and>
   recent_defections (fst (payoff_agents (payoff_v7 ''cooperate'' ''defect'' 0 0
      ((new_whole_v7 0)\<lparr>recent_defections := Some 2\<rparr>)
      ((new_whole_v7 1)\<lparr>recent_defections := Some 2\<rparr>)))) = Some 2"
  by (simp add: payoff_v5_def payoff_v7_def payoff_agents_def recent_down_def recent_def
      cooperated_def new_whole_v5_def new_whole_v7_def)

section \<open>What the random module returns\<close>

lemma random_random_range:
  "random_random g = (u, g') \<Longrightarrow> 0 \<le> u \<and> u < 1"
proof -
  assume "random_random g = (u, g')"
  then have u: "u = real (shd g mod 2 ^ 53) / 2 ^ 53"
    by (simp add: random_random_def)
  have "shd g mod 2 ^ 53 < (2 ^ 53 :: nat)" by simp
  then have "real (shd g mod 2 ^ 53) < 2 ^ 53"
    by (metis of_nat_less_iff of_nat_numeral of_nat_power)
  then show ?thesis using u by simp
qed

lemma random_uniform_range:
  "a \<le> b \<Longrightarrow> random_uniform a b g = (x, g') \<Longrightarrow> a \<le> x \<and> x \<le> b"
proof -
  assume ab: "a \<le> b" and r: "random_uniform a b g = (x, g')"
  obtain u g1 where u: "random_random g = (u, g1)" by (cases "random_random g")
  from random_random_range [OF u] have u01: "0 \<le> u" "u < 1" by auto
  from r u have x: "x = a + (b - a) * u" by (simp add: random_uniform_def)
  have "0 \<le> (b - a) * u" using ab u01 by simp
  moreover have "(b - a) * u \<le> (b - a) * 1"
    using ab u01 by (intro mult_left_mono) auto
  ultimately show ?thesis using x by simp
qed

lemma randbelow_less: "0 < n \<Longrightarrow> randbelow n g = (k, g') \<Longrightarrow> k < n"
  by (auto simp: randbelow_def)

lemma sample_pool_subset:
  "sample_pool pool k g = (xs, g') \<Longrightarrow> set xs \<subseteq> set pool"
proof (induction pool k g arbitrary: xs g' rule: sample_pool.induct)
  case (1 pool g)
  then show ?case by simp
next
  case (2 pool k g)
  show ?case
  proof (cases "pool = []")
    case True
    with 2(2) show ?thesis by simp
  next
    case False
    obtain j g1 where j: "randbelow (length pool) g = (j, g1)"
      by (cases "randbelow (length pool) g")
    obtain rest g2 where rest: "sample_pool (butlast (pool[j := last pool])) k g1 = (rest, g2)"
      by (cases "sample_pool (butlast (pool[j := last pool])) k g1")
    have jl: "j < length pool" using False j by (auto intro: randbelow_less)
    from 2(2) False j rest have xs: "xs = pool ! j # rest" by simp
    have "set rest \<subseteq> set (butlast (pool[j := last pool]))"
      using 2(1) [OF False j [symmetric] rest] .
    also have "\<dots> \<subseteq> set (pool[j := last pool])"
      by (auto dest: in_set_butlastD)
    also have "\<dots> \<subseteq> insert (last pool) (set pool)"
      by (rule set_update_subset_insert)
    also have "\<dots> = set pool" using False by auto
    finally show ?thesis using xs jl by auto
  qed
qed


section \<open>interact always returns\<close>

lemma settle_total:
  "o1 \<in> {''thrived'', ''survived'', ''suffered''} \<Longrightarrow>
   o2 \<in> {''thrived'', ''survived'', ''suffered''} \<Longrightarrow>
   \<exists>s1 s2. settle a1 a2 (d1, d2, o1, o2, x1, x2) = Some (s1, s2)"
  by (auto simp: settle_def learn_def Let_def)

lemma interact_v5_total: "\<exists>w1' w2' g'. interact_v5 w1 w2 n sc pl g = Some (w1', w2', g')"
proof -
  obtain a1 g1 where a1: "decide_v5 (init_recent w1) (init_recent w2) n g = (a1, g1)"
    by (cases "decide_v5 (init_recent w1) (init_recent w2) n g")
  obtain a2 g2 where a2: "decide_v5 (init_recent w2) (init_recent w1) n g1 = (a2, g2)"
    by (cases "decide_v5 (init_recent w2) (init_recent w1) n g1")
  obtain pen g3 where pen: "polarization_draw (init_recent w1) (init_recent w2) pl g2 = (pen, g3)"
    by (cases "polarization_draw (init_recent w1) (init_recent w2) pl g2")
  obtain d1 d2 o1 o2 x1 x2 where
    pay: "payoff_v5 a1 a2 sc pen (init_recent w1) (init_recent w2) = (d1, d2, o1, o2, x1, x2)"
    by (cases "payoff_v5 a1 a2 sc pen (init_recent w1) (init_recent w2)")
  from payoff_v5_outcomes [OF pay] settle_total
  obtain s1 s2 where s: "settle a1 a2 (d1, d2, o1, o2, x1, x2) = Some (s1, s2)"
    by blast
  obtain t1 t2 where t: "teach_v5 a1 a2 s1 s2 = (t1, t2)"
    by (cases "teach_v5 a1 a2 s1 s2")
  have "interact_v5 w1 w2 n sc pl g = Some (t1, t2, g3)"
    using a1 a2 pen pay s t by (simp add: interact_v5_def Let_def)
  then show ?thesis by blast
qed

lemma interact_v7_total: "\<exists>w1' w2' g'. interact_v7 w1 w2 n sc pl g = Some (w1', w2', g')"
proof -
  obtain a1 g1 where a1: "decide_v7 (init_recent w1) (init_recent w2) n g = (a1, g1)"
    by (cases "decide_v7 (init_recent w1) (init_recent w2) n g")
  obtain a2 g2 where a2: "decide_v7 (init_recent w2) (init_recent w1) n g1 = (a2, g2)"
    by (cases "decide_v7 (init_recent w2) (init_recent w1) n g1")
  obtain pen g3 where pen: "polarization_draw (init_recent w1) (init_recent w2) pl g2 = (pen, g3)"
    by (cases "polarization_draw (init_recent w1) (init_recent w2) pl g2")
  obtain d1 d2 o1 o2 x1 x2 where
    pay: "payoff_v7 a1 a2 sc pen (init_recent w1) (init_recent w2) = (d1, d2, o1, o2, x1, x2)"
    by (cases "payoff_v7 a1 a2 sc pen (init_recent w1) (init_recent w2)")
  from payoff_v7_outcomes [OF pay] settle_total
  obtain s1 s2 where s: "settle a1 a2 (d1, d2, o1, o2, x1, x2) = Some (s1, s2)"
    by blast
  obtain t1 t2 g4 where t: "teach_v7 a1 a2 s1 s2 g3 = (t1, t2, g4)"
    by (cases "teach_v7 a1 a2 s1 s2 g3") auto
  have "interact_v7 w1 w2 n sc pl g = Some (t1, t2, g4)"
    using a1 a2 pen pay s t by (simp add: interact_v7_def Let_def)
  then show ?thesis by blast
qed

text \<open>
  The stages of one interaction, for proofs that follow an agent through them.
\<close>

lemma interact_v5_stages:
  assumes "interact_v5 w1 w2 n sc pl g = Some (w1', w2', g')"
  obtains a1 a2 g1 g2 pen d1 d2 o1 o2 x1 x2 s1 s2 where
    "decide_v5 (init_recent w1) (init_recent w2) n g = (a1, g1)"
    "decide_v5 (init_recent w2) (init_recent w1) n g1 = (a2, g2)"
    "polarization_draw (init_recent w1) (init_recent w2) pl g2 = (pen, g')"
    "payoff_v5 a1 a2 sc pen (init_recent w1) (init_recent w2) = (d1, d2, o1, o2, x1, x2)"
    "settle a1 a2 (d1, d2, o1, o2, x1, x2) = Some (s1, s2)"
    "teach_v5 a1 a2 s1 s2 = (w1', w2')"
proof -
  obtain a1 g1 where a1: "decide_v5 (init_recent w1) (init_recent w2) n g = (a1, g1)"
    by (cases "decide_v5 (init_recent w1) (init_recent w2) n g")
  obtain a2 g2 where a2: "decide_v5 (init_recent w2) (init_recent w1) n g1 = (a2, g2)"
    by (cases "decide_v5 (init_recent w2) (init_recent w1) n g1")
  obtain pen g3 where pen: "polarization_draw (init_recent w1) (init_recent w2) pl g2 = (pen, g3)"
    by (cases "polarization_draw (init_recent w1) (init_recent w2) pl g2")
  obtain d1 d2 o1 o2 x1 x2 where
    pay: "payoff_v5 a1 a2 sc pen (init_recent w1) (init_recent w2) = (d1, d2, o1, o2, x1, x2)"
    by (cases "payoff_v5 a1 a2 sc pen (init_recent w1) (init_recent w2)")
  from assms a1 a2 pen pay obtain s1 s2 where
    s: "settle a1 a2 (d1, d2, o1, o2, x1, x2) = Some (s1, s2)"
    and t: "teach_v5 a1 a2 s1 s2 = (w1', w2')" and g: "g3 = g'"
    by (auto simp: interact_v5_def Let_def split: prod.splits bind_splits)
  show thesis using that [OF a1 a2 _ pay s t] pen g by simp
qed

lemma interact_v7_stages:
  assumes "interact_v7 w1 w2 n sc pl g = Some (w1', w2', g')"
  obtains a1 a2 g1 g2 g3 pen d1 d2 o1 o2 x1 x2 s1 s2 where
    "decide_v7 (init_recent w1) (init_recent w2) n g = (a1, g1)"
    "decide_v7 (init_recent w2) (init_recent w1) n g1 = (a2, g2)"
    "polarization_draw (init_recent w1) (init_recent w2) pl g2 = (pen, g3)"
    "payoff_v7 a1 a2 sc pen (init_recent w1) (init_recent w2) = (d1, d2, o1, o2, x1, x2)"
    "settle a1 a2 (d1, d2, o1, o2, x1, x2) = Some (s1, s2)"
    "teach_v7 a1 a2 s1 s2 g3 = (w1', w2', g')"
proof -
  obtain a1 g1 where a1: "decide_v7 (init_recent w1) (init_recent w2) n g = (a1, g1)"
    by (cases "decide_v7 (init_recent w1) (init_recent w2) n g")
  obtain a2 g2 where a2: "decide_v7 (init_recent w2) (init_recent w1) n g1 = (a2, g2)"
    by (cases "decide_v7 (init_recent w2) (init_recent w1) n g1")
  obtain pen g3 where pen: "polarization_draw (init_recent w1) (init_recent w2) pl g2 = (pen, g3)"
    by (cases "polarization_draw (init_recent w1) (init_recent w2) pl g2")
  obtain d1 d2 o1 o2 x1 x2 where
    pay: "payoff_v7 a1 a2 sc pen (init_recent w1) (init_recent w2) = (d1, d2, o1, o2, x1, x2)"
    by (cases "payoff_v7 a1 a2 sc pen (init_recent w1) (init_recent w2)")
  from assms a1 a2 pen pay obtain s1 s2 where
    s: "settle a1 a2 (d1, d2, o1, o2, x1, x2) = Some (s1, s2)"
    and t: "teach_v7 a1 a2 s1 s2 g3 = (w1', w2', g')"
    by (auto simp: interact_v7_def Let_def split: prod.splits bind_splits)
  show thesis using that [OF a1 a2 pen pay s t] .
qed

section \<open>The interaction phase\<close>

lemma list_all_update:
  "list_all P xs \<Longrightarrow> P x \<Longrightarrow> list_all P (xs[i := x])"
  by (induction xs arbitrary: i) (auto split: nat.splits)

lemma sample_upto_subset: "sample_upto c pool g = (xs, g') \<Longrightarrow> set xs \<subseteq> set pool"
  by (auto simp: sample_upto_def split: if_splits dest: sample_pool_subset)

lemma maybe_outside_subset:
  assumes "maybe_outside chance outside (partners, g) = (xs, g')"
  shows "set xs \<subseteq> set partners \<union> set outside"
proof (cases "outside = []")
  case True
  with assms show ?thesis by (simp add: maybe_outside_def)
next
  case False
  obtain u g2 where u: "random_random g = (u, g2)" by (cases "random_random g")
  obtain k g3 where k: "randbelow (length outside) g2 = (k, g3)"
    by (cases "randbelow (length outside) g2")
  have "k < length outside" using False k by (auto intro: randbelow_less)
  then have "outside ! k \<in> set outside" by (rule nth_mem)
  with assms False u k show ?thesis
    by (auto simp: maybe_outside_def split: if_splits)
qed

lemma choose_partners_v7_valid:
  assumes "choose_partners_v7 population i g = (js, g')"
  shows "\<forall>j\<in>set js. j < length population"
proof -
  define others where "others =
    filter (\<lambda>j. whole_id (population ! j) \<noteq> whole_id (population ! i)) [0..<length population]"
  define same where "same = filter (\<lambda>j. isolated (population ! j) \<and> \<not> is_ai (population ! j)) others"
  define diff where "diff = filter (\<lambda>j. \<not> isolated (population ! j) \<or> is_ai (population ! j)
                                    \<or> awakened (population ! j)) others"
  define bubble where "bubble \<longleftrightarrow>
    isolated (population ! i) \<and> \<not> is_ai (population ! i) \<and> \<not> awakened (population ! i)"
  have others: "set others \<subseteq> {0..<length population}" by (auto simp: others_def)
  have sub: "set same \<subseteq> set others" "set diff \<subseteq> set others"
    by (auto simp: same_def diff_def)
  have eq: "choose_partners_v7 population i g =
      (if others = [] then ([], g)
       else if bubble then maybe_outside 0.3 diff (sample_upto 3 same g)
       else sample_pool others (min 5 (length others)) g)"
    by (simp only: choose_partners_v7_def Let_def others_def same_def diff_def bubble_def)
  have "set js \<subseteq> set others"
  proof (cases "others = []")
    case True
    with assms eq show ?thesis by simp
  next
    case False
    show ?thesis
    proof (cases bubble)
      case True
      with False assms eq have m: "maybe_outside 0.3 diff (sample_upto 3 same g) = (js, g')"
        by simp
      obtain xs g1 where xs: "sample_upto 3 same g = (xs, g1)" by (cases "sample_upto 3 same g")
      from m xs maybe_outside_subset [of "0.3" diff xs g1 js g'] sample_upto_subset [OF xs] sub
      show ?thesis by auto
    next
      case no: False
      with False assms eq have "sample_pool others (min 5 (length others)) g = (js, g')"
        by simp
      then show ?thesis by (rule sample_pool_subset)
    qed
  qed
  with others show ?thesis by auto
qed

lemma choose_partners_v5_valid:
  assumes "choose_partners_v5 population i g = (js, g')"
  shows "\<forall>j\<in>set js. j < length population"
proof -
  define others where "others =
    filter (\<lambda>j. whole_id (population ! j) \<noteq> whole_id (population ! i)) [0..<length population]"
  define same where "same = filter (\<lambda>j. isolated (population ! j)) others"
  define cross where "cross = filter (\<lambda>j. \<not> isolated (population ! j)) others"
  define bubble where "bubble \<longleftrightarrow> isolated (population ! i) \<and> \<not> is_ai (population ! i)"
  have others: "set others \<subseteq> {0..<length population}" by (auto simp: others_def)
  have sub: "set same \<subseteq> set others" "set cross \<subseteq> set others"
    by (auto simp: same_def cross_def)
  have eq: "choose_partners_v5 population i g =
      (if bubble then maybe_outside 0.2 cross (sample_upto 4 same g)
       else sample_upto 5 others g)"
    by (simp only: choose_partners_v5_def Let_def others_def same_def cross_def bubble_def)
  have "set js \<subseteq> set others"
  proof (cases bubble)
    case True
    with assms eq have m: "maybe_outside 0.2 cross (sample_upto 4 same g) = (js, g')"
      by simp
    obtain xs g1 where xs: "sample_upto 4 same g = (xs, g1)" by (cases "sample_upto 4 same g")
    from m xs maybe_outside_subset [of "0.2" cross xs g1 js g'] sample_upto_subset [OF xs] sub
    show ?thesis by auto
  next
    case False
    with assms eq have "sample_upto 5 others g = (js, g')" by simp
    then show ?thesis by (rule sample_upto_subset)
  qed
  with others show ?thesis by auto
qed

text \<open>
  What holds of every agent and is kept by every interaction is kept by the whole
  interaction phase, which always returns.
\<close>

lemma meet_partners_v7_keeps:
  assumes step: "\<forall>w1 w2 h w1' w2' h'. P w1 \<longrightarrow> P w2 \<longrightarrow>
      interact_v7 w1 w2 (p7_noise p) (p7_scarcity p) (p7_polarization p) h = Some (w1', w2', h')
      \<longrightarrow> P w1' \<and> P w2'"
  shows "list_all P population \<Longrightarrow> i < length population \<Longrightarrow>
         \<forall>j\<in>set js. j < length population \<Longrightarrow>
         \<exists>population' g'. meet_partners_v7 p i js (population, g) = Some (population', g') \<and>
           list_all P population' \<and> length population' = length population"
proof (induction js arbitrary: population g)
  case Nil
  then show ?case by simp
next
  case (Cons j js)
  obtain w1 w2 h where i: "interact_v7 (population ! i) (population ! j)
      (p7_noise p) (p7_scarcity p) (p7_polarization p) g = Some (w1, w2, h)"
    using interact_v7_total by blast
  have "P (population ! i)" "P (population ! j)"
    using Cons.prems by (auto simp: list_all_length)
  from step [rule_format, OF this i] have P: "P w1" "P w2" by simp_all
  let ?pop = "population[i := w1, j := w2]"
  have "list_all P ?pop" using Cons.prems(1) P by (auto intro: list_all_update)
  moreover have "i < length ?pop" "\<forall>k\<in>set js. k < length ?pop"
    using Cons.prems by auto
  ultimately obtain population' g' where
    "meet_partners_v7 p i js (?pop, h) = Some (population', g')"
    "list_all P population'" "length population' = length ?pop"
    using Cons.IH by blast
  then show ?case using i by simp
qed

lemma interactions_v7_keeps:
  assumes step: "\<forall>w1 w2 h w1' w2' h'. P w1 \<longrightarrow> P w2 \<longrightarrow>
      interact_v7 w1 w2 (p7_noise p) (p7_scarcity p) (p7_polarization p) h = Some (w1', w2', h')
      \<longrightarrow> P w1' \<and> P w2'"
  shows "list_all P population \<Longrightarrow> \<forall>i\<in>set positions. i < length population \<Longrightarrow>
         \<exists>population' g'. interactions_v7 p positions (population, g) = Some (population', g') \<and>
           list_all P population' \<and> length population' = length population"
proof (induction positions arbitrary: population g)
  case Nil
  then show ?case by simp
next
  case (Cons i rest)
  obtain js g1 where js: "choose_partners_v7 population i g = (js, g1)"
    by (cases "choose_partners_v7 population i g")
  have il: "i < length population" using Cons.prems(2) by simp
  from meet_partners_v7_keeps [OF step Cons.prems(1) il choose_partners_v7_valid [OF js], of g1]
  obtain pop1 g2 where m: "meet_partners_v7 p i js (population, g1) = Some (pop1, g2)"
    "list_all P pop1" "length pop1 = length population"
    by blast
  from Cons.IH [OF m(2), of g2] Cons.prems(2) m(3)
  obtain population' g' where "interactions_v7 p rest (pop1, g2) = Some (population', g')"
    "list_all P population'" "length population' = length pop1"
    by auto
  then show ?case using js m by simp
qed

lemma meet_partners_v5_keeps:
  assumes step: "\<forall>w1 w2 h w1' w2' h'. P w1 \<longrightarrow> P w2 \<longrightarrow>
      interact_v5 w1 w2 n sc pl h = Some (w1', w2', h') \<longrightarrow> P w1' \<and> P w2'"
  shows "list_all P population \<Longrightarrow> i < length population \<Longrightarrow>
         \<forall>j\<in>set js. j < length population \<Longrightarrow>
         \<exists>population' g'. meet_partners_v5 n sc pl i js (population, g) = Some (population', g') \<and>
           list_all P population' \<and> length population' = length population"
proof (induction js arbitrary: population g)
  case Nil
  then show ?case by simp
next
  case (Cons j js)
  obtain w1 w2 h where i: "interact_v5 (population ! i) (population ! j) n sc pl g
      = Some (w1, w2, h)"
    using interact_v5_total by blast
  have "P (population ! i)" "P (population ! j)"
    using Cons.prems by (auto simp: list_all_length)
  from step [rule_format, OF this i] have P: "P w1" "P w2" by simp_all
  let ?pop = "population[i := w1, j := w2]"
  have "list_all P ?pop" using Cons.prems(1) P by (auto intro: list_all_update)
  moreover have "i < length ?pop" "\<forall>k\<in>set js. k < length ?pop"
    using Cons.prems by auto
  ultimately obtain population' g' where
    "meet_partners_v5 n sc pl i js (?pop, h) = Some (population', g')"
    "list_all P population'" "length population' = length ?pop"
    using Cons.IH by blast
  then show ?case using i by simp
qed

lemma interactions_v5_keeps:
  assumes step: "\<forall>w1 w2 h w1' w2' h'. P w1 \<longrightarrow> P w2 \<longrightarrow>
      interact_v5 w1 w2 n sc pl h = Some (w1', w2', h') \<longrightarrow> P w1' \<and> P w2'"
  shows "list_all P population \<Longrightarrow> \<forall>i\<in>set positions. i < length population \<Longrightarrow>
         \<exists>population' g'. interactions_v5 n sc pl positions (population, g)
             = Some (population', g') \<and>
           list_all P population' \<and> length population' = length population"
proof (induction positions arbitrary: population g)
  case Nil
  then show ?case by simp
next
  case (Cons i rest)
  obtain js g1 where js: "choose_partners_v5 population i g = (js, g1)"
    by (cases "choose_partners_v5 population i g")
  have il: "i < length population" using Cons.prems(2) by simp
  from meet_partners_v5_keeps [OF step Cons.prems(1) il choose_partners_v5_valid [OF js], of g1]
  obtain pop1 g2 where m: "meet_partners_v5 n sc pl i js (population, g1) = Some (pop1, g2)"
    "list_all P pop1" "length pop1 = length population"
    by blast
  from Cons.IH [OF m(2), of g2] Cons.prems(2) m(3)
  obtain population' g' where "interactions_v5 n sc pl rest (pop1, g2) = Some (population', g')"
    "list_all P population'" "length population' = length pop1"
    by auto
  then show ?case using js m by simp
qed

section \<open>What a whole run keeps\<close>

lemma add_agents_keeps:
  "list_all P population \<Longrightarrow> \<forall>i. P (mk i) \<Longrightarrow>
   list_all P (fst (add_agents mk n (population, next_id)))"
  by (induction n arbitrary: population next_id) auto

lemma add_agents_pair:
  "add_agents mk n st = (fst (add_agents mk n st), snd (add_agents mk n st))"
  by simp

lemma interventions_v7_keeps:
  assumes "list_all P population" "\<forall>i. P (create_ai_v7 i ''bridge'')"
    "\<forall>i. P (create_awakened_human i)"
  shows "list_all P (fst (interventions_v7 p gen (population, next_id)))"
proof -
  have k: "list_all P (fst (add_agents mk n st))"
    if "list_all P (fst st)" "\<forall>i. P (mk i)" for mk n and st :: "Whole_v7 list \<times> int"
    using add_agents_keeps [of P "fst st" mk n "snd st"] that by simp
  show ?thesis
    using assms by (auto simp: interventions_v7_def Let_def intro!: k)
qed

lemma ai_entry_v5_keeps:
  assumes "list_all P population" "\<forall>i t. P (create_ai_v5 i t)"
  shows "list_all P (fst (ai_entry_v5 p gen (population, next_id)))"
  using assms by (auto simp: ai_entry_v5_def split: option.splits intro!: add_agents_keeps)

lemma filter_keeps: "list_all P xs \<Longrightarrow> list_all P (filter Q xs)"
  by (auto simp: list_all_iff)

lemma deaths_v7_keeps: "list_all P population \<Longrightarrow> list_all P (deaths_v7 population)"
  by (auto simp: deaths_v7_def Let_def list_all_iff)

lemma deaths_v5_keeps: "list_all P population \<Longrightarrow> list_all P (deaths_v5 population)"
  by (auto simp: deaths_v5_def Let_def list_all_iff)

lemma take_keeps: "list_all P xs \<Longrightarrow> list_all P (take n xs)"
  by (auto simp: list_all_iff dest: in_set_takeD)

lemma generation_v7_keeps:
  assumes step: "\<forall>w1 w2 h w1' w2' h'. P w1 \<longrightarrow> P w2 \<longrightarrow>
      interact_v7 w1 w2 (p7_noise p) (p7_scarcity p) (p7_polarization p) h = Some (w1', w2', h')
      \<longrightarrow> P w1' \<and> P w2'"
    and ai: "\<forall>i. P (create_ai_v7 i ''bridge'')"
    and aw: "\<forall>i. P (create_awakened_human i)"
    and births: "\<forall>n parents pop nid h. list_all P pop \<longrightarrow> list_all P parents \<longrightarrow>
      list_all P (fst (births_v7 n parents (pop, nid, h)))"
    and pop: "list_all P population"
  shows "\<exists>out. generation_v7 p gen (population, next_id, g) = Some out \<and>
           list_all P (outcome_population out)"
proof -
  obtain entered nid1 where e: "interventions_v7 p gen (population, next_id) = (entered, nid1)"
    by (cases "interventions_v7 p gen (population, next_id)")
  have pe: "list_all P entered"
    using interventions_v7_keeps [OF pop ai aw, of p gen next_id] e by simp
  from interactions_v7_keeps [OF step pe, of "[0..<length entered]" g]
  obtain met g1 where m: "interactions_v7 p [0..<length entered] (entered, g) = Some (met, g1)"
    "list_all P met"
    by auto
  let ?pop = "filter is_viable (deaths_v7 met)"
  let ?humans = "filter (\<lambda>w. \<not> is_ai w) ?pop"
  let ?viable = "filter (\<lambda>w. s_star w > 0.5 \<and> \<not> corrupted w) ?humans"
  have pp: "list_all P ?pop" using m(2) by (intro filter_keeps deaths_v7_keeps)
  show ?thesis
  proof (cases "length ?humans < 3")
    case True
    then have "generation_v7 p gen (population, next_id, g) = Some (Collapsed None ?pop g1)"
      using e m(1) by (simp add: generation_v7_def Let_def)
    then show ?thesis using pp by (simp add: outcome_population_def)
  next
    case False
    obtain pop' nid2 g2 where
      b: "births_v7 (length ?humans) (take 8 ?viable) (?pop, nid1, g1) = (pop', nid2, g2)"
      by (cases "births_v7 (length ?humans) (take 8 ?viable) (?pop, nid1, g1)")
    have "list_all P (take 8 ?viable)" using pp by (auto simp: list_all_iff dest: in_set_takeD)
    with births pp have "list_all P (fst (births_v7 (length ?humans) (take 8 ?viable)
        (?pop, nid1, g1)))"
      by blast
    then have pb: "list_all P pop'" using b by simp
    have "generation_v7 p gen (population, next_id, g)
        = Some (Survived pop' nid2 g2 (metrics_of_v7 gen ?pop))"
      using False e m(1) b by (simp add: generation_v7_def Let_def)
    then show ?thesis using pb by (simp add: outcome_population_def)
  qed
qed

lemma generations_v7_keeps:
  assumes step: "\<forall>w1 w2 h w1' w2' h'. P w1 \<longrightarrow> P w2 \<longrightarrow>
      interact_v7 w1 w2 (p7_noise p) (p7_scarcity p) (p7_polarization p) h = Some (w1', w2', h')
      \<longrightarrow> P w1' \<and> P w2'"
    and ai: "\<forall>i. P (create_ai_v7 i ''bridge'')"
    and aw: "\<forall>i. P (create_awakened_human i)"
    and births: "\<forall>n parents pop nid h. list_all P pop \<longrightarrow> list_all P parents \<longrightarrow>
      list_all P (fst (births_v7 n parents (pop, nid, h)))"
  shows "list_all P population \<Longrightarrow>
         \<exists>res final g'. generations_v7 p gens (population, next_id, g) history
             = Some (res, final, g') \<and> list_all P final"
proof (induction gens arbitrary: population next_id g history)
  case Nil
  then show ?case by simp
next
  case (Cons gen gens)
  from generation_v7_keeps [OF step ai aw births Cons.prems, of gen next_id g]
  obtain out where out: "generation_v7 p gen (population, next_id, g) = Some out"
    "list_all P (outcome_population out)"
    by blast
  show ?case
  proof (cases out)
    case (Collapsed cause pop' g')
    with out show ?thesis by (simp add: outcome_population_def)
  next
    case (Survived pop' nid' g' m)
    with out have "list_all P pop'" by (simp add: outcome_population_def)
    from Cons.IH [OF this, of nid' g' "history @ [m]"] out(1) Survived
    show ?thesis by simp
  qed
qed

lemma generation_v5_keeps:
  assumes step: "\<forall>n sc pl w1 w2 h w1' w2' h'. P w1 \<longrightarrow> P w2 \<longrightarrow>
      interact_v5 w1 w2 n sc pl h = Some (w1', w2', h') \<longrightarrow> P w1' \<and> P w2'"
    and ai: "\<forall>i t. P (create_ai_v5 i t)"
    and births: "\<forall>gen pct n parents pop nid h. list_all P pop \<longrightarrow> list_all P parents \<longrightarrow>
      list_all P (fst (births_v5 gen pct n parents (pop, nid, h)))"
    and pop: "list_all P population"
  shows "\<exists>out. generation_v5 p gen (population, next_id, g) = Some out \<and>
           list_all P (outcome_population out)"
proof -
  obtain entered nid1 where e: "ai_entry_v5 p gen (population, next_id) = (entered, nid1)"
    by (cases "ai_entry_v5 p gen (population, next_id)")
  have pe: "list_all P entered"
    using ai_entry_v5_keeps [OF pop ai, of p gen next_id] e by simp
  have step': "\<forall>w1 w2 h w1' w2' h'. P w1 \<longrightarrow> P w2 \<longrightarrow>
      interact_v5 w1 w2 (p5_base_noise p) (scarcity_at p gen) (polarization_at p gen) h
        = Some (w1', w2', h') \<longrightarrow> P w1' \<and> P w2'"
    using step by blast
  from interactions_v5_keeps [OF step' pe, of "[0..<length entered]" g]
  obtain met g1 where m: "interactions_v5 (p5_base_noise p) (scarcity_at p gen)
      (polarization_at p gen) [0..<length entered] (entered, g) = Some (met, g1)"
    "list_all P met"
    by auto
  let ?pop = "filter is_viable (deaths_v5 met)"
  let ?humans = "filter (\<lambda>w. \<not> is_ai w) ?pop"
  let ?viable = "filter (\<lambda>w. s_star w > 0.5 \<and> \<not> corrupted w) ?humans"
  let ?m = "metrics_of_v5 p gen ?pop"
  have pp: "list_all P ?pop" using m(2) by (intro filter_keeps deaths_v5_keeps)
  consider (extinct) "length ?humans < 5"
    | (total) "\<not> length ?humans < 5" "length ?pop < 2"
    | (alive) "\<not> length ?humans < 5" "\<not> length ?pop < 2"
    by blast
  then show ?thesis
  proof cases
    case extinct
    then have "generation_v5 p gen (population, next_id, g)
        = Some (Collapsed (Some ''human_extinction'') ?pop g1)"
      using e m(1) by (simp add: generation_v5_def Let_def)
    then show ?thesis using pp by (simp add: outcome_population_def)
  next
    case total
    then have "generation_v5 p gen (population, next_id, g)
        = Some (Collapsed (Some ''total'') ?pop g1)"
      using e m(1) by (simp add: generation_v5_def Let_def)
    then show ?thesis using pp by (simp add: outcome_population_def)
  next
    case alive
    obtain pop' nid2 g2 where
      b: "births_v5 gen (m5_isolated_pct ?m) (length ?humans) (take 10 ?viable) (?pop, nid1, g1)
          = (pop', nid2, g2)"
      by (cases "births_v5 gen (m5_isolated_pct ?m) (length ?humans) (take 10 ?viable)
          (?pop, nid1, g1)")
    have "list_all P (take 10 ?viable)" using pp by (auto simp: list_all_iff dest: in_set_takeD)
    with births pp have "list_all P (fst (births_v5 gen (m5_isolated_pct ?m) (length ?humans)
        (take 10 ?viable) (?pop, nid1, g1)))"
      by blast
    then have pb: "list_all P pop'" using b by simp
    have "generation_v5 p gen (population, next_id, g) = Some (Survived pop' nid2 g2 ?m)"
      using alive e m(1) b by (simp add: generation_v5_def Let_def)
    then show ?thesis using pb by (simp add: outcome_population_def)
  qed
qed

lemma generations_v5_keeps:
  assumes step: "\<forall>n sc pl w1 w2 h w1' w2' h'. P w1 \<longrightarrow> P w2 \<longrightarrow>
      interact_v5 w1 w2 n sc pl h = Some (w1', w2', h') \<longrightarrow> P w1' \<and> P w2'"
    and ai: "\<forall>i t. P (create_ai_v5 i t)"
    and births: "\<forall>gen pct n parents pop nid h. list_all P pop \<longrightarrow> list_all P parents \<longrightarrow>
      list_all P (fst (births_v5 gen pct n parents (pop, nid, h)))"
  shows "list_all P population \<Longrightarrow>
         \<exists>res final g'. generations_v5 p gens (population, next_id, g) history
             = Some (res, final, g') \<and> list_all P final"
proof (induction gens arbitrary: population next_id g history)
  case Nil
  then show ?case by simp
next
  case (Cons gen gens)
  from generation_v5_keeps [OF step ai births Cons.prems, of p gen next_id g]
  obtain out where out: "generation_v5 p gen (population, next_id, g) = Some out"
    "list_all P (outcome_population out)"
    by blast
  show ?case
  proof (cases out)
    case (Collapsed cause pop' g')
    with out show ?thesis by (simp add: outcome_population_def)
  next
    case (Survived pop' nid' g' m)
    with out have "list_all P pop'" by (simp add: outcome_population_def)
    from Cons.IH [OF this, of nid' g' "history @ [m]"] out(1) Survived
    show ?thesis by simp
  qed
qed


section \<open>Coherence and trust stay in range\<close>

lemmas updaters = recent_up_def recent_down_def cooperated_def defected_def

lemma init_recent_range [simp]: "in_range (init_recent w) = in_range w"
  by (simp add: in_range_def init_recent_def split: option.splits)

lemma payoff_v5_keeps_levels:
  "payoff_v5 a1 a2 sc pen w1 w2 = (d1, d2, o1, o2, x1, x2) \<Longrightarrow>
   s_star x1 = s_star w1 \<and> trust_in_institutions x1 = trust_in_institutions w1 \<and>
   s_star x2 = s_star w2 \<and> trust_in_institutions x2 = trust_in_institutions w2"
  by (auto simp: payoff_v5_def Let_def updaters split: if_splits)

lemma payoff_v7_keeps_levels:
  "payoff_v7 a1 a2 sc pen w1 w2 = (d1, d2, o1, o2, x1, x2) \<Longrightarrow>
   s_star x1 = s_star w1 \<and> trust_in_institutions x1 = trust_in_institutions w1 \<and>
   s_star x2 = s_star w2 \<and> trust_in_institutions x2 = trust_in_institutions w2"
  by (auto simp: payoff_v7_def Let_def updaters split: if_splits)

lemma settle_levels:
  "settle a1 a2 (d1, d2, o1, o2, x1, x2) = Some (s1, s2) \<Longrightarrow>
   s_star s1 = max 0.01 (min 1 (s_star x1 + d1)) \<and>
   trust_in_institutions s1 = trust_in_institutions x1 \<and>
   s_star s2 = max 0.01 (min 1 (s_star x2 + d2)) \<and>
   trust_in_institutions s2 = trust_in_institutions x2"
  by (auto simp: settle_def learn_def update_coherence_def Let_def
      split: bind_splits option.splits)

lemma receive_teaching_v7_range:
  "in_range s \<Longrightarrow> receive_teaching_v7 s t g = (s', g') \<Longrightarrow> in_range s'"
  by (auto simp: receive_teaching_v7_def in_range_def Let_def split: if_splits prod.splits)

lemma receive_teaching_v5_range: "in_range s \<Longrightarrow> in_range (receive_teaching_v5 s t)"
  by (auto simp: receive_teaching_v5_def in_range_def)

lemma teach_v7_range:
  "in_range s1 \<Longrightarrow> in_range s2 \<Longrightarrow> teach_v7 a1 a2 s1 s2 g = (t1, t2, g') \<Longrightarrow>
   in_range t1 \<and> in_range t2"
  by (auto simp: teach_v7_def split: if_splits prod.splits dest: receive_teaching_v7_range)

lemma teach_v5_range:
  "in_range s1 \<Longrightarrow> in_range s2 \<Longrightarrow> teach_v5 a1 a2 s1 s2 = (t1, t2) \<Longrightarrow>
   in_range t1 \<and> in_range t2"
  by (auto simp: teach_v5_def Let_def split: if_splits intro: receive_teaching_v5_range)

lemma interact_v5_range:
  assumes "in_range w1" "in_range w2" "interact_v5 w1 w2 n sc pl g = Some (w1', w2', g')"
  shows "in_range w1' \<and> in_range w2'"
proof -
  from assms(3) obtain a1 a2 g1 g2 pen d1 d2 o1 o2 x1 x2 s1 s2 where
    pay: "payoff_v5 a1 a2 sc pen (init_recent w1) (init_recent w2) = (d1, d2, o1, o2, x1, x2)"
    and s: "settle a1 a2 (d1, d2, o1, o2, x1, x2) = Some (s1, s2)"
    and t: "teach_v5 a1 a2 s1 s2 = (w1', w2')"
    by (rule interact_v5_stages)
  from payoff_v5_keeps_levels [OF pay] settle_levels [OF s] assms(1,2)
  have "in_range s1" "in_range s2"
    by (auto simp: in_range_def init_recent_def split: option.splits)
  then show ?thesis using t by (rule teach_v5_range)
qed

lemma interact_v7_range:
  assumes "in_range w1" "in_range w2" "interact_v7 w1 w2 n sc pl g = Some (w1', w2', g')"
  shows "in_range w1' \<and> in_range w2'"
proof -
  from assms(3) obtain a1 a2 g1 g2 g3 pen d1 d2 o1 o2 x1 x2 s1 s2 where
    pay: "payoff_v7 a1 a2 sc pen (init_recent w1) (init_recent w2) = (d1, d2, o1, o2, x1, x2)"
    and s: "settle a1 a2 (d1, d2, o1, o2, x1, x2) = Some (s1, s2)"
    and t: "teach_v7 a1 a2 s1 s2 g3 = (w1', w2', g')"
    by (rule interact_v7_stages)
  from payoff_v7_keeps_levels [OF pay] settle_levels [OF s] assms(1,2)
  have "in_range s1" "in_range s2"
    by (auto simp: in_range_def init_recent_def split: option.splits)
  then show ?thesis using t by (rule teach_v7_range)
qed

lemma create_ai_range: "in_range blank \<Longrightarrow> in_range (create_ai blank t)"
  by (auto simp: create_ai_def in_range_def Let_def)

lemma new_whole_range: "in_range (new_whole_v5 i)" "in_range (new_whole_v7 i)"
  by (simp_all add: in_range_def new_whole_v5_def new_whole_v7_def)

lemma create_ai_v5_range: "in_range (create_ai_v5 i t)"
  by (simp add: create_ai_v5_def create_ai_range new_whole_range)

lemma create_ai_v7_range: "in_range (create_ai_v7 i t)"
  by (simp add: create_ai_v7_def create_ai_range new_whole_range)

lemma create_awakened_human_range: "in_range (create_awakened_human i)"
  by (simp add: create_awakened_human_def in_range_def new_whole_v7_def)

lemma create_human_v5_range:
  "0 \<le> trust \<Longrightarrow> trust \<le> 1 \<Longrightarrow> create_human_v5 i gen trust g = (w, g') \<Longrightarrow>
   in_range w \<and> 0.3 \<le> s_star w \<and> s_star w \<le> 0.7 \<and> trust_in_institutions w = trust"
proof -
  assume t: "0 \<le> trust" "trust \<le> 1" and c: "create_human_v5 i gen trust g = (w, g')"
  obtain s g1 where s: "random_uniform 0.3 0.7 g = (s, g1)" by (cases "random_uniform 0.3 0.7 g")
  from random_uniform_range [OF _ s] have "0.3 \<le> s \<and> s \<le> 0.7" by simp
  with c s t show ?thesis by (auto simp: create_human_v5_def in_range_def new_whole_v5_def)
qed

lemma create_human_v7_range:
  "0 \<le> trust \<Longrightarrow> trust \<le> 1 \<Longrightarrow> create_human_v7 i trust bubble g = (w, g') \<Longrightarrow>
   in_range w \<and> 0.3 \<le> s_star w \<and> s_star w \<le> 0.7 \<and> trust_in_institutions w = trust"
proof -
  assume t: "0 \<le> trust" "trust \<le> 1" and c: "create_human_v7 i trust bubble g = (w, g')"
  obtain s g1 where s: "random_uniform 0.3 0.7 g = (s, g1)" by (cases "random_uniform 0.3 0.7 g")
  from random_uniform_range [OF _ s] have "0.3 \<le> s \<and> s \<le> 0.7" by simp
  with c s t show ?thesis by (auto simp: create_human_v7_def in_range_def new_whole_v7_def)
qed

lemma in_range_scars [simp]: "in_range (w\<lparr>scars := ss\<rparr>) = in_range w"
  by (simp add: in_range_def)

lemma in_range_isolated [simp]: "in_range (w\<lparr>isolated := b\<rparr>) = in_range w"
  by (simp add: in_range_def)

lemma in_range_corrupted [simp]: "in_range (w\<lparr>corrupted := b\<rparr>) = in_range w"
  by (simp add: in_range_def)

lemma in_range_tested [simp]: "in_range (w\<lparr>crucible_tested := b\<rparr>) = in_range w"
  by (simp add: in_range_def)

lemma births_v7_range:
  "list_all in_range population \<Longrightarrow> list_all in_range parents \<Longrightarrow>
   list_all in_range (fst (births_v7 n parents (population, next_id, g)))"
proof (induction parents arbitrary: population next_id g)
  case Nil
  then show ?case by simp
next
  case (Cons parent rest)
  obtain u g1 where u: "random_random g = (u, g1)" by (cases "random_random g")
  show ?case
  proof (cases "u < s_star parent * 0.25 \<and> n < 200")
    case False
    with u Cons show ?thesis by auto
  next
    case True
    obtain ui g2 where ui: "random_random g1 = (ui, g2)" by (cases "random_random g1")
    let ?trust = "max 0.1 (trust_in_institutions parent * 0.9)"
    obtain child g3 where c: "create_human_v7 next_id ?trust (ui < 0.3) g2 = (child, g3)"
      by (cases "create_human_v7 next_id ?trust (ui < 0.3) g2")
    obtain inh g4 where i: "inherit_scars (if better_inheritance parent then 0.5 else 0.3) 0.6
        (last_n 8 (scars parent)) g3 = (inh, g4)"
      by (cases "inherit_scars (if better_inheritance parent then 0.5 else 0.3) 0.6
        (last_n 8 (scars parent)) g3")
    have "in_range parent" using Cons.prems(2) by simp
    then have "0 \<le> ?trust" "?trust \<le> 1" by (auto simp: in_range_def)
    from create_human_v7_range [OF this c] have "in_range child" by simp
    then have "list_all in_range (population @ [child\<lparr>scars := scars child @ inh\<rparr>])"
      using Cons.prems(1) by simp
    from Cons.IH [OF this, of "next_id + 1" g4] Cons.prems(2) True u ui c i
    show ?thesis by simp
  qed
qed

lemma births_v5_range:
  "list_all in_range population \<Longrightarrow> list_all in_range parents \<Longrightarrow>
   list_all in_range (fst (births_v5 gen pct n parents (population, next_id, g)))"
proof (induction parents arbitrary: population next_id g)
  case Nil
  then show ?case by simp
next
  case (Cons parent rest)
  obtain u g1 where u: "random_random g = (u, g1)" by (cases "random_random g")
  show ?case
  proof (cases "u < s_star parent * 0.3 \<and> n < 200")
    case False
    with u Cons show ?thesis by auto
  next
    case True
    let ?trust = "max 0.1 (trust_in_institutions parent - 0.05)"
    obtain child g2 where c: "create_human_v5 next_id gen ?trust g1 = (child, g2)"
      by (cases "create_human_v5 next_id gen ?trust g1")
    obtain inh g3 where i: "inherit_scars 0.4 0.5 (last_n 10 (scars parent)) g2 = (inh, g3)"
      by (cases "inherit_scars 0.4 0.5 (last_n 10 (scars parent)) g2")
    obtain ui g4 where ui: "random_random g3 = (ui, g4)" by (cases "random_random g3")
    have "in_range parent" using Cons.prems(2) by simp
    then have "0 \<le> ?trust" "?trust \<le> 1" by (auto simp: in_range_def)
    from create_human_v5_range [OF this c] have "in_range child" by simp
    then have "list_all in_range (population @
        [child\<lparr>scars := scars child @ inh,
               isolated := (if ui < pct + 0.1 then True else isolated child)\<rparr>])"
      using Cons.prems(1) by simp
    from Cons.IH [OF this, of "next_id + 1" g4] Cons.prems(2) True u ui c i
    show ?thesis by simp
  qed
qed

lemma run_simulation_range:
  assumes "list_all in_range population"
  shows "\<exists>res final g'. run_simulation p population next_id g = Some (res, final, g') \<and>
           list_all in_range final"
  unfolding run_simulation_def
  by (rule generations_v7_keeps [OF _ _ _ _ assms])
    (auto simp: create_ai_v7_range create_awakened_human_range
      dest: interact_v7_range intro: births_v7_range)

lemma scenario_loop_range:
  assumes "list_all in_range population"
  shows "\<exists>res final g'. scenario_loop p population next_id g = Some (res, final, g') \<and>
           list_all in_range final"
  unfolding scenario_loop_def
  by (rule generations_v5_keeps [OF _ _ _ assms])
    (auto simp: create_ai_v5_range dest: interact_v5_range intro: births_v5_range)


section \<open>The builders give agents in range\<close>

lemma build_collapsed_loop_range:
  "list_all in_range population \<Longrightarrow>
   list_all in_range (fst (build_collapsed_loop n (population, next_id, g)))"
proof (induction n arbitrary: population next_id g)
  case 0
  then show ?case by simp
next
  case (Suc n)
  obtain ui g1 where ui: "random_random g = (ui, g1)" by (cases "random_random g")
  obtain w g2 where w: "create_human_v7 next_id 0.2 (ui < 0.6) g1 = (w, g2)"
    by (cases "create_human_v7 next_id 0.2 (ui < 0.6) g1")
  obtain s g3 where s: "random_uniform 0.15 0.4 g2 = (s, g3)"
    by (cases "random_uniform 0.15 0.4 g2")
  obtain ut g4 where ut: "random_random g3 = (ut, g4)" by (cases "random_random g3")
  from create_human_v7_range [OF _ _ w] have "in_range w" by simp
  moreover from random_uniform_range [OF _ s] have "0.15 \<le> s \<and> s \<le> 0.4" by simp
  ultimately have "in_range (w\<lparr>s_star := s, scars := ss\<rparr>)" for ss
    by (simp add: in_range_def)
  then have "list_all in_range (population @ [w\<lparr>s_star := s,
      scars := (if ut < 0.1
                then scars w @ [new_scar ''defect'' ''defect'' ''survived'' 0.5 ''trauma'']
                else scars w)\<rparr>])"
    using Suc.prems by simp
  from Suc.IH [OF this, of "next_id + 1" g4] ui w s ut show ?case by simp
qed

lemma build_declining_loop_range:
  "list_all in_range population \<Longrightarrow>
   list_all in_range (fst (build_declining_loop gauss n (population, next_id, g)))"
proof (induction n arbitrary: population next_id g)
  case 0
  then show ?case by simp
next
  case (Suc n)
  obtain t g1 where t: "gauss 0.35 0.15 g = (t, g1)" by (cases "gauss 0.35 0.15 g")
  obtain ui g2 where ui: "random_random g1 = (ui, g2)" by (cases "random_random g1")
  obtain w g3 where w: "create_human_v7 next_id (max 0.1 (min 0.8 t)) (ui < 0.4) g2 = (w, g3)"
    by (cases "create_human_v7 next_id (max 0.1 (min 0.8 t)) (ui < 0.4) g2")
  obtain k g4 where k: "randbelow 6 g3 = (k, g4)" by (cases "randbelow 6 g3")
  obtain ss g5 where ss: "random_scars k g4 = (ss, g5)" by (cases "random_scars k g4")
  obtain uc g6 where uc: "random_random g5 = (uc, g6)" by (cases "random_random g5")
  from create_human_v7_range [OF _ _ w] have "in_range w" by simp
  then have "list_all in_range (population @ [w\<lparr>scars := scars w @ ss,
      corrupted := (if uc < 0.05 then True else corrupted w)\<rparr>])"
    using Suc.prems by simp
  from Suc.IH [OF this, of "next_id + 1" g6] t ui w k ss uc show ?case by simp
qed

lemma run_1v1_crucible_range:
  "in_range w1 \<Longrightarrow> in_range w2 \<Longrightarrow> run_1v1_crucible rounds w1 w2 g = Some (survivors, g') \<Longrightarrow>
   list_all in_range survivors"
proof (induction rounds arbitrary: w1 w2 g)
  case 0
  then show ?case by auto
next
  case (Suc rounds)
  obtain x1 x2 h where i: "interact_v5 w1 w2 0 0 0 g = Some (x1, x2, h)"
    using interact_v5_total by blast
  from interact_v5_range [OF Suc.prems(1,2) i] have x: "in_range x1" "in_range x2" by auto
  show ?case
  proof (cases "is_viable x1 \<and> is_viable x2")
    case True
    with Suc.prems(3) i have "run_1v1_crucible rounds x1 x2 h = Some (survivors, g')" by simp
    from Suc.IH [OF x this] show ?thesis .
  next
    case False
    with Suc.prems(3) i x show ?thesis by (auto split: if_splits)
  qed
qed

lemma found_range:
  "list_all in_range founders \<Longrightarrow> found n (founders, next_id, g) = Some (population, nid, g') \<Longrightarrow>
   list_all in_range population"
proof (induction n arbitrary: founders next_id g)
  case 0
  then show ?case by simp
next
  case (Suc n)
  let ?w1 = "(new_whole_v5 next_id)\<lparr>trust_in_institutions := 0.7\<rparr>"
  let ?w2 = "(new_whole_v5 (next_id + 1))\<lparr>trust_in_institutions := 0.7\<rparr>"
  from Suc.prems(2) obtain survivors h where
    c: "run_1v1_crucible 50 ?w1 ?w2 g = Some (survivors, h)"
    and f: "found n (founders @ survivors, next_id + 2, h) = Some (population, nid, g')"
    by (auto split: option.splits)
  have "in_range ?w1" "in_range ?w2" by (simp_all add: in_range_def new_whole_v5_def)
  from run_1v1_crucible_range [OF this c] Suc.prems(1)
  have "list_all in_range (founders @ survivors)" by simp
  from Suc.IH [OF this f] show ?case .
qed

lemma first_generation_range:
  "list_all in_range population \<Longrightarrow>
   list_all in_range (fst (first_generation n (population, next_id, g)))"
proof (induction n arbitrary: population next_id g)
  case 0
  then show ?case by simp
next
  case (Suc n)
  show ?case
  proof (cases "population = []")
    case True
    with Suc show ?thesis by simp
  next
    case False
    define candidates where "candidates =
      (if filter crucible_tested population \<noteq> [] then filter crucible_tested population
       else population)"
    obtain k g1 where k: "randbelow (length candidates) g = (k, g1)"
      by (cases "randbelow (length candidates) g")
    obtain child g2 where c: "create_human_v5 next_id 1 0.6 g1 = (child, g2)"
      by (cases "create_human_v5 next_id 1 0.6 g1")
    obtain inh g3 where i: "inherit_scars 0.8 0.8 (last_n 20 (scars (candidates ! k))) g2
        = (inh, g3)"
      by (cases "inherit_scars 0.8 0.8 (last_n 20 (scars (candidates ! k))) g2")
    from create_human_v5_range [OF _ _ c] have "in_range child" by simp
    then have "list_all in_range (population @ [child\<lparr>scars := scars child @ inh\<rparr>])"
      using Suc.prems by simp
    from Suc.IH [OF this, of "next_id + 1" g3] False k c i
    show ?thesis by (simp add: Let_def candidates_def)
  qed
qed

lemma later_generation_range:
  "list_all in_range population \<Longrightarrow> 0 \<le> trust \<Longrightarrow> trust \<le> 1 \<Longrightarrow>
   later_generation gen trust m rate isolation n (population, next_id, g)
     = Some (population', nid, g') \<Longrightarrow>
   list_all in_range population'"
proof (induction n arbitrary: population next_id g)
  case 0
  then show ?case by simp
next
  case (Suc n)
  from Suc.prems(4) have ne: "population \<noteq> []" by (auto split: if_splits)
  obtain k g1 where k: "randbelow (length population) g = (k, g1)"
    by (cases "randbelow (length population) g")
  obtain child g2 where c: "create_human_v5 next_id gen trust g1 = (child, g2)"
    by (cases "create_human_v5 next_id gen trust g1")
  obtain inh g3 where i: "inherit_scars rate rate (last_n m (scars (population ! k))) g2
      = (inh, g3)"
    by (cases "inherit_scars rate rate (last_n m (scars (population ! k))) g2")
  obtain bubble g4 where b: "(case isolation of None \<Rightarrow> (False, g3)
      | Some chance \<Rightarrow> (case random_random g3 of (ui, g4) \<Rightarrow> (ui < chance, g4))) = (bubble, g4)"
    by (cases "(case isolation of None \<Rightarrow> (False, g3)
      | Some chance \<Rightarrow> (case random_random g3 of (ui, g4) \<Rightarrow> (ui < chance, g4)))")
  let ?pop = "population @ [child\<lparr>scars := scars child @ inh,
      isolated := (if bubble then True else isolated child)\<rparr>]"
  from create_human_v5_range [OF Suc.prems(2,3) c] have "in_range child" by simp
  then have p: "list_all in_range ?pop" using Suc.prems(1) by simp
  from Suc.prems(4) ne k c i b
  have "later_generation gen trust m rate isolation n (?pop, next_id + 1, g4)
      = Some (population', nid, g')"
    by simp
  from Suc.IH [OF p Suc.prems(2,3) this] show ?case .
qed

lemma fourth_generation_range:
  "list_all in_range population \<Longrightarrow>
   fourth_generation n (population, next_id, g) = Some (population', nid, g') \<Longrightarrow>
   list_all in_range population'"
proof (induction n arbitrary: population next_id g)
  case 0
  then show ?case by simp
next
  case (Suc n)
  from Suc.prems(2) have ne: "population \<noteq> []" by (auto split: if_splits)
  obtain k g1 where k: "randbelow (length population) g = (k, g1)"
    by (cases "randbelow (length population) g")
  obtain child g2 where c: "create_human_v5 next_id 4 0.25 g1 = (child, g2)"
    by (cases "create_human_v5 next_id 4 0.25 g1")
  obtain us g3 where us: "random_random g2 = (us, g3)" by (cases "random_random g2")
  obtain ui g4 where ui: "random_random g3 = (ui, g4)" by (cases "random_random g3")
  define born where "born = child\<lparr>scars :=
      (if us < 0.1
       then scars child @
         map (\<lambda>scar. new_scar (other_strategy scar) (my_response scar)
                (outcome scar) (weight scar * 0.2) ''inherited'')
           (last_n 3 (scars (population ! k)))
       else scars child),
      isolated := (if ui < 0.5 then True else isolated child)\<rparr>"
  from create_human_v5_range [OF _ _ c] have "in_range child" by simp
  then have p: "list_all in_range (population @ [born])"
    using Suc.prems(1) by (simp add: born_def)
  from Suc.prems(2) ne k c us ui
  have "fourth_generation n (population @ [born], next_id + 1, g4) = Some (population', nid, g')"
    by (simp add: born_def)
  from Suc.IH [OF p this] show ?case .
qed

lemma age_out_range:
  "list_all in_range population \<Longrightarrow> age_out population g = Some (remaining, g') \<Longrightarrow>
   list_all in_range remaining"
  by (auto simp: age_out_def Let_def list_all_iff split: if_splits prod.splits)

lemma corrupting_range:
  "list_all in_range population \<Longrightarrow>
   list_all in_range (fold (\<lambda>i pop. pop[i := (pop ! i)\<lparr>corrupted := True\<rparr>]) chosen population)"
proof (induction chosen arbitrary: population)
  case Nil
  then show ?case by simp
next
  case (Cons i chosen)
  have "list_all in_range (population[i := (population ! i)\<lparr>corrupted := True\<rparr>])"
  proof (cases "i < length population")
    case True
    with Cons.prems have "in_range (population ! i)" by (simp add: list_all_length)
    with Cons.prems show ?thesis by (intro list_all_update) simp_all
  next
    case False
    with Cons.prems show ?thesis by (simp add: list_update_beyond)
  qed
  from Cons.IH [OF this] show ?case by simp
qed

lemma corrupt_elites_range:
  "list_all in_range population \<Longrightarrow> corrupt_elites population g = Some (population', g') \<Longrightarrow>
   list_all in_range population'"
  by (auto simp: corrupt_elites_def Let_def split: if_splits prod.splits
      intro: corrupting_range)

lemma build_current_civilization_range:
  assumes "build_current_civilization n_pairs g = Some (population, next_id, g')"
  shows "list_all in_range population"
proof -
  from assms obtain founded second third fourth nid4 g4 remaining g5 where
    f: "found (nat n_pairs) ([], 0, g) = Some founded"
    and s: "later_generation 2 0.5 10 0.5 None 40 (first_generation 30 founded) = Some second"
    and t: "later_generation 3 0.35 5 0.3 (Some 0.3) 50 second = Some third"
    and q: "fourth_generation 60 third = Some (fourth, nid4, g4)"
    and a: "age_out fourth g4 = Some (remaining, g5)"
    and c: "corrupt_elites remaining g5 = Some (population, g')"
    by (auto simp: build_current_civilization_def split: bind_splits prod.splits)
  obtain p0 n0 h0 where founded: "founded = (p0, n0, h0)" by (cases founded)
  obtain p2 n2 h2 where second: "second = (p2, n2, h2)" by (cases second)
  obtain p3 n3 h3 where third: "third = (p3, n3, h3)" by (cases third)
  obtain p1 n1 h1 where first: "first_generation 30 (p0, n0, h0) = (p1, n1, h1)"
    by (cases "first_generation 30 (p0, n0, h0)")
  have "list_all in_range p0" using found_range [OF _ f [unfolded founded]] by simp
  then have "list_all in_range p1" using first_generation_range [of p0 30 n0 h0] first by simp
  then have "list_all in_range p2"
    using later_generation_range [OF _ _ _ s [unfolded founded first second]] by simp
  then have "list_all in_range p3"
    using later_generation_range [OF _ _ _ t [unfolded second third]] by simp
  then have "list_all in_range fourth"
    using fourth_generation_range [OF _ q [unfolded third]] by simp
  then have "list_all in_range remaining" using a by (rule age_out_range)
  then show ?thesis using c by (rule corrupt_elites_range)
qed

lemma run_scenario_range:
  assumes "run_scenario p g = Some (res, final, g')"
  shows "list_all in_range final"
proof -
  from assms obtain population next_id h where
    b: "build_current_civilization 25 g = Some (population, next_id, h)"
    and l: "scenario_loop p population next_id h = Some (res, final, g')"
    by (auto simp: run_scenario_def split: option.splits)
  from scenario_loop_range [OF build_current_civilization_range [OF b], of p next_id h] l
  show ?thesis by simp
qed

section \<open>Coherence and trust through a run\<close>

text \<open>
  Claim C2. Coherence stays within \<open>[0.01, 1]\<close> and trust within \<open>[0, 1]\<close>:
  \<^verbatim>\<open>update_coherence\<close> clamps whatever the delta; one interaction, which always returns,
  takes two agents in range to two agents in range; the generation loop of either driver,
  started from a population in range, returns and leaves a population in range; the
  builders of v7 give populations in range, whatever \<^verbatim>\<open>random.gauss\<close> returns; and
  \<^verbatim>\<open>run_scenario\<close>, builder and loop, leaves a population in range whenever it returns.
\<close>

theorem coherence_and_trust_in_range:
  "0.01 \<le> s_star (update_coherence w delta) \<and> s_star (update_coherence w delta) \<le> 1 \<and>
   (in_range w1 \<and> in_range w2 \<longrightarrow>
      (\<exists>w1' w2' g'. interact_v5 w1 w2 noise scarcity polarization g = Some (w1', w2', g') \<and>
         in_range w1' \<and> in_range w2')) \<and>
   (in_range v1 \<and> in_range v2 \<longrightarrow>
      (\<exists>v1' v2' g'. interact_v7 v1 v2 noise scarcity polarization g = Some (v1', v2', g') \<and>
         in_range v1' \<and> in_range v2')) \<and>
   (list_all in_range population5 \<longrightarrow>
      (\<exists>res final g'. scenario_loop p5 population5 next_id g = Some (res, final, g') \<and>
         list_all in_range final)) \<and>
   (list_all in_range population7 \<longrightarrow>
      (\<exists>res final g'. run_simulation p7 population7 next_id g = Some (res, final, g') \<and>
         list_all in_range final)) \<and>
   list_all in_range (fst (build_declining_civilization gauss n_humans next_id g)) \<and>
   list_all in_range (fst (build_collapsed_civilization n_humans next_id g)) \<and>
   list_all in_range (final_population (run_scenario p5 g))"
proof (intro conjI impI)
  show "0.01 \<le> s_star (update_coherence w delta)" "s_star (update_coherence w delta) \<le> 1"
    by (simp_all add: update_coherence_def)
next
  assume a: "in_range w1 \<and> in_range w2"
  obtain w1' w2' g' where i: "interact_v5 w1 w2 noise scarcity polarization g = Some (w1', w2', g')"
    using interact_v5_total by blast
  with a interact_v5_range [of w1 w2 noise scarcity polarization g w1' w2' g']
  show "\<exists>w1' w2' g'. interact_v5 w1 w2 noise scarcity polarization g = Some (w1', w2', g') \<and>
         in_range w1' \<and> in_range w2'"
    by simp
next
  assume a: "in_range v1 \<and> in_range v2"
  obtain v1' v2' g' where i: "interact_v7 v1 v2 noise scarcity polarization g = Some (v1', v2', g')"
    using interact_v7_total by blast
  with a interact_v7_range [of v1 v2 noise scarcity polarization g v1' v2' g']
  show "\<exists>v1' v2' g'. interact_v7 v1 v2 noise scarcity polarization g = Some (v1', v2', g') \<and>
         in_range v1' \<and> in_range v2'"
    by simp
next
  assume "list_all in_range population5"
  then show "\<exists>res final g'. scenario_loop p5 population5 next_id g = Some (res, final, g') \<and>
         list_all in_range final"
    by (rule scenario_loop_range)
next
  assume "list_all in_range population7"
  then show "\<exists>res final g'. run_simulation p7 population7 next_id g = Some (res, final, g') \<and>
         list_all in_range final"
    by (rule run_simulation_range)
next
  show "list_all in_range (fst (build_declining_civilization gauss n_humans next_id g))"
    by (simp add: build_declining_civilization_def build_declining_loop_range)
  show "list_all in_range (fst (build_collapsed_civilization n_humans next_id g))"
    by (simp add: build_collapsed_civilization_def build_collapsed_loop_range)
  show "list_all in_range (final_population (run_scenario p5 g))"
    by (cases "run_scenario p5 g") (auto simp: final_population_def dest: run_scenario_range)
qed

theorem coherence_and_trust_in_range_witness:
  "(\<exists>w1' w2' g'. interact_v5 (new_whole_v5 0) (create_ai_v5 1 ''aggressive'') 0.15 0.2 0.3
        (sconst 0) = Some (w1', w2', g') \<and> in_range w1' \<and> in_range w2') \<and>
   (\<exists>v1' v2' g'. interact_v7 (create_awakened_human 0) (create_ai_v7 1 ''bridge'') 0.15 0.2 0.3
        (sconst 0) = Some (v1', v2', g') \<and> in_range v1' \<and> in_range v2') \<and>
   (\<exists>res final g'. scenario_loop
        \<lparr>p5_ai_type = Some ''bridge'', p5_n_ai = 30, p5_ai_entry_gen = 10, p5_generations = 50,
         p5_base_noise = 0.15, p5_base_scarcity = 0.2, p5_base_polarization = 0.3,
         p5_scarcity_growth = 0.01, p5_polarization_growth = 0.01\<rparr>
        [new_whole_v5 0, new_whole_v5 1, create_ai_v5 2 ''coherent''] 3 (sconst 0)
          = Some (res, final, g') \<and> list_all in_range final) \<and>
   (\<exists>res final g'. run_simulation
        \<lparr>p7_generations = 50, p7_noise = 0.15, p7_scarcity = 0.2, p7_polarization = 0.3,
         p7_add_bridge_ai = 10, p7_add_bridge_gen = 5, p7_add_awakened_humans = 3,
         p7_add_awakened_gen = 5, p7_gradual_ai_growth = False, p7_ai_growth_rate = 2\<rparr>
        [new_whole_v7 0, new_whole_v7 1, create_awakened_human 2] 3 (sconst 0)
          = Some (res, final, g') \<and> list_all in_range final)"
  using coherence_and_trust_in_range [of undefined 0
      "new_whole_v5 0" "create_ai_v5 1 ''aggressive''" "0.15" "0.2" "0.3" "sconst 0"
      "create_awakened_human 0" "create_ai_v7 1 ''bridge''"
      "[new_whole_v5 0, new_whole_v5 1, create_ai_v5 2 ''coherent'']"
      "\<lparr>p5_ai_type = Some ''bridge'', p5_n_ai = 30, p5_ai_entry_gen = 10, p5_generations = 50,
         p5_base_noise = 0.15, p5_base_scarcity = 0.2, p5_base_polarization = 0.3,
         p5_scarcity_growth = 0.01, p5_polarization_growth = 0.01\<rparr>" 3
      "[new_whole_v7 0, new_whole_v7 1, create_awakened_human 2]"
      "\<lparr>p7_generations = 50, p7_noise = 0.15, p7_scarcity = 0.2, p7_polarization = 0.3,
         p7_add_bridge_ai = 10, p7_add_bridge_gen = 5, p7_add_awakened_humans = 3,
         p7_add_awakened_gen = 5, p7_gradual_ai_growth = False, p7_ai_growth_rate = 2\<rparr>"
      "\<lambda>mu sigma h. (mu, h)" 2]
  by (simp add: new_whole_range create_ai_v5_range create_ai_v7_range
      create_awakened_human_range; blast)

section \<open>The counters\<close>

lemma payoff_v5_counts:
  "payoff_v5 a1 a2 sc pen w1 w2 = (d1, d2, o1, o2, x1, x2) \<Longrightarrow>
   interactions x1 = interactions w1 \<and> interactions x2 = interactions w2 \<and>
   (cooperations x1 = cooperations w1 + 1 \<and> defections x1 = defections w1 \<or>
    cooperations x1 = cooperations w1 \<and> defections x1 = defections w1 + 1) \<and>
   (cooperations x2 = cooperations w2 + 1 \<and> defections x2 = defections w2 \<or>
    cooperations x2 = cooperations w2 \<and> defections x2 = defections w2 + 1)"
  by (auto simp: payoff_v5_def Let_def updaters split: if_splits)

lemma payoff_v7_counts:
  "payoff_v7 a1 a2 sc pen w1 w2 = (d1, d2, o1, o2, x1, x2) \<Longrightarrow>
   interactions x1 = interactions w1 \<and> interactions x2 = interactions w2 \<and>
   (cooperations x1 = cooperations w1 + 1 \<and> defections x1 = defections w1 \<or>
    cooperations x1 = cooperations w1 \<and> defections x1 = defections w1 + 1) \<and>
   (cooperations x2 = cooperations w2 + 1 \<and> defections x2 = defections w2 \<or>
    cooperations x2 = cooperations w2 \<and> defections x2 = defections w2 + 1)"
  by (auto simp: payoff_v7_def Let_def updaters split: if_splits)

lemma settle_counts:
  "settle a1 a2 (d1, d2, o1, o2, x1, x2) = Some (s1, s2) \<Longrightarrow>
   interactions s1 = interactions x1 + 1 \<and> cooperations s1 = cooperations x1 \<and>
   defections s1 = defections x1 \<and>
   interactions s2 = interactions x2 + 1 \<and> cooperations s2 = cooperations x2 \<and>
   defections s2 = defections x2"
  by (auto simp: settle_def learn_def update_coherence_def Let_def
      split: bind_splits option.splits)

lemma receive_teaching_v5_counts: "same_counters s (receive_teaching_v5 s t)"
  by (simp add: receive_teaching_v5_def same_counters_def)

lemma receive_teaching_v7_counts:
  "receive_teaching_v7 s t g = (s', g') \<Longrightarrow> same_counters s s'"
  by (auto simp: receive_teaching_v7_def same_counters_def Let_def split: if_splits prod.splits)

lemma teach_v5_counts:
  "teach_v5 a1 a2 s1 s2 = (t1, t2) \<Longrightarrow> same_counters s1 t1 \<and> same_counters s2 t2"
  by (auto simp: teach_v5_def receive_teaching_v5_def same_counters_def Let_def
      split: if_splits)

lemma teach_v7_counts:
  "teach_v7 a1 a2 s1 s2 g = (t1, t2, g') \<Longrightarrow> same_counters s1 t1 \<and> same_counters s2 t2"
  by (auto simp: teach_v7_def same_counters_def split: if_splits prod.splits
      dest!: receive_teaching_v7_counts)

lemma init_recent_counts:
  "interactions (init_recent w) = interactions w"
  "cooperations (init_recent w) = cooperations w"
  "defections (init_recent w) = defections w"
  by (simp_all add: init_recent_def split: option.splits)

lemma interact_v5_counts:
  assumes "interact_v5 w1 w2 n sc pl g = Some (w1', w2', g')"
  shows "counted_once w1 w1' \<and> counted_once w2 w2'"
proof -
  from assms obtain a1 a2 pen d1 d2 o1 o2 x1 x2 s1 s2 where
    pay: "payoff_v5 a1 a2 sc pen (init_recent w1) (init_recent w2) = (d1, d2, o1, o2, x1, x2)"
    and s: "settle a1 a2 (d1, d2, o1, o2, x1, x2) = Some (s1, s2)"
    and t: "teach_v5 a1 a2 s1 s2 = (w1', w2')"
    by (rule interact_v5_stages)
  from payoff_v5_counts [OF pay] settle_counts [OF s] teach_v5_counts [OF t]
  show ?thesis
    by (simp add: counted_once_def same_counters_def init_recent_counts)
qed

lemma interact_v7_counts:
  assumes "interact_v7 w1 w2 n sc pl g = Some (w1', w2', g')"
  shows "counted_once w1 w1' \<and> counted_once w2 w2'"
proof -
  from assms obtain a1 a2 g3 pen d1 d2 o1 o2 x1 x2 s1 s2 where
    pay: "payoff_v7 a1 a2 sc pen (init_recent w1) (init_recent w2) = (d1, d2, o1, o2, x1, x2)"
    and s: "settle a1 a2 (d1, d2, o1, o2, x1, x2) = Some (s1, s2)"
    and t: "teach_v7 a1 a2 s1 s2 g3 = (w1', w2', g')"
    by (rule interact_v7_stages)
  from payoff_v7_counts [OF pay] settle_counts [OF s] teach_v7_counts [OF t]
  show ?thesis
    by (simp add: counted_once_def same_counters_def init_recent_counts)
qed

lemma counted_once_consistent:
  "counters_consistent w \<Longrightarrow> counted_once w w' \<Longrightarrow> counters_consistent w'"
  by (auto simp: counters_consistent_def counted_once_def)

lemma new_whole_consistent:
  "counters_consistent (new_whole_v5 i)" "counters_consistent (new_whole_v7 i)"
  by (simp_all add: counters_consistent_def new_whole_v5_def new_whole_v7_def)

lemma consistent_frame [simp]:
  "counters_consistent (w\<lparr>scars := ss\<rparr>) = counters_consistent w"
  "counters_consistent (w\<lparr>isolated := b\<rparr>) = counters_consistent w"
  "counters_consistent (w\<lparr>corrupted := b\<rparr>) = counters_consistent w"
  "counters_consistent (w\<lparr>crucible_tested := b\<rparr>) = counters_consistent w"
  "counters_consistent (w\<lparr>s_star := s\<rparr>) = counters_consistent w"
  "counters_consistent (w\<lparr>trust_in_institutions := t\<rparr>) = counters_consistent w"
  by (simp_all add: counters_consistent_def)

lemma create_ai_consistent:
  "counters_consistent (create_ai_v5 i t)" "counters_consistent (create_ai_v7 i t)"
  by (simp_all add: create_ai_v5_def create_ai_v7_def create_ai_def Let_def
      counters_consistent_def new_whole_v5_def new_whole_v7_def)

lemma create_awakened_human_consistent: "counters_consistent (create_awakened_human i)"
  by (simp add: create_awakened_human_def counters_consistent_def new_whole_v7_def)

lemma create_human_v5_zero:
  "create_human_v5 i gen trust g = (w, g') \<Longrightarrow>
   interactions w = 0 \<and> cooperations w = 0 \<and> defections w = 0"
  by (auto simp: create_human_v5_def new_whole_v5_def split: prod.splits)

lemma create_human_v7_zero:
  "create_human_v7 i trust bubble g = (w, g') \<Longrightarrow>
   interactions w = 0 \<and> cooperations w = 0 \<and> defections w = 0"
  by (auto simp: create_human_v7_def new_whole_v7_def split: prod.splits)

lemma create_human_consistent:
  "create_human_v5 i gen trust g = (w5, g') \<Longrightarrow> counters_consistent w5"
  "create_human_v7 i trust bubble g = (w7, g') \<Longrightarrow> counters_consistent w7"
  by (auto simp: counters_consistent_def dest: create_human_v5_zero create_human_v7_zero)

section \<open>Newborn agents\<close>

lemma last_n_length: "length (last_n k xs) \<le> k"
  by (simp add: last_n_def)

lemma inherit_scars_length:
  "inherit_scars rate factor xs g = (inh, g') \<Longrightarrow> length inh \<le> length xs"
  by (induction xs arbitrary: g inh g') (fastforce split: prod.splits if_splits)+

lemma inherited_length:
  "inherit_scars rate factor (last_n k xs) g = (inh, g') \<Longrightarrow> length inh \<le> k"
  using inherit_scars_length [of rate factor "last_n k xs" g inh g'] last_n_length [of k xs]
  by simp

lemma random_scars_length: "random_scars n g = (ss, g') \<Longrightarrow> length ss = n"
  by (induction n arbitrary: g ss g') (fastforce split: prod.splits)+

lemma create_human_v5_newborn:
  "create_human_v5 i gen trust g = (w, g') \<Longrightarrow> length ss \<le> 20 \<Longrightarrow>
   newborn (w\<lparr>scars := scars w @ ss, isolated := b\<rparr>) \<and>
   newborn (w\<lparr>scars := scars w @ ss\<rparr>) \<and> newborn w"
  by (auto simp: create_human_v5_def new_whole_v5_def newborn_def split: prod.splits)

lemma create_human_v7_newborn:
  "create_human_v7 i trust bubble g = (w, g') \<Longrightarrow> length ss \<le> 20 \<Longrightarrow>
   newborn (w\<lparr>scars := scars w @ ss\<rparr>) \<and> newborn w \<and> scars w = []"
  by (auto simp: create_human_v7_def new_whole_v7_def newborn_def split: prod.splits)

lemma create_ai_newborn: "newborn (create_ai_v5 i t)" "newborn (create_ai_v7 i t)"
  by (simp_all add: create_ai_v5_def create_ai_v7_def create_ai_def Let_def newborn_def
      new_whole_v5_def new_whole_v7_def training_scars_def)

lemma create_awakened_human_newborn: "newborn (create_awakened_human i)"
  by (simp add: create_awakened_human_def newborn_def new_whole_v7_def)

lemma births_v7_keeps:
  assumes nb: "\<forall>w :: Whole_v7. newborn w \<longrightarrow> Q w"
  shows "list_all Q population \<Longrightarrow>
         list_all Q (fst (births_v7 n parents (population, next_id, g)))"
proof (induction parents arbitrary: population next_id g)
  case Nil
  then show ?case by simp
next
  case (Cons parent rest)
  obtain u g1 where u: "random_random g = (u, g1)" by (cases "random_random g")
  show ?case
  proof (cases "u < s_star parent * 0.25 \<and> n < 200")
    case False
    with u Cons show ?thesis by auto
  next
    case True
    obtain ui g2 where ui: "random_random g1 = (ui, g2)" by (cases "random_random g1")
    let ?trust = "max 0.1 (trust_in_institutions parent * 0.9)"
    obtain child g3 where c: "create_human_v7 next_id ?trust (ui < 0.3) g2 = (child, g3)"
      by (cases "create_human_v7 next_id ?trust (ui < 0.3) g2")
    obtain inh g4 where i: "inherit_scars (if better_inheritance parent then 0.5 else 0.3) 0.6
        (last_n 8 (scars parent)) g3 = (inh, g4)"
      by (cases "inherit_scars (if better_inheritance parent then 0.5 else 0.3) 0.6
        (last_n 8 (scars parent)) g3")
    from inherited_length [OF i] have "length inh \<le> 20" by simp
    from create_human_v7_newborn [OF c this] nb
    have "Q (child\<lparr>scars := scars child @ inh\<rparr>)" by blast
    then have "list_all Q (population @ [child\<lparr>scars := scars child @ inh\<rparr>])"
      using Cons.prems(1) by simp
    from Cons.IH [OF this, of "next_id + 1" g4] True u ui c i
    show ?thesis by simp
  qed
qed

lemma births_v5_keeps:
  assumes nb: "\<forall>w :: Whole_v5. newborn w \<longrightarrow> Q w"
  shows "list_all Q population \<Longrightarrow>
         list_all Q (fst (births_v5 gen pct n parents (population, next_id, g)))"
proof (induction parents arbitrary: population next_id g)
  case Nil
  then show ?case by simp
next
  case (Cons parent rest)
  obtain u g1 where u: "random_random g = (u, g1)" by (cases "random_random g")
  show ?case
  proof (cases "u < s_star parent * 0.3 \<and> n < 200")
    case False
    with u Cons show ?thesis by auto
  next
    case True
    let ?trust = "max 0.1 (trust_in_institutions parent - 0.05)"
    obtain child g2 where c: "create_human_v5 next_id gen ?trust g1 = (child, g2)"
      by (cases "create_human_v5 next_id gen ?trust g1")
    obtain inh g3 where i: "inherit_scars 0.4 0.5 (last_n 10 (scars parent)) g2 = (inh, g3)"
      by (cases "inherit_scars 0.4 0.5 (last_n 10 (scars parent)) g2")
    obtain ui g4 where ui: "random_random g3 = (ui, g4)" by (cases "random_random g3")
    define born where "born = child\<lparr>scars := scars child @ inh,
        isolated := (if ui < pct + 0.1 then True else isolated child)\<rparr>"
    from inherited_length [OF i] have "length inh \<le> 20" by simp
    from create_human_v5_newborn [OF c this] nb have "Q born" unfolding born_def by blast
    then have "list_all Q (population @ [born])" using Cons.prems(1) by simp
    from Cons.IH [OF this, of "next_id + 1" g4] True u ui c i
    show ?thesis by (simp add: born_def)
  qed
qed

text \<open>
  What every interaction keeps and every newborn has, the generation loops keep.
\<close>

lemma run_simulation_keeps:
  assumes "\<forall>w1 w2 n sc pl h w1' w2' h'. Q w1 \<longrightarrow> Q w2 \<longrightarrow>
      interact_v7 w1 w2 n sc pl h = Some (w1', w2', h') \<longrightarrow> Q w1' \<and> Q w2'"
    and nb: "\<forall>w :: Whole_v7. newborn w \<longrightarrow> Q w"
    and "list_all Q population"
  shows "\<exists>res final g'. run_simulation p population next_id g = Some (res, final, g') \<and>
           list_all Q final"
  unfolding run_simulation_def
proof (rule generations_v7_keeps [OF _ _ _ _ assms(3)])
  show "\<forall>w1 w2 h w1' w2' h'. Q w1 \<longrightarrow> Q w2 \<longrightarrow>
      interact_v7 w1 w2 (p7_noise p) (p7_scarcity p) (p7_polarization p) h = Some (w1', w2', h')
      \<longrightarrow> Q w1' \<and> Q w2'"
    using assms(1) by blast
  show "\<forall>i. Q (create_ai_v7 i ''bridge'')" using nb create_ai_newborn by blast
  show "\<forall>i. Q (create_awakened_human i)" using nb create_awakened_human_newborn by blast
  show "\<forall>n parents pop nid h. list_all Q pop \<longrightarrow> list_all Q parents \<longrightarrow>
      list_all Q (fst (births_v7 n parents (pop, nid, h)))"
    using births_v7_keeps [OF nb] by blast
qed

lemma scenario_loop_keeps:
  assumes "\<forall>n sc pl w1 w2 h w1' w2' h'. Q w1 \<longrightarrow> Q w2 \<longrightarrow>
      interact_v5 w1 w2 n sc pl h = Some (w1', w2', h') \<longrightarrow> Q w1' \<and> Q w2'"
    and nb: "\<forall>w :: Whole_v5. newborn w \<longrightarrow> Q w"
    and "list_all Q population"
  shows "\<exists>res final g'. scenario_loop p population next_id g = Some (res, final, g') \<and>
           list_all Q final"
  unfolding scenario_loop_def
proof (rule generations_v5_keeps [OF assms(1) _ _ assms(3)])
  show "\<forall>i t. Q (create_ai_v5 i t)" using nb create_ai_newborn by blast
  show "\<forall>gen pct n parents pop nid h. list_all Q pop \<longrightarrow> list_all Q parents \<longrightarrow>
      list_all Q (fst (births_v5 gen pct n parents (pop, nid, h)))"
    using births_v5_keeps [OF nb] by blast
qed


section \<open>What the builders keep\<close>

lemma build_collapsed_loop_keeps:
  assumes nb: "\<forall>w :: Whole_v7. newborn w \<longrightarrow> Q w"
  shows "list_all Q population \<Longrightarrow>
         list_all Q (fst (build_collapsed_loop n (population, next_id, g)))"
proof (induction n arbitrary: population next_id g)
  case 0
  then show ?case by simp
next
  case (Suc n)
  obtain ui g1 where ui: "random_random g = (ui, g1)" by (cases "random_random g")
  obtain w g2 where w: "create_human_v7 next_id 0.2 (ui < 0.6) g1 = (w, g2)"
    by (cases "create_human_v7 next_id 0.2 (ui < 0.6) g1")
  obtain s g3 where s: "random_uniform 0.15 0.4 g2 = (s, g3)"
    by (cases "random_uniform 0.15 0.4 g2")
  obtain ut g4 where ut: "random_random g3 = (ut, g4)" by (cases "random_random g3")
  define born where "born = w\<lparr>s_star := s,
      scars := (if ut < 0.1
                then scars w @ [new_scar ''defect'' ''defect'' ''survived'' 0.5 ''trauma'']
                else scars w)\<rparr>"
  from create_human_v7_newborn [OF w, of "[]"] have "newborn born"
    by (simp add: born_def newborn_def)
  with nb have "Q born" by blast
  then have "list_all Q (population @ [born])" using Suc.prems by simp
  from Suc.IH [OF this, of "next_id + 1" g4] ui w s ut show ?case by (simp add: born_def)
qed

lemma build_declining_loop_keeps:
  assumes nb: "\<forall>w :: Whole_v7. newborn w \<longrightarrow> Q w"
  shows "list_all Q population \<Longrightarrow>
         list_all Q (fst (build_declining_loop gauss n (population, next_id, g)))"
proof (induction n arbitrary: population next_id g)
  case 0
  then show ?case by simp
next
  case (Suc n)
  obtain t g1 where t: "gauss 0.35 0.15 g = (t, g1)" by (cases "gauss 0.35 0.15 g")
  obtain ui g2 where ui: "random_random g1 = (ui, g2)" by (cases "random_random g1")
  obtain w g3 where w: "create_human_v7 next_id (max 0.1 (min 0.8 t)) (ui < 0.4) g2 = (w, g3)"
    by (cases "create_human_v7 next_id (max 0.1 (min 0.8 t)) (ui < 0.4) g2")
  obtain k g4 where k: "randbelow 6 g3 = (k, g4)" by (cases "randbelow 6 g3")
  obtain ss g5 where ss: "random_scars k g4 = (ss, g5)" by (cases "random_scars k g4")
  obtain uc g6 where uc: "random_random g5 = (uc, g6)" by (cases "random_random g5")
  define born where "born = w\<lparr>scars := scars w @ ss,
      corrupted := (if uc < 0.05 then True else corrupted w)\<rparr>"
  have "k < 6" using k by (auto intro: randbelow_less)
  with random_scars_length [OF ss] have "length ss \<le> 20" by simp
  from create_human_v7_newborn [OF w this] have "newborn born"
    by (simp add: born_def newborn_def)
  with nb have "Q born" by blast
  then have "list_all Q (population @ [born])" using Suc.prems by simp
  from Suc.IH [OF this, of "next_id + 1" g6] t ui w k ss uc show ?case by (simp add: born_def)
qed

lemma run_1v1_crucible_keeps:
  assumes step: "\<forall>n sc pl w1 w2 h w1' w2' h'. Q w1 \<longrightarrow> Q w2 \<longrightarrow>
      interact_v5 w1 w2 n sc pl h = Some (w1', w2', h') \<longrightarrow> Q w1' \<and> Q w2'"
    and tested: "\<forall>w :: Whole_v5. Q w \<longrightarrow> Q (w\<lparr>crucible_tested := True\<rparr>)"
  shows "Q w1 \<Longrightarrow> Q w2 \<Longrightarrow> run_1v1_crucible rounds w1 w2 g = Some (survivors, g') \<Longrightarrow>
         list_all Q survivors"
proof (induction rounds arbitrary: w1 w2 g)
  case 0
  with tested show ?case by auto
next
  case (Suc rounds)
  obtain x1 x2 h where i: "interact_v5 w1 w2 0 0 0 g = Some (x1, x2, h)"
    using interact_v5_total by blast
  from step [rule_format, OF Suc.prems(1,2) i] have x: "Q x1" "Q x2" by auto
  show ?case
  proof (cases "is_viable x1 \<and> is_viable x2")
    case True
    with Suc.prems(3) i have "run_1v1_crucible rounds x1 x2 h = Some (survivors, g')" by simp
    from Suc.IH [OF x this] show ?thesis .
  next
    case False
    with Suc.prems(3) i x tested show ?thesis by (auto split: if_splits)
  qed
qed

lemma found_keeps:
  assumes step: "\<forall>n sc pl w1 w2 h w1' w2' h'. Q w1 \<longrightarrow> Q w2 \<longrightarrow>
      interact_v5 w1 w2 n sc pl h = Some (w1', w2', h') \<longrightarrow> Q w1' \<and> Q w2'"
    and tested: "\<forall>w :: Whole_v5. Q w \<longrightarrow> Q (w\<lparr>crucible_tested := True\<rparr>)"
    and nb: "\<forall>w :: Whole_v5. newborn w \<longrightarrow> Q w"
  shows "list_all Q founders \<Longrightarrow> found n (founders, next_id, g) = Some (population, nid, g') \<Longrightarrow>
         list_all Q population"
proof (induction n arbitrary: founders next_id g)
  case 0
  then show ?case by simp
next
  case (Suc n)
  let ?w1 = "(new_whole_v5 next_id)\<lparr>trust_in_institutions := 0.7\<rparr>"
  let ?w2 = "(new_whole_v5 (next_id + 1))\<lparr>trust_in_institutions := 0.7\<rparr>"
  from Suc.prems(2) obtain survivors h where
    c: "run_1v1_crucible 50 ?w1 ?w2 g = Some (survivors, h)"
    and f: "found n (founders @ survivors, next_id + 2, h) = Some (population, nid, g')"
    by (auto split: option.splits)
  have "newborn ?w1" "newborn ?w2" by (simp_all add: newborn_def new_whole_v5_def)
  with nb have "Q ?w1" "Q ?w2" by blast+
  from run_1v1_crucible_keeps [OF step tested this c] Suc.prems(1)
  have "list_all Q (founders @ survivors)" by simp
  from Suc.IH [OF this f] show ?case .
qed

lemma first_generation_keeps:
  assumes nb: "\<forall>w :: Whole_v5. newborn w \<longrightarrow> Q w"
  shows "list_all Q population \<Longrightarrow>
         list_all Q (fst (first_generation n (population, next_id, g)))"
proof (induction n arbitrary: population next_id g)
  case 0
  then show ?case by simp
next
  case (Suc n)
  show ?case
  proof (cases "population = []")
    case True
    with Suc show ?thesis by simp
  next
    case False
    define candidates where "candidates =
      (if filter crucible_tested population \<noteq> [] then filter crucible_tested population
       else population)"
    obtain k g1 where k: "randbelow (length candidates) g = (k, g1)"
      by (cases "randbelow (length candidates) g")
    obtain child g2 where c: "create_human_v5 next_id 1 0.6 g1 = (child, g2)"
      by (cases "create_human_v5 next_id 1 0.6 g1")
    obtain inh g3 where i: "inherit_scars 0.8 0.8 (last_n 20 (scars (candidates ! k))) g2
        = (inh, g3)"
      by (cases "inherit_scars 0.8 0.8 (last_n 20 (scars (candidates ! k))) g2")
    from create_human_v5_newborn [OF c inherited_length [OF i]] nb
    have "Q (child\<lparr>scars := scars child @ inh\<rparr>)" by blast
    then have "list_all Q (population @ [child\<lparr>scars := scars child @ inh\<rparr>])"
      using Suc.prems by simp
    from Suc.IH [OF this, of "next_id + 1" g3] False k c i
    show ?thesis by (simp add: Let_def candidates_def)
  qed
qed

lemma later_generation_keeps:
  assumes nb: "\<forall>w :: Whole_v5. newborn w \<longrightarrow> Q w" and m: "m \<le> 20"
  shows "list_all Q population \<Longrightarrow>
         later_generation gen trust m rate isolation n (population, next_id, g)
           = Some (population', nid, g') \<Longrightarrow>
         list_all Q population'"
proof (induction n arbitrary: population next_id g)
  case 0
  then show ?case by simp
next
  case (Suc n)
  from Suc.prems(2) have ne: "population \<noteq> []" by (auto split: if_splits)
  obtain k g1 where k: "randbelow (length population) g = (k, g1)"
    by (cases "randbelow (length population) g")
  obtain child g2 where c: "create_human_v5 next_id gen trust g1 = (child, g2)"
    by (cases "create_human_v5 next_id gen trust g1")
  obtain inh g3 where i: "inherit_scars rate rate (last_n m (scars (population ! k))) g2
      = (inh, g3)"
    by (cases "inherit_scars rate rate (last_n m (scars (population ! k))) g2")
  obtain bubble g4 where b: "(case isolation of None \<Rightarrow> (False, g3)
      | Some chance \<Rightarrow> (case random_random g3 of (ui, g4) \<Rightarrow> (ui < chance, g4))) = (bubble, g4)"
    by (cases "(case isolation of None \<Rightarrow> (False, g3)
      | Some chance \<Rightarrow> (case random_random g3 of (ui, g4) \<Rightarrow> (ui < chance, g4)))")
  let ?pop = "population @ [child\<lparr>scars := scars child @ inh,
      isolated := (if bubble then True else isolated child)\<rparr>]"
  from inherited_length [OF i] m have "length inh \<le> 20" by simp
  from create_human_v5_newborn [OF c this] nb
  have "Q (child\<lparr>scars := scars child @ inh,
      isolated := (if bubble then True else isolated child)\<rparr>)"
    by blast
  then have p: "list_all Q ?pop" using Suc.prems(1) by simp
  from Suc.prems(2) ne k c i b
  have "later_generation gen trust m rate isolation n (?pop, next_id + 1, g4)
      = Some (population', nid, g')"
    by simp
  from Suc.IH [OF p this] show ?case .
qed

lemma fourth_generation_keeps:
  assumes nb: "\<forall>w :: Whole_v5. newborn w \<longrightarrow> Q w"
  shows "list_all Q population \<Longrightarrow>
         fourth_generation n (population, next_id, g) = Some (population', nid, g') \<Longrightarrow>
         list_all Q population'"
proof (induction n arbitrary: population next_id g)
  case 0
  then show ?case by simp
next
  case (Suc n)
  from Suc.prems(2) have ne: "population \<noteq> []" by (auto split: if_splits)
  obtain k g1 where k: "randbelow (length population) g = (k, g1)"
    by (cases "randbelow (length population) g")
  obtain child g2 where c: "create_human_v5 next_id 4 0.25 g1 = (child, g2)"
    by (cases "create_human_v5 next_id 4 0.25 g1")
  obtain us g3 where us: "random_random g2 = (us, g3)" by (cases "random_random g2")
  obtain ui g4 where ui: "random_random g3 = (ui, g4)" by (cases "random_random g3")
  define born where "born = child\<lparr>scars :=
      (if us < 0.1
       then scars child @
         map (\<lambda>scar. new_scar (other_strategy scar) (my_response scar)
                (outcome scar) (weight scar * 0.2) ''inherited'')
           (last_n 3 (scars (population ! k)))
       else scars child),
      isolated := (if ui < 0.5 then True else isolated child)\<rparr>"
  have "newborn born"
    using c last_n_length [of 3 "scars (population ! k)"]
    by (auto simp: born_def newborn_def create_human_v5_def new_whole_v5_def
        split: prod.splits)
  with nb have "Q born" by blast
  then have p: "list_all Q (population @ [born])" using Suc.prems(1) by simp
  from Suc.prems(2) ne k c us ui
  have "fourth_generation n (population @ [born], next_id + 1, g4) = Some (population', nid, g')"
    by (simp add: born_def)
  from Suc.IH [OF p this] show ?case .
qed

lemma age_out_keeps:
  "list_all Q population \<Longrightarrow> age_out population g = Some (remaining, g') \<Longrightarrow>
   list_all Q remaining"
  by (auto simp: age_out_def Let_def list_all_iff split: if_splits prod.splits)

lemma corrupting_keeps:
  assumes "\<forall>w :: Whole_v5. Q w \<longrightarrow> Q (w\<lparr>corrupted := True\<rparr>)"
  shows "list_all Q population \<Longrightarrow>
   list_all Q (fold (\<lambda>i pop. pop[i := (pop ! i)\<lparr>corrupted := True\<rparr>]) chosen population)"
proof (induction chosen arbitrary: population)
  case Nil
  then show ?case by simp
next
  case (Cons i chosen)
  have "list_all Q (population[i := (population ! i)\<lparr>corrupted := True\<rparr>])"
  proof (cases "i < length population")
    case True
    with Cons.prems have "Q (population ! i)" by (simp add: list_all_length)
    with assms have "Q ((population ! i)\<lparr>corrupted := True\<rparr>)" by blast
    with Cons.prems show ?thesis by (intro list_all_update)
  next
    case False
    with Cons.prems show ?thesis by (simp add: list_update_beyond)
  qed
  from Cons.IH [OF this] show ?case by simp
qed

lemma corrupt_elites_keeps:
  assumes "\<forall>w :: Whole_v5. Q w \<longrightarrow> Q (w\<lparr>corrupted := True\<rparr>)"
  shows "list_all Q population \<Longrightarrow> corrupt_elites population g = Some (population', g') \<Longrightarrow>
         list_all Q population'"
  by (auto simp: corrupt_elites_def Let_def split: if_splits prod.splits
      intro: corrupting_keeps [OF assms])

lemma build_current_civilization_keeps:
  assumes step: "\<forall>n sc pl w1 w2 h w1' w2' h'. Q w1 \<longrightarrow> Q w2 \<longrightarrow>
      interact_v5 w1 w2 n sc pl h = Some (w1', w2', h') \<longrightarrow> Q w1' \<and> Q w2'"
    and tested: "\<forall>w :: Whole_v5. Q w \<longrightarrow> Q (w\<lparr>crucible_tested := True\<rparr>)"
    and corrupt: "\<forall>w :: Whole_v5. Q w \<longrightarrow> Q (w\<lparr>corrupted := True\<rparr>)"
    and nb: "\<forall>w :: Whole_v5. newborn w \<longrightarrow> Q w"
    and b: "build_current_civilization n_pairs g = Some (population, next_id, g')"
  shows "list_all Q population"
proof -
  from b obtain founded second third fourth nid4 g4 remaining g5 where
    f: "found (nat n_pairs) ([], 0, g) = Some founded"
    and s: "later_generation 2 0.5 10 0.5 None 40 (first_generation 30 founded) = Some second"
    and t: "later_generation 3 0.35 5 0.3 (Some 0.3) 50 second = Some third"
    and q: "fourth_generation 60 third = Some (fourth, nid4, g4)"
    and a: "age_out fourth g4 = Some (remaining, g5)"
    and c: "corrupt_elites remaining g5 = Some (population, g')"
    by (auto simp: build_current_civilization_def split: bind_splits prod.splits)
  obtain p0 n0 h0 where founded: "founded = (p0, n0, h0)" by (cases founded)
  obtain p2 n2 h2 where second: "second = (p2, n2, h2)" by (cases second)
  obtain p3 n3 h3 where third: "third = (p3, n3, h3)" by (cases third)
  obtain p1 n1 h1 where first: "first_generation 30 (p0, n0, h0) = (p1, n1, h1)"
    by (cases "first_generation 30 (p0, n0, h0)")
  have "list_all Q p0" using found_keeps [OF step tested nb _ f [unfolded founded]] by simp
  then have "list_all Q p1" using first_generation_keeps [OF nb, of p0 30 n0 h0] first by simp
  then have "list_all Q p2"
    using later_generation_keeps [OF nb _ _ s [unfolded founded first second]] by simp
  then have "list_all Q p3"
    using later_generation_keeps [OF nb _ _ t [unfolded second third]] by simp
  then have "list_all Q fourth"
    using fourth_generation_keeps [OF nb _ q [unfolded third]] by simp
  then have "list_all Q remaining" using a by (rule age_out_keeps)
  then show ?thesis using c by (rule corrupt_elites_keeps [OF corrupt])
qed

lemma run_scenario_keeps:
  assumes step: "\<forall>n sc pl w1 w2 h w1' w2' h'. Q w1 \<longrightarrow> Q w2 \<longrightarrow>
      interact_v5 w1 w2 n sc pl h = Some (w1', w2', h') \<longrightarrow> Q w1' \<and> Q w2'"
    and tested: "\<forall>w :: Whole_v5. Q w \<longrightarrow> Q (w\<lparr>crucible_tested := True\<rparr>)"
    and corrupt: "\<forall>w :: Whole_v5. Q w \<longrightarrow> Q (w\<lparr>corrupted := True\<rparr>)"
    and nb: "\<forall>w :: Whole_v5. newborn w \<longrightarrow> Q w"
  shows "list_all Q (final_population (run_scenario p g))"
proof (cases "run_scenario p g")
  case None
  then show ?thesis by (simp add: final_population_def)
next
  case (Some r)
  obtain res final g' where r: "r = (res, final, g')" by (cases r)
  from Some r obtain population next_id h where
    b: "build_current_civilization 25 g = Some (population, next_id, h)"
    and l: "scenario_loop p population next_id h = Some (res, final, g')"
    by (auto simp: run_scenario_def split: option.splits)
  from scenario_loop_keeps [OF step nb
      build_current_civilization_keeps [OF step tested corrupt nb b], of p next_id h] l
  have "list_all Q final" by simp
  with Some r show ?thesis by (simp add: final_population_def)
qed

section \<open>The counters through a run\<close>

lemma interact_keeps_consistent:
  "\<forall>n sc pl w1 w2 h w1' w2' h'. counters_consistent w1 \<longrightarrow> counters_consistent w2 \<longrightarrow>
      interact_v5 w1 w2 n sc pl h = Some (w1', w2', h') \<longrightarrow>
      counters_consistent w1' \<and> counters_consistent w2'"
  "\<forall>v1 v2 n sc pl h v1' v2' h'. counters_consistent v1 \<longrightarrow> counters_consistent v2 \<longrightarrow>
      interact_v7 v1 v2 n sc pl h = Some (v1', v2', h') \<longrightarrow>
      counters_consistent v1' \<and> counters_consistent v2'"
  by (blast dest: interact_v5_counts interact_v7_counts intro: counted_once_consistent)+

lemma newborn_consistent: "newborn w \<Longrightarrow> counters_consistent w"
  by (simp add: newborn_def counters_consistent_def)

text \<open>
  Claim C10. Every interaction returns, and counts once for each participant: the
  interaction counter and exactly one of the cooperation and defection counters go up by
  one. Teaching leaves the three counters alone, and every agent the creators make starts
  with all three at zero. So \<open>interactions = cooperations + defections\<close> holds of every
  agent the builders give, and the generation loop of either driver, births and deaths
  included, keeps it for the whole population.
\<close>

theorem counters_stay_consistent:
  "(\<exists>w1' w2' g'. interact_v5 w1 w2 noise scarcity polarization g = Some (w1', w2', g') \<and>
      counted_once w1 w1' \<and> counted_once w2 w2') \<and>
   (\<exists>v1' v2' g'. interact_v7 v1 v2 noise scarcity polarization g = Some (v1', v2', g') \<and>
      counted_once v1 v1' \<and> counted_once v2 v2') \<and>
   same_counters w1 (receive_teaching_v5 w1 w2) \<and>
   same_counters v1 (fst (receive_teaching_v7 v1 v2 g)) \<and>
   newborn (fst (create_human_v5 i gen trust g)) \<and>
   newborn (fst (create_human_v7 i trust bubble g)) \<and>
   newborn (create_ai_v5 i t) \<and> newborn (create_ai_v7 i t) \<and>
   newborn (create_awakened_human i) \<and>
   (list_all counters_consistent population5 \<longrightarrow>
      (\<exists>res final g'. scenario_loop p5 population5 next_id g = Some (res, final, g') \<and>
         list_all counters_consistent final)) \<and>
   (list_all counters_consistent population7 \<longrightarrow>
      (\<exists>res final g'. run_simulation p7 population7 next_id g = Some (res, final, g') \<and>
         list_all counters_consistent final)) \<and>
   list_all counters_consistent (fst (build_declining_civilization gauss n_humans next_id g)) \<and>
   list_all counters_consistent (fst (build_collapsed_civilization n_humans next_id g)) \<and>
   list_all counters_consistent (final_population (run_scenario p5 g))"
proof (intro conjI impI)
  obtain w1' w2' g' where "interact_v5 w1 w2 noise scarcity polarization g = Some (w1', w2', g')"
    using interact_v5_total by blast
  with interact_v5_counts
  show "\<exists>w1' w2' g'. interact_v5 w1 w2 noise scarcity polarization g = Some (w1', w2', g') \<and>
      counted_once w1 w1' \<and> counted_once w2 w2'"
    by blast
next
  obtain v1' v2' g' where "interact_v7 v1 v2 noise scarcity polarization g = Some (v1', v2', g')"
    using interact_v7_total by blast
  with interact_v7_counts
  show "\<exists>v1' v2' g'. interact_v7 v1 v2 noise scarcity polarization g = Some (v1', v2', g') \<and>
      counted_once v1 v1' \<and> counted_once v2 v2'"
    by blast
next
  show "same_counters w1 (receive_teaching_v5 w1 w2)" by (rule receive_teaching_v5_counts)
  show "same_counters v1 (fst (receive_teaching_v7 v1 v2 g))"
    by (cases "receive_teaching_v7 v1 v2 g") (auto dest: receive_teaching_v7_counts)
  show "newborn (fst (create_human_v5 i gen trust g))"
    by (cases "create_human_v5 i gen trust g")
      (use create_human_v5_newborn [of i gen trust g _ _ "[]"] in auto)
  show "newborn (fst (create_human_v7 i trust bubble g))"
    by (cases "create_human_v7 i trust bubble g")
      (use create_human_v7_newborn [of i trust bubble g _ _ "[]"] in auto)
  show "newborn (create_ai_v5 i t)" "newborn (create_ai_v7 i t)"
    by (rule create_ai_newborn)+
  show "newborn (create_awakened_human i)" by (rule create_awakened_human_newborn)
next
  assume "list_all counters_consistent population5"
  with scenario_loop_keeps [OF interact_keeps_consistent(1), of population5 p5 next_id g]
  show "\<exists>res final g'. scenario_loop p5 population5 next_id g = Some (res, final, g') \<and>
         list_all counters_consistent final"
    by (simp add: newborn_consistent)
next
  assume "list_all counters_consistent population7"
  with run_simulation_keeps [OF interact_keeps_consistent(2), of population7 p7 next_id g]
  show "\<exists>res final g'. run_simulation p7 population7 next_id g = Some (res, final, g') \<and>
         list_all counters_consistent final"
    by (simp add: newborn_consistent)
next
  show "list_all counters_consistent
      (fst (build_declining_civilization gauss n_humans next_id g))"
    unfolding build_declining_civilization_def
    by (rule build_declining_loop_keeps) (simp_all add: newborn_consistent)
  show "list_all counters_consistent (fst (build_collapsed_civilization n_humans next_id g))"
    unfolding build_collapsed_civilization_def
    by (rule build_collapsed_loop_keeps) (simp_all add: newborn_consistent)
  show "list_all counters_consistent (final_population (run_scenario p5 g))"
    by (rule run_scenario_keeps [OF interact_keeps_consistent(1)])
      (simp_all add: newborn_consistent)
qed

theorem counters_stay_consistent_witness:
  "(\<exists>res final g'. scenario_loop
        \<lparr>p5_ai_type = Some ''bridge'', p5_n_ai = 30, p5_ai_entry_gen = 10, p5_generations = 50,
         p5_base_noise = 0.15, p5_base_scarcity = 0.2, p5_base_polarization = 0.3,
         p5_scarcity_growth = 0.01, p5_polarization_growth = 0.01\<rparr>
        [new_whole_v5 0, new_whole_v5 1, create_ai_v5 2 ''coherent''] 3 (sconst 0)
          = Some (res, final, g') \<and> list_all counters_consistent final) \<and>
   (\<exists>res final g'. run_simulation
        \<lparr>p7_generations = 50, p7_noise = 0.15, p7_scarcity = 0.2, p7_polarization = 0.3,
         p7_add_bridge_ai = 10, p7_add_bridge_gen = 5, p7_add_awakened_humans = 3,
         p7_add_awakened_gen = 5, p7_gradual_ai_growth = False, p7_ai_growth_rate = 2\<rparr>
        [new_whole_v7 0, new_whole_v7 1, create_awakened_human 2] 3 (sconst 0)
          = Some (res, final, g') \<and> list_all counters_consistent final)"
  using counters_stay_consistent [of "new_whole_v5 0" "new_whole_v5 1" 0 0 0 "sconst 0"
      "new_whole_v7 0" "new_whole_v7 1" 0 0 "0.5" True "''bridge''"
      "[new_whole_v5 0, new_whole_v5 1, create_ai_v5 2 ''coherent'']"
      "\<lparr>p5_ai_type = Some ''bridge'', p5_n_ai = 30, p5_ai_entry_gen = 10, p5_generations = 50,
         p5_base_noise = 0.15, p5_base_scarcity = 0.2, p5_base_polarization = 0.3,
         p5_scarcity_growth = 0.01, p5_polarization_growth = 0.01\<rparr>" 3
      "[new_whole_v7 0, new_whole_v7 1, create_awakened_human 2]"
      "\<lparr>p7_generations = 50, p7_noise = 0.15, p7_scarcity = 0.2, p7_polarization = 0.3,
         p7_add_bridge_ai = 10, p7_add_bridge_gen = 5, p7_add_awakened_humans = 3,
         p7_add_awakened_gen = 5, p7_gradual_ai_growth = False, p7_ai_growth_rate = 2\<rparr>"
      "\<lambda>mu sigma h. (mu, h)" 2]
  by (simp add: new_whole_consistent create_ai_consistent create_awakened_human_consistent;
      blast)

section \<open>The cap on the scars\<close>

text \<open>
  \<^verbatim>\<open>learn\<close> keeps the cap: it appends one scar and, past a hundred, keeps the last hundred,
  so the oldest go first.
\<close>

lemma learn_caps:
  assumes "learn w a b outc src = Some w'"
  shows "length (scars w') \<le> 100"
    and "\<exists>wt. scars w' = last_n 100 (scars w @ [new_scar b a outc wt src])"
  using assms
  by (auto simp: learn_def Let_def last_n_def split: option.splits if_splits)

lemma settle_caps:
  "settle a1 a2 (d1, d2, o1, o2, x1, x2) = Some (s1, s2) \<Longrightarrow>
   length (scars s1) \<le> 100 \<and> length (scars s2) \<le> 100"
  by (auto simp: settle_def split: bind_splits dest: learn_caps(1))

lemma receive_teaching_v7_scars:
  "receive_teaching_v7 s t g = (s', g') \<Longrightarrow>
   scars s' = scars s \<or> scars s' = scars s @ [taught_scar]"
  by (auto simp: receive_teaching_v7_def Let_def split: if_splits prod.splits)

lemma teach_v7_scars:
  "teach_v7 a1 a2 s1 s2 g = (t1, t2, g') \<Longrightarrow>
   length (scars t1) \<le> length (scars s1) + 1 \<and> length (scars t2) \<le> length (scars s2) + 1"
  by (auto simp: teach_v7_def split: if_splits prod.splits dest!: receive_teaching_v7_scars)

lemma teach_v5_scars:
  "teach_v5 a1 a2 s1 s2 = (t1, t2) \<Longrightarrow>
   length (scars t1) \<le> length (scars s1) + 1 \<and> length (scars t2) \<le> length (scars s2) + 1"
  by (auto simp: teach_v5_def receive_teaching_v5_def Let_def split: if_splits)

text \<open>
  \<^verbatim>\<open>receive_teaching\<close> appends without trimming, so what one interaction leaves is at most a
  hundred and one scars, whatever there was before.
\<close>

lemma interact_v5_scars:
  assumes "interact_v5 w1 w2 n sc pl g = Some (w1', w2', g')"
  shows "length (scars w1') \<le> 101 \<and> length (scars w2') \<le> 101"
proof -
  from assms obtain a1 a2 d1 d2 o1 o2 x1 x2 s1 s2 where
    s: "settle a1 a2 (d1, d2, o1, o2, x1, x2) = Some (s1, s2)"
    and t: "teach_v5 a1 a2 s1 s2 = (w1', w2')"
    by (rule interact_v5_stages)
  from settle_caps [OF s] teach_v5_scars [OF t] show ?thesis by simp
qed

lemma interact_v7_scars:
  assumes "interact_v7 w1 w2 n sc pl g = Some (w1', w2', g')"
  shows "length (scars w1') \<le> 101 \<and> length (scars w2') \<le> 101"
proof -
  from assms obtain a1 a2 g3 d1 d2 o1 o2 x1 x2 s1 s2 where
    s: "settle a1 a2 (d1, d2, o1, o2, x1, x2) = Some (s1, s2)"
    and t: "teach_v7 a1 a2 s1 s2 g3 = (w1', w2', g')"
    by (rule interact_v7_stages)
  from settle_caps [OF s] teach_v7_scars [OF t] show ?thesis by simp
qed

lemma scars_bounded_by_101:
  "list_all (\<lambda>w. length (scars w) \<le> 101) population5 \<Longrightarrow>
   \<exists>res final g'. scenario_loop p5 population5 next_id g = Some (res, final, g') \<and>
     list_all (\<lambda>w. length (scars w) \<le> 101) final"
  "list_all (\<lambda>w. length (scars w) \<le> 101) population7 \<Longrightarrow>
   \<exists>res final g'. run_simulation p7 population7 next_id g = Some (res, final, g') \<and>
     list_all (\<lambda>w. length (scars w) \<le> 101) final"
proof -
  assume "list_all (\<lambda>w. length (scars w) \<le> 101) population5"
  then show "\<exists>res final g'. scenario_loop p5 population5 next_id g = Some (res, final, g') \<and>
     list_all (\<lambda>w. length (scars w) \<le> 101) final"
    by (rule scenario_loop_keeps [rotated 2])
      (auto dest: interact_v5_scars simp: newborn_def)
next
  assume "list_all (\<lambda>w. length (scars w) \<le> 101) population7"
  then show "\<exists>res final g'. run_simulation p7 population7 next_id g = Some (res, final, g') \<and>
     list_all (\<lambda>w. length (scars w) \<le> 101) final"
    by (rule run_simulation_keeps [rotated 2])
      (auto dest: interact_v7_scars simp: newborn_def)
qed

text \<open>What the payoff table and the settling leave as it was, and what they do to the scars.\<close>

lemma learn_length:
  "learn w a b outc src = Some w' \<Longrightarrow> length (scars w') = min 100 (length (scars w) + 1)"
  by (auto simp: learn_def Let_def last_n_def split: option.splits if_splits)

lemma settled_v5:
  assumes "payoff_v5 a1 a2 sc pen (init_recent w1) (init_recent w2) = (d1, d2, o1, o2, x1, x2)"
    and "settle a1 a2 (d1, d2, o1, o2, x1, x2) = Some (s1, s2)"
  shows "is_ai s1 = is_ai w1 \<and> ai_type s1 = ai_type w1 \<and> taught_by_ai s1 = taught_by_ai w1 \<and>
         whole_id s1 = whole_id w1 \<and>
         trust_in_institutions s1 = trust_in_institutions w1 \<and>
         length (scars s1) = min 100 (length (scars w1) + 1) \<and>
         is_ai s2 = is_ai w2 \<and> ai_type s2 = ai_type w2 \<and> taught_by_ai s2 = taught_by_ai w2 \<and>
         whole_id s2 = whole_id w2 \<and>
         trust_in_institutions s2 = trust_in_institutions w2 \<and>
         length (scars s2) = min 100 (length (scars w2) + 1)"
proof -
  from assms(1) have x:
    "is_ai x1 = is_ai w1 \<and> ai_type x1 = ai_type w1 \<and> taught_by_ai x1 = taught_by_ai w1 \<and>
     whole_id x1 = whole_id w1 \<and> trust_in_institutions x1 = trust_in_institutions w1 \<and>
     scars x1 = scars w1 \<and>
     is_ai x2 = is_ai w2 \<and> ai_type x2 = ai_type w2 \<and> taught_by_ai x2 = taught_by_ai w2 \<and>
     whole_id x2 = whole_id w2 \<and> trust_in_institutions x2 = trust_in_institutions w2 \<and>
     scars x2 = scars w2"
    by (auto simp: payoff_v5_def Let_def updaters init_recent_def
        split: if_splits option.splits)
  from assms(2) obtain l1 l2 where
    l: "learn (update_coherence x1 d1) a1 a2 o1 ''experience'' = Some l1"
       "learn (update_coherence x2 d2) a2 a1 o2 ''experience'' = Some l2"
    and s: "s1 = l1\<lparr>interactions := interactions l1 + 1\<rparr>"
       "s2 = l2\<lparr>interactions := interactions l2 + 1\<rparr>"
    by (auto simp: settle_def split: bind_splits)
  from l have "is_ai l1 = is_ai x1 \<and> ai_type l1 = ai_type x1 \<and> taught_by_ai l1 = taught_by_ai x1
      \<and> whole_id l1 = whole_id x1 \<and> trust_in_institutions l1 = trust_in_institutions x1
      \<and> is_ai l2 = is_ai x2 \<and> ai_type l2 = ai_type x2 \<and> taught_by_ai l2 = taught_by_ai x2
      \<and> whole_id l2 = whole_id x2 \<and> trust_in_institutions l2 = trust_in_institutions x2"
    by (auto simp: learn_def Let_def update_coherence_def split: option.splits)
  with x s learn_length [OF l(1)] learn_length [OF l(2)] show ?thesis
    by (simp add: update_coherence_def)
qed

lemma settled_v7:
  assumes "payoff_v7 a1 a2 sc pen (init_recent w1) (init_recent w2) = (d1, d2, o1, o2, x1, x2)"
    and "settle a1 a2 (d1, d2, o1, o2, x1, x2) = Some (s1, s2)"
  shows "is_ai s1 = is_ai w1 \<and> ai_type s1 = ai_type w1 \<and> taught_by s1 = taught_by w1 \<and>
         awakened s1 = awakened w1 \<and> whole_id s1 = whole_id w1 \<and>
         trust_in_institutions s1 = trust_in_institutions w1 \<and>
         length (scars s1) = min 100 (length (scars w1) + 1) \<and>
         is_ai s2 = is_ai w2 \<and> ai_type s2 = ai_type w2 \<and> taught_by s2 = taught_by w2 \<and>
         awakened s2 = awakened w2 \<and> whole_id s2 = whole_id w2 \<and>
         trust_in_institutions s2 = trust_in_institutions w2 \<and>
         length (scars s2) = min 100 (length (scars w2) + 1)"
proof -
  from assms(1) have x:
    "is_ai x1 = is_ai w1 \<and> ai_type x1 = ai_type w1 \<and> taught_by x1 = taught_by w1 \<and>
     awakened x1 = awakened w1 \<and>
     whole_id x1 = whole_id w1 \<and> trust_in_institutions x1 = trust_in_institutions w1 \<and>
     scars x1 = scars w1 \<and>
     is_ai x2 = is_ai w2 \<and> ai_type x2 = ai_type w2 \<and> taught_by x2 = taught_by w2 \<and>
     awakened x2 = awakened w2 \<and>
     whole_id x2 = whole_id w2 \<and> trust_in_institutions x2 = trust_in_institutions w2 \<and>
     scars x2 = scars w2"
    by (auto simp: payoff_v7_def Let_def updaters init_recent_def
        split: if_splits option.splits)
  from assms(2) obtain l1 l2 where
    l: "learn (update_coherence x1 d1) a1 a2 o1 ''experience'' = Some l1"
       "learn (update_coherence x2 d2) a2 a1 o2 ''experience'' = Some l2"
    and s: "s1 = l1\<lparr>interactions := interactions l1 + 1\<rparr>"
       "s2 = l2\<lparr>interactions := interactions l2 + 1\<rparr>"
    by (auto simp: settle_def split: bind_splits)
  from l have "is_ai l1 = is_ai x1 \<and> ai_type l1 = ai_type x1 \<and> taught_by l1 = taught_by x1
      \<and> awakened l1 = awakened x1
      \<and> whole_id l1 = whole_id x1 \<and> trust_in_institutions l1 = trust_in_institutions x1
      \<and> is_ai l2 = is_ai x2 \<and> ai_type l2 = ai_type x2 \<and> taught_by l2 = taught_by x2
      \<and> awakened l2 = awakened x2
      \<and> whole_id l2 = whole_id x2 \<and> trust_in_institutions l2 = trust_in_institutions x2"
    by (auto simp: learn_def Let_def update_coherence_def split: option.splits)
  with x s learn_length [OF l(1)] learn_length [OF l(2)] show ?thesis
    by (simp add: update_coherence_def)
qed

text \<open>
  When a bridge AI and a human who carries ninety-nine scars or more both cooperate, the
  human leaves the interaction with a hundred and one: \<^verbatim>\<open>learn\<close> has trimmed to a hundred,
  and the teaching that follows appends one more. In v7 the human must not have been
  taught yet; in v5 it happens at every such meeting.
\<close>

lemma teaching_overflows_v5:
  assumes "decide_v5 (init_recent w1) (init_recent w2) n g = (''cooperate'', g1)"
    and "decide_v5 (init_recent w2) (init_recent w1) n g1 = (''cooperate'', g2)"
    and "is_ai w1" "ai_type w1 = ''bridge''" "\<not> is_ai w2" "99 \<le> length (scars w2)"
  shows "\<exists>w1' w2' g'. interact_v5 w1 w2 n sc pl g = Some (w1', w2', g') \<and>
           length (scars w2') = 101"
proof -
  obtain w1' w2' g' where i: "interact_v5 w1 w2 n sc pl g = Some (w1', w2', g')"
    using interact_v5_total by blast
  then obtain a1 a2 h1 h2 pen d1 d2 o1 o2 x1 x2 s1 s2 where
    a: "decide_v5 (init_recent w1) (init_recent w2) n g = (a1, h1)"
       "decide_v5 (init_recent w2) (init_recent w1) n h1 = (a2, h2)"
    and pay: "payoff_v5 a1 a2 sc pen (init_recent w1) (init_recent w2)
       = (d1, d2, o1, o2, x1, x2)"
    and s: "settle a1 a2 (d1, d2, o1, o2, x1, x2) = Some (s1, s2)"
    and t: "teach_v5 a1 a2 s1 s2 = (w1', w2')"
    by (rule interact_v5_stages)
  from a assms(1,2) have c: "a1 = ''cooperate''" "a2 = ''cooperate''" by auto
  from settled_v5 [OF pay s] assms(3-6)
  have "is_ai s1" "ai_type s1 = ''bridge''" "\<not> is_ai s2" "length (scars s2) = 100"
    by auto
  with t c have "length (scars w2') = 101"
    by (auto simp: teach_v5_def receive_teaching_v5_def Let_def)
  with i show ?thesis by blast
qed

lemma teaching_overflows_v7:
  assumes "decide_v7 (init_recent w1) (init_recent w2) n g = (''cooperate'', g1)"
    and "decide_v7 (init_recent w2) (init_recent w1) n g1 = (''cooperate'', g2)"
    and "is_ai w1" "ai_type w1 = ''bridge''" "\<not> is_ai w2" "taught_by w2 = None"
      "99 \<le> length (scars w2)"
  shows "\<exists>w1' w2' g'. interact_v7 w1 w2 n sc pl g = Some (w1', w2', g') \<and>
           length (scars w2') = 101"
proof -
  obtain w1' w2' g' where i: "interact_v7 w1 w2 n sc pl g = Some (w1', w2', g')"
    using interact_v7_total by blast
  then obtain a1 a2 h1 h2 h3 pen d1 d2 o1 o2 x1 x2 s1 s2 where
    a: "decide_v7 (init_recent w1) (init_recent w2) n g = (a1, h1)"
       "decide_v7 (init_recent w2) (init_recent w1) n h1 = (a2, h2)"
    and pay: "payoff_v7 a1 a2 sc pen (init_recent w1) (init_recent w2)
       = (d1, d2, o1, o2, x1, x2)"
    and s: "settle a1 a2 (d1, d2, o1, o2, x1, x2) = Some (s1, s2)"
    and t: "teach_v7 a1 a2 s1 s2 h3 = (w1', w2', g')"
    by (rule interact_v7_stages)
  from a assms(1,2) have c: "a1 = ''cooperate''" "a2 = ''cooperate''" by auto
  from settled_v7 [OF pay s] assms(3-7)
  have "is_ai s1" "ai_type s1 = ''bridge''" "\<not> is_ai s2" "taught_by s2 = None"
    "length (scars s2) = 100"
    by auto
  with t c have "length (scars w2') = 101"
    by (auto simp: teach_v7_def receive_teaching_v7_def can_teach_def Let_def
        split: prod.splits if_splits)
  with i show ?thesis by blast
qed

lemma random_action_zeros [simp]: "random_action (sconst 0) = (''cooperate'', sconst 0)"
  by (simp add: random_action_def randbelow_def)

text \<open>
  Claim C3, at an input where the code breaks it. A bridge AI meets a human who carries
  a hundred scars; both cooperate. \<^verbatim>\<open>learn\<close> appends and trims back to a hundred, then
  \<^verbatim>\<open>receive_teaching\<close> appends the taught scar and does not trim: the human ends the
  interaction with a hundred and one scars. Both versions.
\<close>

theorem teaching_exceeds_the_cap:
  "length (scars veteran_v5) = 100 \<and>
   (\<exists>w1' w2' g'. interact_v5 (create_ai_v5 0 ''bridge'') veteran_v5 0.15 0.2 0.3 (sconst 0)
      = Some (w1', w2', g') \<and> length (scars w2') = 101) \<and>
   length (scars veteran_v7) = 100 \<and>
   (\<exists>w1' w2' g'. interact_v7 (create_ai_v7 0 ''bridge'') veteran_v7 0.15 0.2 0.3 (sconst 0)
      = Some (w1', w2', g') \<and> length (scars w2') = 101)"
proof (intro conjI)
  show "length (scars veteran_v5) = 100" by (simp add: veteran_v5_def)
  show "length (scars veteran_v7) = 100" by (simp add: veteran_v7_def)
next
  let ?ai = "create_ai_v5 0 ''bridge''"
  have a1: "decide_v5 (init_recent ?ai) (init_recent veteran_v5) 0.15 (sconst 0)
      = (''cooperate'', sconst 0)"
    by (simp add: decide_v5_def init_recent_def creators persistent_defector_def
        veteran_v5_def)
  have a2: "decide_v5 (init_recent veteran_v5) (init_recent ?ai) 0.15 (sconst 0)
      = (''cooperate'', sconst 0)"
    by (simp add: decide_v5_def decide_human_def init_recent_def creators veteran_v5_def)
  show "\<exists>w1' w2' g'. interact_v5 ?ai veteran_v5 0.15 0.2 0.3 (sconst 0)
      = Some (w1', w2', g') \<and> length (scars w2') = 101"
    by (rule teaching_overflows_v5 [OF a1 a2]) (simp_all add: creators veteran_v5_def)
next
  let ?ai = "create_ai_v7 0 ''bridge''"
  have a1: "decide_v7 (init_recent ?ai) (init_recent veteran_v7) 0.15 (sconst 0)
      = (''cooperate'', sconst 0)"
    by (simp add: decide_v7_def init_recent_def creators persistent_defector_def
        veteran_v7_def)
  have a2: "decide_v7 (init_recent veteran_v7) (init_recent ?ai) 0.15 (sconst 0)
      = (''cooperate'', sconst 0)"
    by (simp add: decide_v7_def decide_human_def init_recent_def creators veteran_v7_def)
  show "\<exists>w1' w2' g'. interact_v7 ?ai veteran_v7 0.15 0.2 0.3 (sconst 0)
      = Some (w1', w2', g') \<and> length (scars w2') = 101"
    by (rule teaching_overflows_v7 [OF a1 a2]) (simp_all add: creators veteran_v7_def)
qed

section \<open>When teaching happens\<close>








section \<open>A relation every interaction keeps, position by position\<close>


lemma list_all2_same: "(\<And>x. R x x) \<Longrightarrow> list_all2 R xs xs"
  by (simp add: list_all2_conv_all_nth)





section \<open>Teaching within one interaction\<close>



lemma teach_v5_trust:
  "teach_v5 a1 a2 s1 s2 = (t1, t2) \<Longrightarrow>
   (t1 = s1 \<or> trust_in_institutions t1 = min 1 (trust_in_institutions s1 + 0.1) \<and>
      scars t1 = scars s1 @ [taught_scar]) \<and>
   (t2 = s2 \<or> trust_in_institutions t2 = min 1 (trust_in_institutions s2 + 0.1) \<and>
      scars t2 = scars s2 @ [taught_scar])"
  by (auto simp: teach_v5_def receive_teaching_v5_def Let_def split: if_splits)








end
